(* ===== verification/Kyro_Prelude.thy ===== *)
theory Kyro_Prelude
  imports Main
    "HOL-Library.AList"
    "HOL-Library.Char_ord"
    "HOL-Library.List_Lexorder"
    "HOL-Library.Multiset"
    "HOL-Library.Product_Lexorder"
    "HOL-Library.Sublist"
begin

text \<open>
  The shared prelude of the development: the result type in which every raised Python
  exception is a value, Python's \<open>str\<close> operations on strings, dictionaries as association
  lists in insertion order, and the generic lemmas on them that the components use.

  A Python string is its UTF-8 encoding, a \<^typ>\<open>char list\<close>. The operations that look at
  the class of a character (\<open>strip\<close>, \<open>casefold\<close>, \<open>isalnum\<close>, \<open>isspace\<close>) are those of the
  ASCII range; Kubernetes names, labels, field paths, digests and ISO timestamps are ASCII.
  Comparison of UTF-8 strings byte by byte is comparison by code points, so \<open>sorted\<close> on
  strings is sorting in the lexicographic order of \<^typ>\<open>char list\<close>.
\<close>

named_theorems py_simps \<open>rewrite rules of the Python operations\<close>
named_theorems dict_simps \<open>lookup and update of dictionaries\<close>
named_theorems res_simps \<open>the result type\<close>

subsection \<open>Exceptions as values\<close>

datatype exn =
    TypeError
  | AttributeError
  | ValueError string
  | OverflowError
  | ZeroDivisionError
  | KeyError
  | IndexError
  | RuntimeError string
  | LookupError string
  | TimeoutError
  | ManifestSourcePatchError string
  | RemediationSourcePatchUnsupported string
  | RemediationSourceContractError string
  | EventBodyDecodeError string
  | TimelineCoverageLimitExceeded string

type_synonym 'a res = "exn + 'a"

definition rbind :: "'a res \<Rightarrow> ('a \<Rightarrow> 'b res) \<Rightarrow> 'b res" where
  "rbind m f = (case m of Inl e \<Rightarrow> Inl e | Inr x \<Rightarrow> f x)"

definition rmap :: "('a \<Rightarrow> 'b) \<Rightarrow> 'a res \<Rightarrow> 'b res" where
  "rmap f m = (case m of Inl e \<Rightarrow> Inl e | Inr x \<Rightarrow> Inr (f x))"

text \<open>A Python loop whose body may raise: the first exception ends it.\<close>

fun rtraverse :: "('a \<Rightarrow> 'b res) \<Rightarrow> 'a list \<Rightarrow> 'b list res" where
  "rtraverse f [] = Inr []"
| "rtraverse f (x # xs) = rbind (f x) (\<lambda>y. rmap (Cons y) (rtraverse f xs))"

lemma rbind_simps [simp, res_simps]:
  "rbind (Inl e) f = Inl e"
  "rbind (Inr x) f = f x"
  by (simp_all add: rbind_def)

lemma rmap_simps [simp, res_simps]:
  "rmap g (Inl e) = Inl e"
  "rmap g (Inr x) = Inr (g x)"
  by (simp_all add: rmap_def)

lemma rbind_Inr_iff: "rbind m f = Inr y \<longleftrightarrow> (\<exists>x. m = Inr x \<and> f x = Inr y)"
  by (cases m) auto

lemma rbind_Inl_iff: "rbind m f = Inl e \<longleftrightarrow> m = Inl e \<or> (\<exists>x. m = Inr x \<and> f x = Inl e)"
  by (cases m) auto

lemma rmap_Inl_iff: "rmap f m = Inl e \<longleftrightarrow> m = Inl e"
  by (cases m) auto

lemma rbind_InrE:
  assumes "rbind m f = Inr y"
  obtains x where "m = Inr x" and "f x = Inr y"
  using assms by (cases m) auto

lemma rmap_Inr_iff: "rmap f m = Inr y \<longleftrightarrow> (\<exists>x. m = Inr x \<and> y = f x)"
  by (cases m) auto

text \<open>
  The other loop shapes of the sources: a loop threading a state, a loop that appends to a
  list or continues, and \<open>all\<close>/\<open>any\<close> over a generator, which stop at the first decisive
  element.
\<close>

fun rfold :: "('s \<Rightarrow> 'a \<Rightarrow> 's res) \<Rightarrow> 's \<Rightarrow> 'a list \<Rightarrow> 's res" where
  "rfold f s [] = Inr s"
| "rfold f s (x # xs) = rbind (f s x) (\<lambda>s'. rfold f s' xs)"

fun rcollect :: "('a \<Rightarrow> 'b option res) \<Rightarrow> 'a list \<Rightarrow> 'b list res" where
  "rcollect f [] = Inr []"
| "rcollect f (x # xs) =
    rbind (f x) (\<lambda>y. rmap (\<lambda>ys. case y of None \<Rightarrow> ys | Some z \<Rightarrow> z # ys) (rcollect f xs))"

fun rall :: "('a \<Rightarrow> bool res) \<Rightarrow> 'a list \<Rightarrow> bool res" where
  "rall f [] = Inr True"
| "rall f (x # xs) = rbind (f x) (\<lambda>b. if b then rall f xs else Inr False)"

fun rany :: "('a \<Rightarrow> bool res) \<Rightarrow> 'a list \<Rightarrow> bool res" where
  "rany f [] = Inr False"
| "rany f (x # xs) = rbind (f x) (\<lambda>b. if b then Inr True else rany f xs)"

lemma rcollect_set:
  "rcollect f xs = Inr ys \<Longrightarrow> set ys = {y. \<exists>x \<in> set xs. f x = Inr (Some y)}"
proof (induction xs arbitrary: ys)
  case (Cons x xs)
  then obtain y zs where *: "f x = Inr y" "rcollect f xs = Inr zs"
    "ys = (case y of None \<Rightarrow> zs | Some z \<Rightarrow> z # zs)"
    by (auto simp: rbind_Inr_iff rmap_Inr_iff)
  then show ?case using Cons.IH [of zs] by (cases y) auto
qed simp

lemma rcollect_total:
  assumes "\<And>x. x \<in> set xs \<Longrightarrow> f x = Inr (g x)"
  shows "rcollect f xs = Inr (List.map_filter g xs)"
  using assms by (induction xs) (auto split: option.splits)

lemma rall_Inr_True: "rall f xs = Inr True \<longleftrightarrow> (\<forall>x \<in> set xs. f x = Inr True)"
  by (induction xs) (auto simp: rbind_def split: sum.splits)

lemma rany_Inr_False: "rany f xs = Inr False \<longleftrightarrow> (\<forall>x \<in> set xs. f x = Inr False)"
  by (induction xs) (auto simp: rbind_def split: sum.splits)

lemma rfold_invariant:
  assumes "rfold f s xs = Inr s'" and "I [] s"
    and "\<And>seen x t t'. x \<in> set xs \<Longrightarrow> I seen t \<Longrightarrow> f t x = Inr t' \<Longrightarrow> I (seen @ [x]) t'"
  shows "I xs s'"
proof -
  have "I (seen @ xs) s'" if "I seen s" "rfold f s xs = Inr s'"
      "\<And>seen x t t'. x \<in> set xs \<Longrightarrow> I seen t \<Longrightarrow> f t x = Inr t' \<Longrightarrow> I (seen @ [x]) t'" for seen
    using that
  proof (induction xs arbitrary: seen s)
    case (Cons x xs)
    then obtain t where t: "f s x = Inr t" "rfold f t xs = Inr s'"
      by (auto simp: rbind_Inr_iff)
    then have "I ((seen @ [x]) @ xs) s'"
      using Cons.prems by (intro Cons.IH) auto
    then show ?case by simp
  qed simp
  from this [of "[]"] assms show ?thesis by simp
qed

lemma rfold_append: "rfold f s (xs @ ys) = rbind (rfold f s xs) (\<lambda>s'. rfold f s' ys)"
  by (induction xs arbitrary: s) (auto simp: rbind_def split: sum.splits)

lemma rtraverse_Inr_iff:
  "rtraverse f xs = Inr ys \<longleftrightarrow> list_all2 (\<lambda>x y. f x = Inr y) xs ys"
  by (induction xs arbitrary: ys)
    (auto simp: rbind_Inr_iff rmap_Inr_iff list_all2_Cons1)

lemma rtraverse_length: "rtraverse f xs = Inr ys \<Longrightarrow> length ys = length xs"
  by (auto simp: rtraverse_Inr_iff dest: list_all2_lengthD)

lemma rtraverse_set:
  "rtraverse f xs = Inr ys \<Longrightarrow> y \<in> set ys \<Longrightarrow> \<exists>x \<in> set xs. f x = Inr y"
  by (induction xs arbitrary: ys) (auto simp: rbind_Inr_iff rmap_Inr_iff)

subsection \<open>Python strings\<close>

definition is_py_space :: "char \<Rightarrow> bool" where
  "is_py_space c \<longleftrightarrow>
     (let n = (of_char c :: nat) in 9 \<le> n \<and> n \<le> 13 \<or> 28 \<le> n \<and> n \<le> 32)"

definition py_strip :: "string \<Rightarrow> string" where
  "py_strip s = rev (dropWhile is_py_space (rev (dropWhile is_py_space s)))"

definition lower_char :: "char \<Rightarrow> char" where
  "lower_char c =
     (let n = (of_char c :: nat) in if 65 \<le> n \<and> n \<le> 90 then char_of (n + 32) else c)"

definition py_casefold :: "string \<Rightarrow> string" where
  "py_casefold = map lower_char"

definition is_digit :: "char \<Rightarrow> bool" where
  "is_digit c \<longleftrightarrow> (let n = (of_char c :: nat) in 48 \<le> n \<and> n \<le> 57)"

definition is_alpha :: "char \<Rightarrow> bool" where
  "is_alpha c \<longleftrightarrow> (let n = (of_char c :: nat) in 65 \<le> n \<and> n \<le> 90 \<or> 97 \<le> n \<and> n \<le> 122)"

definition is_alnum :: "char \<Rightarrow> bool" where
  "is_alnum c \<longleftrightarrow> is_digit c \<or> is_alpha c"

definition is_lower_hex :: "char \<Rightarrow> bool" where
  "is_lower_hex c \<longleftrightarrow> is_digit c \<or> (let n = (of_char c :: nat) in 97 \<le> n \<and> n \<le> 102)"

definition digit_val :: "char \<Rightarrow> int" where
  "digit_val c = of_char c - 48"

definition digit_char :: "int \<Rightarrow> char" where
  "digit_char d = char_of (48 + d)"

text \<open>\<open>s.split(c)\<close> for a one-character separator.\<close>

fun py_split :: "char \<Rightarrow> string \<Rightarrow> string list" where
  "py_split c [] = [[]]"
| "py_split c (x # xs) =
     (if x = c then [] # py_split c xs
      else (case py_split c xs of [] \<Rightarrow> [[x]] | w # ws \<Rightarrow> (x # w) # ws))"

text \<open>\<open>sep.join(parts)\<close>.\<close>

fun py_join :: "string \<Rightarrow> string list \<Rightarrow> string" where
  "py_join sep [] = []"
| "py_join sep [w] = w"
| "py_join sep (w # v # ws) = w @ sep @ py_join sep (v # ws)"

text \<open>\<open>s.replace(c, r)\<close> for a one-character pattern.\<close>

definition py_replace_char :: "char \<Rightarrow> string \<Rightarrow> string \<Rightarrow> string" where
  "py_replace_char c r s = concat (map (\<lambda>x. if x = c then r else [x]) s)"

abbreviation py_startswith :: "string \<Rightarrow> string \<Rightarrow> bool" where
  "py_startswith s p \<equiv> prefix p s"

abbreviation py_endswith :: "string \<Rightarrow> string \<Rightarrow> bool" where
  "py_endswith s p \<equiv> suffix p s"

abbreviation py_contains :: "string \<Rightarrow> string \<Rightarrow> bool" where
  "py_contains needle s \<equiv> sublist needle s"

text \<open>\<open>s.partition(c)\<close>: the part before, whether the separator occurs, the part after.\<close>

definition py_partition :: "char \<Rightarrow> string \<Rightarrow> string \<times> bool \<times> string" where
  "py_partition c s =
     (if c \<in> set s then (takeWhile (\<lambda>x. x \<noteq> c) s, True, tl (dropWhile (\<lambda>x. x \<noteq> c) s))
      else (s, False, []))"

lemma py_split_ne [simp]: "py_split c s \<noteq> []"
  by (induction s) (auto split: list.splits)

lemma py_join_Cons: "ws \<noteq> [] \<Longrightarrow> py_join sep (w # ws) = w @ sep @ py_join sep ws"
  by (cases ws) auto

lemma py_join_head: "py_join sep ((x # w) # ws) = x # py_join sep (w # ws)"
  by (cases ws) auto

lemma py_join_split [py_simps]: "py_join [c] (py_split c s) = s"
proof (induction s)
  case Nil
  then show ?case by simp
next
  case (Cons x xs)
  then show ?case
    by (cases "py_split c xs") (auto simp: py_join_Cons py_join_head)
qed

lemma py_split_no_sep: "w \<in> set (py_split c s) \<Longrightarrow> c \<notin> set w"
proof (induction s arbitrary: w)
  case Nil
  then show ?case by simp
next
  case (Cons x xs)
  then show ?case by (auto split: if_splits list.splits)
qed

lemma py_casefold_simps [simp]:
  "py_casefold [] = []"
  "py_casefold (c # s) = lower_char c # py_casefold s"
  by (simp_all add: py_casefold_def)

lemma lower_char_idem [simp]: "lower_char (lower_char c) = lower_char c"
  by (auto simp: lower_char_def Let_def)

lemma py_casefold_idem [simp]: "py_casefold (py_casefold s) = py_casefold s"
  by (simp add: py_casefold_def)

lemma py_strip_Nil [simp]: "py_strip [] = []"
  by (simp add: py_strip_def)

lemma dropWhile_idem_hd: "xs = [] \<or> \<not> P (hd xs) \<Longrightarrow> dropWhile P xs = xs"
  by (cases xs) auto

lemma dropWhile_snoc_keep: "\<not> P x \<Longrightarrow> dropWhile P (xs @ [x]) = dropWhile P xs @ [x]"
  by (induction xs) auto

lemma dropWhile_rev_dropWhile:
  "dropWhile P (rev (dropWhile P (rev (dropWhile P s)))) =
   rev (dropWhile P (rev (dropWhile P s)))"
proof (cases "dropWhile P s")
  case Nil
  then show ?thesis by (simp only: rev.simps dropWhile.simps)
next
  case (Cons x xs)
  then have nx: "\<not> P x"
    by (simp add: dropWhile_eq_Cons_conv)
  then have "rev (dropWhile P (rev (dropWhile P s))) = x # rev (dropWhile P (rev xs))"
    using Cons by (simp add: dropWhile_snoc_keep)
  then show ?thesis using nx by simp
qed

lemma py_strip_Nil_iff: "py_strip s = [] \<longleftrightarrow> (\<forall>c \<in> set s. is_py_space c)"
proof -
  have "(\<forall>c \<in> set (dropWhile is_py_space s). is_py_space c) \<longleftrightarrow> dropWhile is_py_space s = []"
    by (metis hd_dropWhile hd_in_set empty_iff list.set(1))
  then show ?thesis by (simp add: py_strip_def dropWhile_eq_Nil_conv)
qed

lemma py_strip_idem [simp]: "py_strip (py_strip s) = py_strip s"
  by (simp add: py_strip_def dropWhile_rev_dropWhile)

subsection \<open>Dictionaries in insertion order\<close>

type_synonym 'v dict = "(string \<times> 'v) list"

abbreviation dict_get :: "('k \<times> 'v) list \<Rightarrow> 'k \<Rightarrow> 'v option" where
  "dict_get d k \<equiv> map_of d k"

definition dict_set :: "('k \<times> 'v) list \<Rightarrow> 'k \<Rightarrow> 'v \<Rightarrow> ('k \<times> 'v) list" where
  "dict_set d k v = AList.update k v d"

definition dict_pop :: "('k \<times> 'v) list \<Rightarrow> 'k \<Rightarrow> ('k \<times> 'v) list" where
  "dict_pop d k = AList.delete k d"

definition dict_has :: "('k \<times> 'v) list \<Rightarrow> 'k \<Rightarrow> bool" where
  "dict_has d k \<longleftrightarrow> k \<in> fst ` set d"

text \<open>\<open>dict.update\<close>, and a dict built from a sequence of items (the last value of a
  repeated key wins, its first position is kept).\<close>

definition dict_update :: "('k \<times> 'v) list \<Rightarrow> ('k \<times> 'v) list \<Rightarrow> ('k \<times> 'v) list" where
  "dict_update d items = foldl (\<lambda>acc kv. dict_set acc (fst kv) (snd kv)) d items"

abbreviation dict_of :: "('k \<times> 'v) list \<Rightarrow> ('k \<times> 'v) list" where
  "dict_of items \<equiv> dict_update [] items"

abbreviation dict_ok :: "('k \<times> 'v) list \<Rightarrow> bool" where
  "dict_ok d \<equiv> distinct (map fst d)"

lemma dict_get_set [simp, dict_simps]:
  "dict_get (dict_set d k v) k' = (if k' = k then Some v else dict_get d k')"
  by (simp add: dict_set_def update_conv')

lemma dict_get_pop [simp, dict_simps]:
  "dict_get (dict_pop d k) k' = (if k' = k then None else dict_get d k')"
  by (simp add: dict_pop_def delete_conv')

lemma dict_set_ok [simp]: "dict_ok d \<Longrightarrow> dict_ok (dict_set d k v)"
  by (simp add: dict_set_def distinct_update)

lemma dict_pop_ok [simp]: "dict_ok d \<Longrightarrow> dict_ok (dict_pop d k)"
  by (simp add: dict_pop_def distinct_delete)

lemma dict_has_iff [dict_simps]: "dict_has d k \<longleftrightarrow> dict_get d k \<noteq> None"
  by (simp add: dict_has_def map_of_eq_None_iff)

lemma dict_set_code [simp, code]:
  "dict_set [] k v = [(k, v)]"
  "dict_set ((a, b) # d) k v = (if a = k then (a, v) # d else (a, b) # dict_set d k v)"
  by (auto simp: dict_set_def)

lemma dict_set_new: "k \<notin> set (map fst d) \<Longrightarrow> dict_set d k v = d @ [(k, v)]"
  by (induction d) auto

lemma dict_update_simps [simp]:
  "dict_update d [] = d"
  "dict_update d ((k, v) # items) = dict_update (dict_set d k v) items"
  by (simp_all add: dict_update_def)

lemma dict_update_ok [simp]: "dict_ok d \<Longrightarrow> dict_ok (dict_update d items)"
  by (induction items arbitrary: d) auto

lemma dict_get_update [dict_simps]:
  "dict_get (dict_update d items) k =
     (case dict_get (rev items) k of Some v \<Rightarrow> Some v | None \<Rightarrow> dict_get d k)"
  by (induction items arbitrary: d) (auto split: option.splits)

lemma keys_dict_set: "set (map fst (dict_set d k v)) = insert k (set (map fst d))"
proof (induction d)
  case Nil
  then show ?case by simp
next
  case (Cons kv d)
  then show ?case by (cases kv) (auto simp del: set_map)
qed

subsection \<open>Lists\<close>

text \<open>Python's \<open>len(set(xs)) != len(xs)\<close>: some element repeats.\<close>

lemma length_remdups_distinct: "length (remdups xs) = length xs \<longleftrightarrow> distinct xs"
  by simp

text \<open>\<open>sorted(set(xs))\<close>.\<close>

definition sorted_set :: "'a::linorder list \<Rightarrow> 'a list" where
  "sorted_set xs = sort (remdups xs)"

lemma sorted_set_props [simp]:
  "set (sorted_set xs) = set xs"
  "sorted (sorted_set xs)"
  "distinct (sorted_set xs)"
  by (simp_all add: sorted_set_def)

text \<open>\<open>min(xs, key=f)\<close> on a non-empty list: the first element of least key.\<close>

fun min_by :: "('a \<Rightarrow> 'k::linorder) \<Rightarrow> 'a \<Rightarrow> 'a list \<Rightarrow> 'a" where
  "min_by f m [] = m"
| "min_by f m (x # xs) = min_by f (if f x < f m then x else m) xs"

lemma min_by_in: "min_by f m xs \<in> insert m (set xs)"
  by (induction f m xs rule: min_by.induct) (auto split: if_splits)

lemma min_by_le: "f (min_by f m xs) \<le> f m \<and> (\<forall>x \<in> set xs. f (min_by f m xs) \<le> f x)"
proof (induction f m xs rule: min_by.induct)
  case (1 f m)
  then show ?case by simp
next
  case (2 f m x xs)
  then show ?case
    by (cases "f x < f m") (auto intro: order_trans less_imp_le)
qed

end
