(* ===== verification/Py_Number.thy ===== *)
theory Py_Number
  imports Kyro_Prelude Complex_Main
begin

text \<open>
  Python's numbers. An \<open>int\<close> is an \<^typ>\<open>int\<close>. A \<open>float\<close> is an IEEE binary64 value: a finite
  value is the rational it denotes, and every arithmetic operation is the exact rational
  operation followed by rounding to nearest, ties to even, in 53 bits with the subnormal
  range and overflow to infinity written out. The two zeros are one value. The decimal
  readers are those of \<open>int(str)\<close> and \<open>float(str)\<close>, with the exceptions they raise.
\<close>

subsection \<open>Decimal numerals\<close>

function nat_digits :: "int \<Rightarrow> string" where
  "nat_digits n =
     (if n < 10 then [digit_char n] else nat_digits (n div 10) @ [digit_char (n mod 10)])"
  by pat_completeness auto
termination
  by (relation "measure nat") auto

declare nat_digits.simps [simp del]

definition int_str :: "int \<Rightarrow> string" where
  "int_str i = (if i < 0 then CHR ''-'' # nat_digits (- i) else nat_digits i)"

definition digits_nat :: "string \<Rightarrow> int" where
  "digits_nat s = foldl (\<lambda>n c. 10 * n + digit_val c) 0 s"

text \<open>Zero-padded decimal, \<open>'{:02d}'.format(n)\<close> and its kin.\<close>

definition pad_digits :: "nat \<Rightarrow> int \<Rightarrow> string" where
  "pad_digits w n = (let s = nat_digits n in replicate (w - length s) (CHR ''0'') @ s)"

lemma of_char_digit_char [simp]:
  "0 \<le> d \<Longrightarrow> d < 10 \<Longrightarrow> (of_char (digit_char d) :: int) = 48 + d"
  by (simp add: digit_char_def)

lemma is_digit_iff: "is_digit c \<longleftrightarrow> 48 \<le> (of_char c :: int) \<and> (of_char c :: int) \<le> 57"
proof -
  have "(of_char c :: int) = int (of_char c)" by (simp add: of_nat_of_char)
  then show ?thesis unfolding is_digit_def Let_def by presburger
qed

lemma is_digit_digit_char [simp]: "0 \<le> d \<Longrightarrow> d < 10 \<Longrightarrow> is_digit (digit_char d)"
  by (simp add: is_digit_iff)

lemma digit_val_digit_char [simp]: "0 \<le> d \<Longrightarrow> d < 10 \<Longrightarrow> digit_val (digit_char d) = d"
  by (simp add: digit_val_def)

lemma digit_val_nonneg: "is_digit c \<Longrightarrow> 0 \<le> digit_val c"
  by (simp add: digit_val_def is_digit_iff)

lemma digits_nat_Nil [simp]: "digits_nat [] = 0"
  by (simp add: digits_nat_def)

lemma digits_nat_snoc [simp]: "digits_nat (s @ [c]) = 10 * digits_nat s + digit_val c"
  by (simp add: digits_nat_def)

lemma digits_nat_nonneg: "list_all is_digit s \<Longrightarrow> 0 \<le> digits_nat s"
  by (induction s rule: rev_induct) (auto simp: digit_val_nonneg)

lemma nat_digits_ne [simp]: "nat_digits n \<noteq> []"
  by (subst nat_digits.simps) simp

lemma nat_digits_all: "0 \<le> n \<Longrightarrow> list_all is_digit (nat_digits n)"
proof (induction n rule: nat_digits.induct)
  case (1 n)
  then show ?case
    by (cases "n < 10") (simp_all add: nat_digits.simps [of n])
qed

lemma digits_nat_digits [simp]: "0 \<le> n \<Longrightarrow> digits_nat (nat_digits n) = n"
proof (induction n rule: nat_digits.induct)
  case (1 n)
  then show ?case
    by (cases "n < 10") (simp_all add: nat_digits.simps [of n] digits_nat_def)
qed

lemma digits_nat_replicate_zero [simp]:
  "digits_nat (replicate k (CHR ''0'') @ s) = digits_nat s"
  by (induction k) (simp_all add: digits_nat_def digit_val_def)

lemma nat_digits_length: "n < 10 ^ w \<Longrightarrow> 0 < w \<Longrightarrow> length (nat_digits n) \<le> w"
proof (induction n arbitrary: w rule: nat_digits.induct)
  case (1 n)
  show ?case
  proof (cases "n < 10")
    case True
    then show ?thesis using 1 by (simp add: nat_digits.simps [of n])
  next
    case False
    then obtain v where w: "w = Suc v" and v: "0 < v"
      using 1 by (cases w; cases "w - 1") auto
    then have "n div 10 < 10 ^ v"
      using 1 by (simp add: div_less_iff_less_mult mult.commute)
    then show ?thesis
      using 1 False w v by (simp add: nat_digits.simps [of n])
  qed
qed

lemma pad_digits_length: "n < 10 ^ w \<Longrightarrow> 0 < w \<Longrightarrow> length (pad_digits w n) = w"
  using nat_digits_length [of n w] by (simp add: pad_digits_def Let_def)

lemma digits_nat_pad [simp]: "0 \<le> n \<Longrightarrow> digits_nat (pad_digits w n) = n"
  by (simp add: pad_digits_def Let_def)

lemma pad_digits_all: "0 \<le> n \<Longrightarrow> list_all is_digit (pad_digits w n)"
  using nat_digits_all [of n]
  by (auto simp: pad_digits_def Let_def list_all_iff is_digit_def)

subsection \<open>Reading an int from a string\<close>

text \<open>The body of a numeral: digits with single underscores between them.\<close>

fun underscore_ok :: "bool \<Rightarrow> string \<Rightarrow> bool" where
  "underscore_ok prev_digit [] \<longleftrightarrow> prev_digit"
| "underscore_ok prev_digit (c # s) \<longleftrightarrow>
     (if is_digit c then underscore_ok True s
      else c = CHR ''_'' \<and> prev_digit \<and> underscore_ok False s)"

definition split_sign :: "string \<Rightarrow> bool \<times> string" where
  "split_sign s = (case s of [] \<Rightarrow> (False, [])
     | c # r \<Rightarrow> if c = CHR ''-'' then (True, r) else if c = CHR ''+'' then (False, r)
                else (False, s))"

text \<open>\<open>int(s)\<close>. Numerals of more than 4300 digits are refused (\<open>sys.set_int_max_str_digits\<close>).\<close>

definition int_of_string :: "string \<Rightarrow> int res" where
  "int_of_string s =
     (let (neg, body) = split_sign (py_strip s); ds = filter is_digit body in
      if underscore_ok False body \<and> length ds \<le> 4300
      then Inr (if neg then - digits_nat ds else digits_nat ds)
      else Inl (ValueError ''invalid literal for int()''))"

lemma underscore_ok_digits: "list_all is_digit s \<Longrightarrow> underscore_ok p s \<longleftrightarrow> p \<or> s \<noteq> []"
  by (induction s arbitrary: p) auto

lemma digit_not_space: "is_digit c \<Longrightarrow> \<not> is_py_space c"
  by (auto simp: is_digit_def is_py_space_def Let_def)

lemma py_strip_id:
  assumes "s \<noteq> []" and "\<not> is_py_space (hd s)" and "\<not> is_py_space (last s)"
  shows "py_strip s = s"
proof -
  have a: "dropWhile is_py_space s = s"
    using assms by (cases s) auto
  have b: "dropWhile is_py_space (rev s) = rev s"
    using assms by (cases s rule: rev_cases) auto
  show ?thesis unfolding py_strip_def a b by simp
qed

lemma digits_strip:
  assumes "list_all is_digit s"
  shows "py_strip s = s"
proof (cases "s = []")
  case False
  then have "is_digit (hd s)" and "is_digit (last s)"
    using assms by (auto simp: list_all_iff)
  then show ?thesis
    using False by (simp add: py_strip_id digit_not_space)
qed simp

lemma digit_not_sign: "is_digit c \<Longrightarrow> c \<noteq> CHR ''-'' \<and> c \<noteq> CHR ''+''"
  by (auto simp: is_digit_def Let_def)

lemma split_sign_digits: "list_all is_digit s \<Longrightarrow> split_sign s = (False, s)"
  by (cases s) (auto simp: split_sign_def dest: digit_not_sign)

lemma int_of_string_digits:
  "list_all is_digit s \<Longrightarrow> s \<noteq> [] \<Longrightarrow> length s \<le> 4300 \<Longrightarrow>
   int_of_string s = Inr (digits_nat s)"
  by (simp add: int_of_string_def digits_strip split_sign_digits underscore_ok_digits
      filter_id_conv list_all_iff)

subsection \<open>Binary64\<close>

datatype fl = Fin rat | PInf | NInf | NaN

definition pow2 :: "int \<Rightarrow> rat" where
  "pow2 e = (if 0 \<le> e then 2 ^ nat e else 1 / 2 ^ nat (- e))"

function ilog2 :: "int \<Rightarrow> int" where
  "ilog2 n = (if n < 2 then 0 else ilog2 (n div 2) + 1)"
  by pat_completeness auto
termination
  by (relation "measure nat") auto

declare ilog2.simps [simp del]

text \<open>The binary exponent: the \<open>e\<close> with \<open>2 ^ e \<le> x < 2 ^ (e + 1)\<close>, for positive \<open>x\<close>.\<close>

definition expo2 :: "rat \<Rightarrow> int" where
  "expo2 x =
     (let (p, q) = quotient_of x; k = ilog2 p - ilog2 q
      in if pow2 k \<le> x then k else k - 1)"

definition round_half_even :: "rat \<Rightarrow> int" where
  "round_half_even x =
     (let f = \<lfloor>x\<rfloor>; r = x - of_int f
      in if r < 1 / 2 then f else if 1 / 2 < r then f + 1 else if even f then f else f + 1)"

definition ulp_expo :: "rat \<Rightarrow> int" where
  "ulp_expo x = max (expo2 x - 52) (- 1074)"

text \<open>Rounding of a non-negative rational to 53 significant bits.\<close>

definition rnd_pos :: "rat \<Rightarrow> rat" where
  "rnd_pos x =
     (if x = 0 then 0
      else of_int (round_half_even (x / pow2 (ulp_expo x))) * pow2 (ulp_expo x))"

definition fl_of_rat :: "rat \<Rightarrow> fl" where
  "fl_of_rat x =
     (if 0 \<le> x
      then (if rnd_pos x < 2 ^ 1024 then Fin (rnd_pos x) else PInf)
      else (if rnd_pos (- x) < 2 ^ 1024 then Fin (- rnd_pos (- x)) else NInf))"

lemma pow2_pos [simp]: "0 < pow2 e"
  by (simp add: pow2_def)

lemma pow2_0 [simp]: "pow2 0 = 1"
  by (simp add: pow2_def)

lemma pow2_Suc: "pow2 (e + 1) = 2 * pow2 e"
proof (cases "0 \<le> e")
  case True
  then have "nat (e + 1) = Suc (nat e)" by simp
  then show ?thesis using True by (simp add: pow2_def)
next
  case False
  then have "nat (- e) = Suc (nat (- (e + 1)))" by simp
  then show ?thesis using False by (simp add: pow2_def)
qed

lemma pow2_add_nat: "pow2 (e + int n) = pow2 e * 2 ^ n"
proof (induction n)
  case (Suc n)
  have "pow2 (e + int (Suc n)) = 2 * pow2 (e + int n)"
    using pow2_Suc [of "e + int n"] by (simp add: ac_simps)
  then show ?case using Suc by simp
qed simp

lemma pow2_le: "a \<le> b \<Longrightarrow> pow2 a \<le> pow2 b"
proof -
  assume "a \<le> b"
  then have "pow2 b = pow2 a * 2 ^ nat (b - a)"
    using pow2_add_nat [of a "nat (b - a)"] by simp
  then show ?thesis
    using mult_left_mono [of 1 "2 ^ nat (b - a)" "pow2 a"] by (simp add: less_imp_le)
qed

lemma pow2_dvd: "a \<le> b \<Longrightarrow> \<exists>n. pow2 b = of_int n * pow2 a"
  using pow2_add_nat [of a "nat (b - a)"]
  by (intro exI [of _ "2 ^ nat (b - a)"]) (simp add: mult.commute)

lemma ilog2_nonneg: "0 \<le> ilog2 n"
proof (induction n rule: ilog2.induct)
  case (1 n)
  then show ?case by (cases "n < 2") (simp_all add: ilog2.simps [of n])
qed

lemma ilog2_bounds: "0 < n \<Longrightarrow> 2 ^ nat (ilog2 n) \<le> n \<and> n < 2 ^ Suc (nat (ilog2 n))"
proof (induction n rule: ilog2.induct)
  case (1 n)
  show ?case
  proof (cases "n < 2")
    case True
    then show ?thesis using 1 by (simp add: ilog2.simps [of n])
  next
    case False
    then have "2 ^ nat (ilog2 (n div 2)) \<le> n div 2 \<and> n div 2 < 2 ^ Suc (nat (ilog2 (n div 2)))"
      using 1 by simp
    moreover have eq: "nat (ilog2 n) = Suc (nat (ilog2 (n div 2)))"
      using False ilog2_nonneg [of "n div 2"] by (simp add: ilog2.simps [of n])
    moreover have "n = 2 * (n div 2) + n mod 2" and "0 \<le> n mod 2" and "n mod 2 < 2"
      by simp_all
    ultimately show ?thesis unfolding eq power_Suc by linarith
  qed
qed

lemma round_half_even_of_int [simp]: "round_half_even (of_int n) = n"
  by (simp add: round_half_even_def)

lemma round_half_even_bounds:
  "\<bar>of_int (round_half_even x) - x\<bar> \<le> 1 / 2"
proof -
  have "of_int \<lfloor>x\<rfloor> \<le> x" and "x < of_int \<lfloor>x\<rfloor> + 1"
    using floor_correct [of x] by simp_all
  then show ?thesis
    unfolding round_half_even_def Let_def by (auto simp: abs_le_iff)
qed

lemma round_half_even_mono:
  assumes "x \<le> y"
  shows "round_half_even x \<le> round_half_even y"
proof (cases "\<lfloor>x\<rfloor> = \<lfloor>y\<rfloor>")
  case True
  then show ?thesis using assms unfolding round_half_even_def Let_def by auto
next
  case False
  then have "\<lfloor>x\<rfloor> + 1 \<le> \<lfloor>y\<rfloor>"
    using floor_mono [OF assms] by simp
  moreover have "round_half_even x \<le> \<lfloor>x\<rfloor> + 1" and "\<lfloor>y\<rfloor> \<le> round_half_even y"
    unfolding round_half_even_def Let_def by simp_all
  ultimately show ?thesis by linarith
qed

lemma expo2_bounds:
  assumes "0 < x"
  shows "pow2 (expo2 x) \<le> x" and "x < pow2 (expo2 x + 1)"
proof -
  obtain p q where pq: "quotient_of x = (p, q)" by (cases "quotient_of x") auto
  then have q: "0 < q" and x: "x = of_int p / of_int q"
    by (auto simp: quotient_of_denom_pos quotient_of_div)
  then have p: "0 < p" using assms by (simp add: zero_less_divide_iff)
  define a b where "a = nat (ilog2 p)" and "b = nat (ilog2 q)"
  have ab: "int a = ilog2 p" "int b = ilog2 q"
    using ilog2_nonneg by (simp_all add: a_def b_def)
  have "(2::int) ^ a \<le> p \<and> p < 2 ^ Suc a" and "(2::int) ^ b \<le> q \<and> q < 2 ^ Suc b"
    unfolding a_def b_def by (rule ilog2_bounds, rule p, rule ilog2_bounds, rule q)
  then have pa: "(2::rat) ^ a \<le> of_int p" "of_int p < (2::rat) ^ Suc a"
    and qb: "(2::rat) ^ b \<le> of_int q" "of_int q < (2::rat) ^ Suc b"
    by (metis of_int_le_iff of_int_numeral of_int_power,
        metis of_int_less_iff of_int_numeral of_int_power)+
  have q': "(0::rat) < of_int q" using q by simp
  let ?k = "int a - int b"
  have split: "pow2 (int a - int b) * 2 ^ b = 2 ^ a"
    using pow2_add_nat [of "int a - int b" b] pow2_add_nat [of 0 a] by simp
  have up: "x < pow2 (?k + 1)"
  proof -
    have "of_int p < pow2 ?k * 2 ^ b * 2" using pa(2) split by simp
    also have "\<dots> \<le> pow2 ?k * of_int q * 2" using qb(1) by (simp add: less_imp_le)
    finally show ?thesis
      unfolding x pow2_Suc using q' by (simp add: divide_less_eq ac_simps)
  qed
  have lo: "pow2 (?k - 1) \<le> x"
  proof -
    have "pow2 (?k - 1) * 2 = pow2 ?k" using pow2_Suc [of "?k - 1"] by simp
    then have "pow2 (?k - 1) * of_int q \<le> pow2 (?k - 1) * (2 ^ Suc b)"
      using qb(2) by (simp add: less_imp_le)
    also have "\<dots> = pow2 (?k - 1) * 2 * 2 ^ b" by simp
    also have "\<dots> = 2 ^ a"
      unfolding \<open>pow2 (?k - 1) * 2 = pow2 ?k\<close> by (rule split)
    also have "\<dots> \<le> of_int p" by (rule pa(1))
    finally show ?thesis using q' by (simp add: x le_divide_eq)
  qed
  have e: "expo2 x = (if pow2 ?k \<le> x then ?k else ?k - 1)"
    by (simp add: expo2_def pq ab)
  show "pow2 (expo2 x) \<le> x" using lo by (simp add: e)
  show "x < pow2 (expo2 x + 1)" using up by (auto simp: e)
qed

lemma expo2_mono:
  assumes "0 < x" and "x \<le> y"
  shows "expo2 x \<le> expo2 y"
proof (rule ccontr)
  assume "\<not> ?thesis"
  then have "pow2 (expo2 y + 1) \<le> pow2 (expo2 x)"
    by (intro pow2_le) simp
  then show False
    using expo2_bounds(1) [of x] expo2_bounds(2) [of y] assms by simp
qed

lemma rnd_pos_nonneg: "0 \<le> x \<Longrightarrow> 0 \<le> rnd_pos x"
proof -
  assume "0 \<le> x"
  then have "0 \<le> round_half_even (x / pow2 (ulp_expo x))"
    using round_half_even_mono [of 0 "x / pow2 (ulp_expo x)"] round_half_even_of_int [of 0]
    by (simp add: divide_nonneg_pos)
  then show ?thesis
    unfolding rnd_pos_def by (auto intro: mult_nonneg_nonneg less_imp_le [OF pow2_pos])
qed

text \<open>A bound that is a multiple of the spacing is kept by rounding.\<close>

lemma rnd_pos_le_grid:
  assumes "0 < x" and "x \<le> of_int n * pow2 (ulp_expo x)"
  shows "rnd_pos x \<le> of_int n * pow2 (ulp_expo x)"
proof -
  have "x / pow2 (ulp_expo x) \<le> of_int n"
    using assms by (simp add: divide_le_eq)
  then have "round_half_even (x / pow2 (ulp_expo x)) \<le> n"
    using round_half_even_mono round_half_even_of_int by metis
  then show ?thesis using assms by (simp add: rnd_pos_def less_imp_le)
qed

lemma rnd_pos_ge_grid:
  assumes "0 < x" and "of_int n * pow2 (ulp_expo x) \<le> x"
  shows "of_int n * pow2 (ulp_expo x) \<le> rnd_pos x"
proof -
  have "of_int n \<le> x / pow2 (ulp_expo x)"
    using assms by (simp add: le_divide_eq)
  then have "n \<le> round_half_even (x / pow2 (ulp_expo x))"
    using round_half_even_mono round_half_even_of_int by metis
  then show ?thesis using assms by (simp add: rnd_pos_def less_imp_le)
qed

lemma rnd_pos_mono:
  assumes "0 \<le> x" and "x \<le> y"
  shows "rnd_pos x \<le> rnd_pos y"
proof (cases "x = 0")
  case True
  then show ?thesis using rnd_pos_nonneg [of y] assms by (simp add: rnd_pos_def)
next
  case False
  then have x: "0 < x" and y: "0 < y" using assms by auto
  have le: "ulp_expo x \<le> ulp_expo y"
    using expo2_mono [OF x assms(2)] by (simp add: ulp_expo_def)
  show ?thesis
  proof (cases "ulp_expo x = ulp_expo y")
    case True
    have "x / pow2 (ulp_expo x) \<le> y / pow2 (ulp_expo x)"
      using assms by (simp add: divide_right_mono less_imp_le)
    then show ?thesis
      using True x y round_half_even_mono by (simp add: rnd_pos_def)
  next
    case False
    define b where "b = ulp_expo y + 52"
    have uy: "ulp_expo y = expo2 y - 52" and ux: "ulp_expo x < expo2 y - 52"
      using le False by (auto simp: ulp_expo_def split: if_splits)
    have exy: "expo2 x + 1 \<le> expo2 y" using ux by (simp add: ulp_expo_def)
    obtain m where m: "pow2 (expo2 y) = of_int m * pow2 (ulp_expo x)"
      using pow2_dvd [of "ulp_expo x" "expo2 y"] ux by auto
    obtain n where n: "pow2 (expo2 y) = of_int n * pow2 (ulp_expo y)"
      using pow2_dvd [of "ulp_expo y" "expo2 y"] uy by auto
    have "x \<le> pow2 (expo2 y)"
      using expo2_bounds(2) [OF x] pow2_le [OF exy] by simp
    then have "rnd_pos x \<le> pow2 (expo2 y)"
      using rnd_pos_le_grid [OF x, of m] m by simp
    also have "\<dots> \<le> rnd_pos y"
      using rnd_pos_ge_grid [OF y, of n] n expo2_bounds(1) [OF y] by simp
    finally show ?thesis .
  qed
qed

text \<open>A value with at most 53 bits is its own rounding.\<close>

lemma rnd_pos_exact:
  assumes "0 < n" and "n \<le> 2 ^ 53" and "- 1074 \<le> e"
  shows "rnd_pos (of_int n * pow2 e) = of_int n * pow2 e"
proof -
  define x where "x = of_int n * pow2 e"
  have x: "0 < x" using assms by (simp add: x_def)
  have "x \<le> pow2 (e + int 53)"
    using assms(2) unfolding x_def pow2_add_nat
    by (metis mult.commute mult_le_cancel_right_pos of_int_le_iff of_int_numeral
        of_int_power pow2_pos)
  moreover have "pow2 (expo2 x) \<le> x" by (rule expo2_bounds(1) [OF x])
  moreover have "expo2 x \<le> e + 53" if "pow2 (expo2 x) \<le> pow2 (e + 53)"
  proof (rule ccontr)
    assume "\<not> ?thesis"
    then have "pow2 (e + 53 + 1) \<le> pow2 (expo2 x)" by (intro pow2_le) simp
    with that show False using pow2_pos [of "e + 53"] unfolding pow2_Suc by simp
  qed
  ultimately have ex: "expo2 x \<le> e + 53" by simp
  show ?thesis
  proof (cases "ulp_expo x \<le> e")
    case True
    then obtain m where "pow2 e = of_int m * pow2 (ulp_expo x)" using pow2_dvd by blast
    then have "x = of_int (n * m) * pow2 (ulp_expo x)" by (simp add: x_def)
    then have "rnd_pos x = x"
      using rnd_pos_le_grid [OF x, of "n * m"] rnd_pos_ge_grid [OF x, of "n * m"] by simp
    then show ?thesis by (simp add: x_def)
  next
    case False
    then have "expo2 x = e + 53" and u: "ulp_expo x = e + 1"
      using ex assms(3) by (auto simp: ulp_expo_def split: if_splits)
    then have "x = pow2 (e + 53)"
      using \<open>x \<le> pow2 (e + int 53)\<close> \<open>pow2 (expo2 x) \<le> x\<close> by simp
    moreover have "pow2 (e + 53) = of_int (2 ^ 52) * pow2 (e + 1)"
      using pow2_add_nat [of "e + 1" 52] by (simp add: add.commute)
    ultimately have "x = of_int (2 ^ 52) * pow2 (ulp_expo x)" unfolding u by (rule trans)
    then have "rnd_pos x = x"
      using rnd_pos_le_grid [OF x, of "2 ^ 52"] rnd_pos_ge_grid [OF x, of "2 ^ 52"] by simp
    then show ?thesis by (simp add: x_def)
  qed
qed

text \<open>The relative error of rounding a value of at least one.\<close>

lemma rnd_pos_error:
  assumes "1 \<le> x"
  shows "\<bar>rnd_pos x - x\<bar> \<le> x / 2 ^ 53"
proof -
  have x: "0 < x" using assms by simp
  have "0 \<le> expo2 x"
  proof (rule ccontr)
    assume "\<not> ?thesis"
    then have "pow2 (expo2 x + 1) \<le> pow2 0" by (intro pow2_le) simp
    then show False using expo2_bounds(2) [OF x] assms by simp
  qed
  then have u: "ulp_expo x = expo2 x - 52" by (simp add: ulp_expo_def)
  let ?p = "pow2 (ulp_expo x)"
  have "?p * 2 ^ 52 = pow2 (expo2 x)"
    using pow2_add_nat [of "ulp_expo x" 52] by (simp add: u)
  then have ulp: "?p \<le> x / 2 ^ 52"
    using expo2_bounds(1) [OF x] by (simp add: le_divide_eq)
  have "rnd_pos x - x = (of_int (round_half_even (x / ?p)) - x / ?p) * ?p"
    using x pow2_pos [of "ulp_expo x"] by (simp add: rnd_pos_def left_diff_distrib less_imp_neq [symmetric])
  then have "\<bar>rnd_pos x - x\<bar> = \<bar>of_int (round_half_even (x / ?p)) - x / ?p\<bar> * ?p"
    by (simp add: abs_mult abs_of_pos [OF pow2_pos])
  also have "\<dots> \<le> 1 / 2 * ?p"
    using round_half_even_bounds [of "x / ?p"] by (intro mult_right_mono) (auto intro: less_imp_le)
  also have "\<dots> \<le> x / 2 ^ 53"
    using ulp by simp
  finally show ?thesis .
qed

subsection \<open>Float operations\<close>

fun fl_neg :: "fl \<Rightarrow> fl" where
  "fl_neg (Fin x) = Fin (- x)"
| "fl_neg PInf = NInf"
| "fl_neg NInf = PInf"
| "fl_neg NaN = NaN"

fun fl_add :: "fl \<Rightarrow> fl \<Rightarrow> fl" where
  "fl_add (Fin x) (Fin y) = fl_of_rat (x + y)"
| "fl_add NaN _ = NaN"
| "fl_add _ NaN = NaN"
| "fl_add PInf NInf = NaN"
| "fl_add NInf PInf = NaN"
| "fl_add PInf _ = PInf"
| "fl_add _ PInf = PInf"
| "fl_add NInf _ = NInf"
| "fl_add _ NInf = NInf"

definition fl_sub :: "fl \<Rightarrow> fl \<Rightarrow> fl" where
  "fl_sub x y = fl_add x (fl_neg y)"

definition fl_sign :: "fl \<Rightarrow> rat" where
  "fl_sign x = (case x of Fin r \<Rightarrow> sgn r | PInf \<Rightarrow> 1 | NInf \<Rightarrow> - 1 | NaN \<Rightarrow> 0)"

definition fl_mul :: "fl \<Rightarrow> fl \<Rightarrow> fl" where
  "fl_mul x y =
     (case (x, y) of
        (Fin a, Fin b) \<Rightarrow> fl_of_rat (a * b)
      | _ \<Rightarrow> if x = NaN \<or> y = NaN \<or> fl_sign x * fl_sign y = 0 then NaN
             else if 0 < fl_sign x * fl_sign y then PInf else NInf)"

fun fl_abs :: "fl \<Rightarrow> fl" where
  "fl_abs (Fin x) = Fin \<bar>x\<bar>"
| "fl_abs PInf = PInf"
| "fl_abs NInf = PInf"
| "fl_abs NaN = NaN"

fun fl_le :: "fl \<Rightarrow> fl \<Rightarrow> bool" where
  "fl_le (Fin x) (Fin y) \<longleftrightarrow> x \<le> y"
| "fl_le NaN _ \<longleftrightarrow> False"
| "fl_le _ NaN \<longleftrightarrow> False"
| "fl_le NInf _ \<longleftrightarrow> True"
| "fl_le _ PInf \<longleftrightarrow> True"
| "fl_le _ _ \<longleftrightarrow> False"

definition fl_eq :: "fl \<Rightarrow> fl \<Rightarrow> bool" where
  "fl_eq x y \<longleftrightarrow> x \<noteq> NaN \<and> x = y"

definition fl_lt :: "fl \<Rightarrow> fl \<Rightarrow> bool" where
  "fl_lt x y \<longleftrightarrow> fl_le x y \<and> \<not> fl_eq x y"

text \<open>An int compared with a float is compared exactly, whatever its size.\<close>

definition fl_of_int :: "int \<Rightarrow> fl" where
  "fl_of_int n = Fin (of_int n)"

definition fl_finite :: "fl \<Rightarrow> bool" where
  "fl_finite x \<longleftrightarrow> (\<exists>r. x = Fin r)"

lemma fl_finite_code [code, simp]:
  "fl_finite (Fin r) \<longleftrightarrow> True"
  "fl_finite PInf \<longleftrightarrow> False"
  "fl_finite NInf \<longleftrightarrow> False"
  "fl_finite NaN \<longleftrightarrow> False"
  by (simp_all add: fl_finite_def)

definition fl_is_integer :: "fl \<Rightarrow> bool" where
  "fl_is_integer x = (case x of Fin r \<Rightarrow> r = of_int \<lfloor>r\<rfloor> | _ \<Rightarrow> False)"

text \<open>\<open>float(n)\<close> and \<open>n / m\<close> for ints raise when the value is out of range.\<close>

definition float_of_int :: "int \<Rightarrow> fl res" where
  "float_of_int n =
     (case fl_of_rat (of_int n) of Fin r \<Rightarrow> Inr (Fin r) | _ \<Rightarrow> Inl OverflowError)"

definition int_truediv :: "int \<Rightarrow> int \<Rightarrow> fl res" where
  "int_truediv n m =
     (if m = 0 then Inl ZeroDivisionError
      else (case fl_of_rat (of_int n / of_int m) of Fin r \<Rightarrow> Inr (Fin r)
              | _ \<Rightarrow> Inl OverflowError))"

text \<open>\<open>int(x)\<close> truncates; \<open>math.ceil\<close> rounds up.\<close>

definition int_of_fl :: "fl \<Rightarrow> int res" where
  "int_of_fl x =
     (case x of
        Fin r \<Rightarrow> Inr (if 0 \<le> r then \<lfloor>r\<rfloor> else - \<lfloor>- r\<rfloor>)
      | NaN \<Rightarrow> Inl (ValueError ''cannot convert float NaN to integer'')
      | _ \<Rightarrow> Inl OverflowError)"

definition ceil_of_fl :: "fl \<Rightarrow> int res" where
  "ceil_of_fl x =
     (case x of
        Fin r \<Rightarrow> Inr \<lceil>r\<rceil>
      | NaN \<Rightarrow> Inl (ValueError ''cannot convert float NaN to integer'')
      | _ \<Rightarrow> Inl OverflowError)"

subsection \<open>Reading a float from a string\<close>

text \<open>Underscores are allowed only between digits.\<close>

fun float_underscores :: "bool \<Rightarrow> string \<Rightarrow> string option" where
  "float_underscores prev [] = Some []"
| "float_underscores prev (c # s) =
     (if c = CHR ''_''
      then (if prev \<and> s \<noteq> [] \<and> is_digit (hd s) then float_underscores False s else None)
      else map_option (Cons c) (float_underscores (is_digit c) s))"

definition read_expo :: "string \<Rightarrow> int option" where
  "read_expo s =
     (case s of
        [] \<Rightarrow> Some 0
      | c # r \<Rightarrow>
          if c = CHR ''e'' \<or> c = CHR ''E''
          then (let (neg, ds) = split_sign r in
                if ds \<noteq> [] \<and> list_all is_digit ds
                then Some (if neg then - digits_nat ds else digits_nat ds)
                else None)
          else None)"

definition pow10 :: "int \<Rightarrow> rat" where
  "pow10 e = (if 0 \<le> e then 10 ^ nat e else 1 / 10 ^ nat (- e))"

definition read_decimal :: "string \<Rightarrow> rat option" where
  "read_decimal s =
     (let a = takeWhile is_digit s; r = dropWhile is_digit s;
          b = (if r \<noteq> [] \<and> hd r = CHR ''.'' then takeWhile is_digit (tl r) else []);
          t = (if r \<noteq> [] \<and> hd r = CHR ''.'' then dropWhile is_digit (tl r) else r)
      in if a @ b = [] then None
         else map_option (\<lambda>e. of_int (digits_nat (a @ b)) * pow10 (e - int (length b)))
                (read_expo t))"

definition float_of_string :: "string \<Rightarrow> fl res" where
  "float_of_string s =
     (let (neg, body) = split_sign (py_strip s); low = py_casefold body;
          bad = Inl (ValueError ''could not convert string to float'')
      in if low = ''inf'' \<or> low = ''infinity'' then Inr (if neg then NInf else PInf)
         else if low = ''nan'' then Inr NaN
         else (case float_underscores False body of
                 None \<Rightarrow> bad
               | Some t \<Rightarrow>
                   (case read_decimal t of
                      None \<Rightarrow> bad
                    | Some x \<Rightarrow> Inr (fl_of_rat (if neg then - x else x)))))"

lemma fl_of_rat_not_NaN: "fl_of_rat x \<noteq> NaN"
  by (simp add: fl_of_rat_def)

lemma fl_le_refl: "x \<noteq> NaN \<Longrightarrow> fl_le x x"
  by (cases x) auto

lemma fl_le_Fin: "fl_le (Fin a) (Fin b) \<longleftrightarrow> a \<le> b"
  by simp

lemma fl_lt_Fin: "fl_lt (Fin a) (Fin b) \<longleftrightarrow> a < b"
  by (auto simp: fl_lt_def fl_eq_def)

lemma fl_of_rat_int:
  assumes "\<bar>n\<bar> \<le> 2 ^ 53"
  shows "fl_of_rat (of_int n) = Fin (of_int n)"
proof -
  have ex: "rnd_pos (of_int m) = of_int m" if "0 \<le> m" "m \<le> 2 ^ 53" for m
    using that rnd_pos_exact [of m 0] by (cases "m = 0") (simp_all add: rnd_pos_def)
  have lt: "(of_int m :: rat) < 2 ^ 1024" if "m \<le> 2 ^ 53" for m
  proof -
    have "(of_int m :: rat) \<le> of_int (2 ^ 53)" using that by (simp only: of_int_le_iff)
    then show ?thesis by simp
  qed
  show ?thesis
  proof (cases "0 \<le> n")
    case True
    then show ?thesis using assms ex [of n] lt [of n] by (simp add: fl_of_rat_def)
  next
    case False
    then show ?thesis using assms ex [of "- n"] lt [of "- n"] by (simp add: fl_of_rat_def)
  qed
qed

lemma float_of_int_exact: "\<bar>n\<bar> \<le> 2 ^ 53 \<Longrightarrow> float_of_int n = Inr (Fin (of_int n))"
  by (simp add: float_of_int_def fl_of_rat_int)

end
