(* ===== verification/Py_Datetime.thy ===== *)
theory Py_Datetime
  imports Py_Number
begin

text \<open>
  Python's \<open>datetime\<close>: the proleptic Gregorian calendar of the standard library, \<open>isoformat\<close>
  and \<open>fromisoformat\<close>, aware and naive values, and the arithmetic the program uses.

  A datetime is a count of microseconds since the start of year 1 on its own clock, with
  the UTC offset in microseconds when it is aware. A value already normalised to UTC is the
  bare count (\<open>utc\<close>). The main result is the round trip: reading back the text written by
  \<open>isoformat\<close> gives the same instant. The verification lifecycle is persisted as such
  text between two evaluations, so this is what makes its clock survive a restart.
\<close>

type_synonym utc = int

datatype dtime = Dtime (dt_local: int) (dt_offset: "int option")

abbreviation us_per_day :: int where "us_per_day \<equiv> 86400000000"

definition max_utc :: int where
  "max_utc = 3652059 * us_per_day"

subsection \<open>The calendar\<close>

definition is_leap :: "int \<Rightarrow> bool" where
  "is_leap y \<longleftrightarrow> y mod 4 = 0 \<and> (y mod 100 \<noteq> 0 \<or> y mod 400 = 0)"

definition days_before_year :: "int \<Rightarrow> int" where
  "days_before_year year = (let y = year - 1 in y * 365 + y div 4 - y div 100 + y div 400)"

definition days_in_month_tab :: "int list" where
  "days_in_month_tab = [31, 28, 31, 30, 31, 30, 31, 31, 30, 31, 30, 31]"

definition days_before_month_tab :: "int list" where
  "days_before_month_tab = [0, 31, 59, 90, 120, 151, 181, 212, 243, 273, 304, 334]"

definition days_in_month :: "bool \<Rightarrow> int \<Rightarrow> int" where
  "days_in_month leap m = days_in_month_tab ! nat (m - 1) + (if m = 2 \<and> leap then 1 else 0)"

definition days_before_month :: "bool \<Rightarrow> int \<Rightarrow> int" where
  "days_before_month leap m =
     days_before_month_tab ! nat (m - 1) + (if 2 < m \<and> leap then 1 else 0)"

definition ymd_ord :: "int \<Rightarrow> int \<Rightarrow> int \<Rightarrow> int" where
  "ymd_ord y m d = days_before_year y + days_before_month (is_leap y) m + d"

text \<open>Month and day of a day offset within a year.\<close>

definition month_day :: "bool \<Rightarrow> int \<Rightarrow> int \<times> int" where
  "month_day leap n =
     (let month = (n + 50) div 32; preceding = days_before_month leap month in
      if n < preceding
      then (month - 1, n - (preceding - days_in_month leap (month - 1)) + 1)
      else (month, n - preceding + 1))"

definition ord_ymd :: "int \<Rightarrow> int \<times> int \<times> int" where
  "ord_ymd ordinal =
     (let n = ordinal - 1;
          n400 = n div 146097; r400 = n mod 146097;
          n100 = r400 div 36524; r100 = r400 mod 36524;
          n4 = r100 div 1461; r4 = r100 mod 1461;
          n1 = r4 div 365; r1 = r4 mod 365;
          year = n400 * 400 + 1 + n100 * 100 + n4 * 4 + n1
      in if n1 = 4 \<or> n100 = 4 then (year - 1, 12, 31)
         else (let leap = (n1 = 3 \<and> (n4 \<noteq> 24 \<or> n100 = 3)); md = month_day leap r1
               in (year, fst md, snd md)))"

definition valid_date :: "int \<Rightarrow> int \<Rightarrow> int \<Rightarrow> bool" where
  "valid_date y m d \<longleftrightarrow>
     1 \<le> y \<and> y \<le> 9999 \<and> 1 \<le> m \<and> m \<le> 12 \<and> 1 \<le> d \<and> d \<le> days_in_month (is_leap y) m"

lemma div_mod_eqs:
  assumes "(0::int) \<le> r" and "r < q" and "x = q * k + r"
  shows "x div q = k" and "x mod q = r"
  using assms by simp_all

lemma days_before_year_split:
  assumes "0 \<le> b" "b \<le> 3" "0 \<le> c" "c \<le> 24" "0 \<le> d" "d \<le> 3"
  shows "days_before_year (400 * a + 100 * b + 4 * c + d + 1) =
         146097 * a + 36524 * b + 1461 * c + 365 * d"
proof -
  let ?y = "400 * a + 100 * b + 4 * c + d"
  have "?y div 4 = 100 * a + 25 * b + c"
    by (rule div_mod_eqs(1) [where r = d]) (use assms in auto)
  moreover have "?y div 100 = 4 * a + b"
    by (rule div_mod_eqs(1) [where r = "4 * c + d"]) (use assms in auto)
  moreover have "?y div 400 = a"
    by (rule div_mod_eqs(1) [where r = "100 * b + 4 * c + d"]) (use assms in auto)
  ultimately show ?thesis by (simp add: days_before_year_def)
qed

lemma is_leap_split:
  assumes "0 \<le> b" "b \<le> 3" "0 \<le> c" "c \<le> 24" "0 \<le> d" "d \<le> 3"
  shows "is_leap (400 * a + 100 * b + 4 * c + d + 1) \<longleftrightarrow> d = 3 \<and> (c \<noteq> 24 \<or> b = 3)"
proof (cases "d = 3")
  case False
  then have "(400 * a + 100 * b + 4 * c + d + 1) mod 4 = d + 1"
    by (intro div_mod_eqs(2) [where k = "100 * a + 25 * b + c"]) (use assms in auto)
  then show ?thesis using assms False by (simp add: is_leap_def)
next
  case d: True
  have m4: "(400 * a + 100 * b + 4 * c + d + 1) mod 4 = 0"
    by (rule div_mod_eqs(2) [where k = "100 * a + 25 * b + c + 1"]) (use d in auto)
  show ?thesis
  proof (cases "c = 24")
    case False
    then have "(400 * a + 100 * b + 4 * c + d + 1) mod 100 = 4 * c + 4"
      by (intro div_mod_eqs(2) [where k = "4 * a + b"]) (use assms d in auto)
    then show ?thesis using assms d m4 False by (simp add: is_leap_def)
  next
    case c: True
    have m100: "(400 * a + 100 * b + 4 * c + d + 1) mod 100 = 0"
      by (rule div_mod_eqs(2) [where k = "4 * a + b + 1"]) (use c d in auto)
    have "(400 * a + 100 * b + 4 * c + d + 1) mod 400 = (if b = 3 then 0 else 100 * b + 100)"
      by (rule div_mod_eqs(2) [where k = "if b = 3 then a + 1 else a"])
        (use assms c d in auto)
    then show ?thesis using assms c d m4 m100 by (auto simp: is_leap_def)
  qed
qed

definition month_day_ok :: "bool \<Rightarrow> int \<Rightarrow> bool" where
  "month_day_ok leap n \<longleftrightarrow>
     (let (m, d) = month_day leap n in
      1 \<le> m \<and> m \<le> 12 \<and> 1 \<le> d \<and> d \<le> days_in_month leap m
      \<and> days_before_month leap m + d = n + 1)"

lemmas month_tabs = days_before_month_def days_in_month_def days_before_month_tab_def
  days_in_month_tab_def

lemma month_day_correct:
  assumes "0 \<le> n" and "n \<le> (if leap then 365 else 364)"
  shows "month_day_ok leap n"
proof -
  define k where "k = (n + 50) div 32"
  have k: "32 * k \<le> n + 50" "n + 50 < 32 * k + 32"
    unfolding k_def by simp_all
  then have "k \<in> {1..12}" using assms by (auto split: if_splits)
  then have "k = 1 \<or> k = 2 \<or> k = 3 \<or> k = 4 \<or> k = 5 \<or> k = 6 \<or> k = 7 \<or> k = 8 \<or> k = 9
    \<or> k = 10 \<or> k = 11 \<or> k = 12"
    by simp presburger
  then show ?thesis
    using k assms unfolding month_day_ok_def month_day_def k_def [symmetric] Let_def
    by (elim disjE) (simp_all add: month_tabs split: if_splits)
qed

lemma month_day_12_31: "days_before_month leap 12 + 31 = (if leap then 366 else 365)"
  by (simp add: days_before_month_def days_before_month_tab_def)

text \<open>The calendar inverts: the date of an ordinal has that ordinal.\<close>

lemma ord_ymd_correct:
  assumes "1 \<le> n" and "n \<le> 3652059" and "ord_ymd n = (y, m, d)"
  shows "valid_date y m d" and "ymd_ord y m d = n"
proof -
  define a where "a = (n - 1) div 146097"
  define r400 where "r400 = (n - 1) mod 146097"
  define b where "b = r400 div 36524"
  define r100 where "r100 = r400 mod 36524"
  define c where "c = r100 div 1461"
  define r4 where "r4 = r100 mod 1461"
  define e where "e = r4 div 365"
  define r1 where "r1 = r4 mod 365"
  have n: "n - 1 = 146097 * a + r400" and r400: "0 \<le> r400" "r400 < 146097"
    by (simp_all add: a_def r400_def)
  have r400_eq: "r400 = 36524 * b + r100" and r100: "0 \<le> r100" "r100 < 36524"
    by (simp_all add: b_def r100_def)
  have r100_eq: "r100 = 1461 * c + r4" and r4: "0 \<le> r4" "r4 < 1461"
    by (simp_all add: c_def r4_def)
  have r4_eq: "r4 = 365 * e + r1" and r1: "0 \<le> r1" "r1 < 365"
    by (simp_all add: e_def r1_def)
  have a: "0 \<le> a" "a \<le> 24" using n r400 assms(1,2) by linarith+
  have b: "0 \<le> b" "b \<le> 4" using r400_eq r100 r400 by linarith+
  have c: "0 \<le> c" "c \<le> 24" using r100_eq r100 r4 by linarith+
  have e: "0 \<le> e" "e \<le> 4" using r4_eq r4 r1 by linarith+
  define Y where "Y = 400 * a + 100 * b + 4 * c + e + 1"
  have ymd: "ord_ymd n =
      (if e = 4 \<or> b = 4 then (Y - 1, 12, 31)
       else (Y, fst (month_day (e = 3 \<and> (c \<noteq> 24 \<or> b = 3)) r1),
                snd (month_day (e = 3 \<and> (c \<noteq> 24 \<or> b = 3)) r1)))"
    unfolding ord_ymd_def Let_def a_def [symmetric] r400_def [symmetric] b_def [symmetric]
      r100_def [symmetric] c_def [symmetric] r4_def [symmetric] e_def [symmetric]
      r1_def [symmetric] Y_def by (simp add: ac_simps)
  have "valid_date y m d \<and> ymd_ord y m d = n"
  proof (cases "e = 4 \<or> b = 4")
    case False
    define leap where "leap = (e = 3 \<and> (c \<noteq> 24 \<or> b = 3))"
    have be: "b \<le> 3" "e \<le> 3" using False b e by auto
    have leap: "is_leap Y = leap"
      unfolding leap_def Y_def by (rule is_leap_split) (use b c e be in auto)
    have dby: "days_before_year Y = 146097 * a + 36524 * b + 1461 * c + 365 * e"
      unfolding Y_def by (rule days_before_year_split) (use b c e be in auto)
    have "month_day_ok leap r1"
      by (rule month_day_correct) (use r1 in auto)
    moreover have "(y, m, d) = (Y, month_day leap r1)"
      using ymd assms(3) False by (simp add: leap_def)
    ultimately have "y = Y" and "1 \<le> m" "m \<le> 12" "1 \<le> d" "d \<le> days_in_month leap m"
      and "days_before_month leap m + d = r1 + 1"
      by (auto simp: month_day_ok_def)
    moreover have "1 \<le> Y" "Y \<le> 9999"
      using a b c e be n assms(2) r400_eq r100_eq r4_eq r1 unfolding Y_def by linarith+
    ultimately show ?thesis
      using n r400_eq r100_eq r4_eq leap dby
      by (simp add: valid_date_def ymd_ord_def)
  next
    case True
    then have y: "y = Y - 1" "m = 12" "d = 31" using ymd assms(3) by auto
    show ?thesis
    proof (cases "b = 4")
      case b4: True
      then have z: "r100 = 0" "c = 0" "r4 = 0" "e = 0" "r1 = 0"
        using r400_eq r400 r100 r100_eq r4 c r4_eq e r1 by linarith+
      then have Y: "y = 400 * a + 100 * 3 + 4 * 24 + 3 + 1" using b4 y by (simp add: Y_def)
      have "is_leap y \<longleftrightarrow> (3::int) = 3 \<and> ((24::int) \<noteq> 24 \<or> (3::int) = 3)"
        unfolding Y by (rule is_leap_split) auto
      moreover have "days_before_year y = 146097 * a + 36524 * 3 + 1461 * 24 + 365 * 3"
        unfolding Y by (rule days_before_year_split) auto
      moreover have "y \<le> 9999" "1 \<le> y" using Y a n z b4 r400_eq assms(2) by linarith+
      ultimately show ?thesis
        using y n z b4 r400_eq
        by (simp add: valid_date_def ymd_ord_def month_day_12_31 month_tabs)
    next
      case b4: False
      then have e4: "e = 4" and b3: "b \<le> 3" using True b by auto
      then have z: "r1 = 0" "r4 = 1460" using r4_eq r4 r1 by linarith+
      then have c23: "c \<le> 23" using r100_eq r100 c by linarith
      have Y: "y = 400 * a + 100 * b + 4 * c + 3 + 1" using e4 y by (simp add: Y_def)
      have "is_leap y \<longleftrightarrow> (3::int) = 3 \<and> (c \<noteq> 24 \<or> b = 3)"
        unfolding Y by (rule is_leap_split) (use b b3 c in auto)
      moreover have "days_before_year y = 146097 * a + 36524 * b + 1461 * c + 365 * 3"
        unfolding Y by (rule days_before_year_split) (use b b3 c in auto)
      moreover have "y \<le> 9999" "1 \<le> y"
        using Y a b b3 c c23 n z r400_eq r100_eq assms(2) by linarith+
      ultimately show ?thesis
        using y n z c23 r400_eq r100_eq
        by (simp add: valid_date_def ymd_ord_def month_day_12_31 month_tabs)
    qed
  qed
  then show "valid_date y m d" and "ymd_ord y m d = n" by blast+
qed

subsection \<open>Writing: isoformat\<close>

definition time_str :: "int \<Rightarrow> string" where
  "time_str t =
     (let us = t mod 1000000; sec = t div 1000000 in
      pad_digits 2 (sec div 3600) @ '':'' @ pad_digits 2 (sec div 60 mod 60) @ '':''
      @ pad_digits 2 (sec mod 60) @ (if us = 0 then [] else ''.'' @ pad_digits 6 us))"

definition date_str :: "int \<Rightarrow> int \<Rightarrow> int \<Rightarrow> string" where
  "date_str y m d = pad_digits 4 y @ ''-'' @ pad_digits 2 m @ ''-'' @ pad_digits 2 d"

text \<open>\<open>isoformat()\<close> of a value in UTC.\<close>

definition utc_isoformat :: "utc \<Rightarrow> string" where
  "utc_isoformat u =
     (let (y, m, d) = ord_ymd (u div us_per_day + 1)
      in date_str y m d @ ''T'' @ time_str (u mod us_per_day) @ ''+00:00'')"

subsection \<open>Reading: fromisoformat\<close>

definition slice :: "nat \<Rightarrow> nat \<Rightarrow> string \<Rightarrow> string" where
  "slice i j s = take (j - i) (drop i s)"

definition read_digits :: "nat \<Rightarrow> string \<Rightarrow> int option" where
  "read_digits w s = (if length s = w \<and> list_all is_digit s then Some (digits_nat s) else None)"

text \<open>Where the date part ends; \<open>None\<close> where the library raises \<open>ValueError\<close>.\<close>

definition find_iso_separator :: "string \<Rightarrow> nat option" where
  "find_iso_separator s =
     (if length s = 7 then Some 7
      else if s ! 4 = CHR ''-''
      then (if s ! 5 = CHR ''W''
            then (if 8 < length s \<and> s ! 8 = CHR ''-''
                  then (if length s = 9 then None
                        else if 10 < length s \<and> is_digit (s ! 10) then Some 8 else Some 10)
                  else Some 8)
            else Some 10)
      else if s ! 4 = CHR ''W''
      then (let idx = 7 + length (takeWhile is_digit (drop 7 s))
            in if idx < 9 then Some idx else if even idx then Some 7 else Some 8)
      else Some 8)"

definition isoweek1monday :: "int \<Rightarrow> int" where
  "isoweek1monday year =
     (let firstday = ymd_ord year 1 1; firstweekday = (firstday + 6) mod 7;
          monday = firstday - firstweekday
      in if 3 < firstweekday then monday + 7 else monday)"

definition isoweek_ymd :: "int \<Rightarrow> int \<Rightarrow> int \<Rightarrow> (int \<times> int \<times> int) option" where
  "isoweek_ymd year week day =
     (let first = ymd_ord year 1 1 mod 7 in
      if \<not> (1 \<le> year \<and> year \<le> 9999) then None
      else if \<not> (0 < week \<and> week < 53
                 \<or> week = 53 \<and> (first = 4 \<or> first = 3 \<and> is_leap year)) then None
      else if \<not> (0 < day \<and> day < 8) then None
      else Some (ord_ymd (isoweek1monday year + ((week - 1) * 7 + (day - 1)))))"

definition parse_iso_date :: "string \<Rightarrow> (int \<times> int \<times> int) option" where
  "parse_iso_date s =
     (let sep = (length s > 4 \<and> s ! 4 = CHR ''-''); k = (if sep then 1 else 0); pos = 4 + k
      in case read_digits 4 (slice 0 4 s) of
           None \<Rightarrow> None
         | Some year \<Rightarrow>
             (if slice pos (pos + 1) s = ''W''
              then (case read_digits 2 (slice (pos + 1) (pos + 3) s) of
                      None \<Rightarrow> None
                    | Some week \<Rightarrow>
                        (if pos + 3 < length s
                         then (if (slice (pos + 3) (pos + 4) s = ''-'') \<noteq> sep then None
                               else (case read_digits 1 (slice (pos + 3 + k) (pos + 4 + k) s) of
                                       None \<Rightarrow> None
                                     | Some day \<Rightarrow> isoweek_ymd year week day))
                         else isoweek_ymd year week 1))
              else (case read_digits 2 (slice pos (pos + 2) s) of
                      None \<Rightarrow> None
                    | Some month \<Rightarrow>
                        (if (slice (pos + 2) (pos + 3) s = ''-'') \<noteq> sep then None
                         else (case read_digits 2 (slice (pos + 2 + k) (pos + 4 + k) s) of
                                 None \<Rightarrow> None
                               | Some day \<Rightarrow> Some (year, month, day))))))"

definition parse_fraction :: "string \<Rightarrow> int option" where
  "parse_fraction s =
     (case s of
        [] \<Rightarrow> Some 0
      | c # r \<Rightarrow>
          if (c = CHR ''.'' \<or> c = CHR '','') \<and> r \<noteq> [] \<and> list_all is_digit r
          then Some (digits_nat (take 6 r) * 10 ^ (6 - length (take 6 r)))
          else None)"

definition parse_hms :: "string \<Rightarrow> (int \<times> int \<times> int \<times> int) option" where
  "parse_hms s =
     (case read_digits 2 (take 2 s) of
        None \<Rightarrow> None
      | Some h \<Rightarrow>
          (let r = drop 2 s; sep = (r \<noteq> [] \<and> hd r = CHR '':''); k = (if sep then 1 else 0) in
           if r = [] then Some (h, 0, 0, 0)
           else (let r1 = drop k r in
             case read_digits 2 (take 2 r1) of
               None \<Rightarrow> None
             | Some m \<Rightarrow>
                 (let r2 = drop 2 r1 in
                  if r2 = [] then Some (h, m, 0, 0)
                  else if sep \<and> hd r2 \<noteq> CHR '':'' then None
                  else (let r3 = drop k r2 in
                    case read_digits 2 (take 2 r3) of
                      None \<Rightarrow> None
                    | Some sec \<Rightarrow>
                        map_option (\<lambda>us. (h, m, sec, us)) (parse_fraction (drop 2 r3)))))))"

definition is_tz_char :: "char \<Rightarrow> bool" where
  "is_tz_char c \<longleftrightarrow> c = CHR ''-'' \<or> c = CHR ''+'' \<or> c = CHR ''Z''"

definition parse_tz :: "string \<Rightarrow> int option option" where
  "parse_tz s =
     (case s of
        [] \<Rightarrow> Some None
      | c # r \<Rightarrow>
          if c = CHR ''Z'' then (if r = [] then Some (Some 0) else None)
          else (case parse_hms r of
                  None \<Rightarrow> None
                | Some (h, m, sec, us) \<Rightarrow>
                    (let off = ((h * 60 + m) * 60 + sec) * 1000000 + us in
                     if us_per_day \<le> off then None
                     else Some (Some (if c = CHR ''-'' then - off else off)))))"

definition fromisoformat :: "string \<Rightarrow> dtime option" where
  "fromisoformat s =
     (if length s < 7 then None
      else case find_iso_separator s of
        None \<Rightarrow> None
      | Some p \<Rightarrow>
          (case parse_iso_date (take p s) of
             None \<Rightarrow> None
           | Some (y, m, d) \<Rightarrow>
               (let t = drop (p + 1) s; clock = takeWhile (\<lambda>c. \<not> is_tz_char c) t;
                    zone = dropWhile (\<lambda>c. \<not> is_tz_char c) t;
                    hms = (if t = [] then Some (0, 0, 0, 0) else parse_hms clock);
                    tz = parse_tz zone
                in case (hms, tz) of
                     (Some (hh, mm, ss, us), Some off) \<Rightarrow>
                       if valid_date y m d \<and> hh \<le> 23 \<and> mm \<le> 59 \<and> ss \<le> 59
                       then Some (Dtime ((ymd_ord y m d - 1) * us_per_day
                                          + ((hh * 60 + mm) * 60 + ss) * 1000000 + us) off)
                       else None
                   | _ \<Rightarrow> None)))"

text \<open>\<open>replace(tzinfo=UTC)\<close> for a naive value, \<open>astimezone(UTC)\<close> for an aware one.\<close>

definition dtime_utc :: "dtime \<Rightarrow> utc res" where
  "dtime_utc d =
     (case dt_offset d of
        None \<Rightarrow> Inr (dt_local d)
      | Some off \<Rightarrow>
          if 0 \<le> dt_local d - off \<and> dt_local d - off < max_utc then Inr (dt_local d - off)
          else Inl OverflowError)"

text \<open>
  \<open>datetime.fromtimestamp(x, tz=UTC)\<close>: the fraction is scaled to microseconds in floating
  point and rounded half to even. \<open>None\<close> stands for the \<open>OverflowError\<close>, \<open>OSError\<close> or
  \<open>ValueError\<close> of a time outside the years 1 to 9999 (or of a value that is not finite).
\<close>

definition epoch_us :: int where
  "epoch_us = 62135596800000000"

definition fromtimestamp_utc :: "fl \<Rightarrow> utc option" where
  "fromtimestamp_utc x =
    (case x of
       Fin r \<Rightarrow>
         (let whole = (if 0 \<le> r then \<lfloor>r\<rfloor> else \<lceil>r\<rceil>);
              us = (case fl_of_rat ((r - of_int whole) * 1000000) of
                      Fin q \<Rightarrow> round_half_even q | _ \<Rightarrow> 0);
              u = epoch_us + whole * 1000000 + us
          in if 0 \<le> u \<and> u < max_utc then Some u else None)
     | _ \<Rightarrow> None)"

text \<open>\<open>(a - b).total_seconds()\<close>.\<close>

definition total_seconds :: "int \<Rightarrow> fl" where
  "total_seconds us = fl_of_rat (of_int us / 1000000)"

subsection \<open>The round trip\<close>

lemma length2_cases: "length s = 2 \<Longrightarrow> (\<And>a b. s = [a, b] \<Longrightarrow> P) \<Longrightarrow> P"
  by (auto simp: numeral_eq_Suc length_Suc_conv)

lemma length4_cases: "length s = 4 \<Longrightarrow> (\<And>a b c d. s = [a, b, c, d] \<Longrightarrow> P) \<Longrightarrow> P"
  by (auto simp: numeral_eq_Suc length_Suc_conv)

lemma pad2_cases:
  assumes "0 \<le> n" and "n < 100"
  obtains a b where "pad_digits 2 n = [a, b]" and "is_digit a" and "is_digit b"
    and "digits_nat [a, b] = n"
proof -
  have "length (pad_digits 2 n) = 2" using assms by (intro pad_digits_length) auto
  then obtain a b where ab: "pad_digits 2 n = [a, b]" by (rule length2_cases)
  then show ?thesis
    using that [of a b] pad_digits_all [of n 2] digits_nat_pad [of n 2] assms by simp
qed

lemma pad4_cases:
  assumes "0 \<le> n" and "n < 10000"
  obtains a b c d where "pad_digits 4 n = [a, b, c, d]"
    and "is_digit a" and "is_digit b" and "is_digit c" and "is_digit d"
    and "digits_nat [a, b, c, d] = n"
proof -
  have "length (pad_digits 4 n) = 4" using assms by (intro pad_digits_length) auto
  then obtain a b c d where ab: "pad_digits 4 n = [a, b, c, d]" by (rule length4_cases)
  then show ?thesis
    using that [of a b c d] pad_digits_all [of n 4] digits_nat_pad [of n 4] assms by simp
qed

lemma digit_neq [simp]:
  "is_digit c \<Longrightarrow> c \<noteq> CHR ''W''" "is_digit c \<Longrightarrow> c \<noteq> CHR '':''"
  "is_digit c \<Longrightarrow> c \<noteq> CHR ''-''" "is_digit c \<Longrightarrow> \<not> is_tz_char c"
  by (auto simp: is_digit_def is_tz_char_def Let_def)

lemma valid_date_bounds:
  "valid_date y m d \<Longrightarrow> 0 \<le> y \<and> y < 10000 \<and> 0 \<le> m \<and> m < 100 \<and> 0 \<le> d \<and> d < 100"
proof -
  assume v: "valid_date y m d"
  have tab: "k < 12 \<Longrightarrow> days_in_month_tab ! k \<le> 31" for k
    by (auto simp: days_in_month_tab_def nth_Cons split: nat.splits)
  have "nat (m - 1) < 12" using v by (auto simp: valid_date_def)
  then have "days_in_month_tab ! nat (m - 1) \<le> 31" by (rule tab)
  then have "days_in_month (is_leap y) m \<le> 32"
    using tab [of "Suc 0"] by (simp add: days_in_month_def)
  then show ?thesis using v by (simp add: valid_date_def)
qed

text \<open>A written date is read back, whatever follows it.\<close>

lemma date_str_read:
  assumes "valid_date y m d"
  shows "length (date_str y m d) = 10"
    and "find_iso_separator (date_str y m d @ c # r) = Some 10"
    and "parse_iso_date (date_str y m d) = Some (y, m, d)"
proof -
  obtain a1 a2 a3 a4 where y: "pad_digits 4 y = [a1, a2, a3, a4]"
      and ya: "is_digit a1" "is_digit a2" "is_digit a3" "is_digit a4"
      and yd: "digits_nat [a1, a2, a3, a4] = y"
    using valid_date_bounds [OF assms] pad4_cases [of y] by metis
  obtain b1 b2 where m: "pad_digits 2 m = [b1, b2]" and mb: "is_digit b1" "is_digit b2"
      and md: "digits_nat [b1, b2] = m"
    using valid_date_bounds [OF assms] pad2_cases [of m] by metis
  obtain c1 c2 where d: "pad_digits 2 d = [c1, c2]" and dc: "is_digit c1" "is_digit c2"
      and dd: "digits_nat [c1, c2] = d"
    using valid_date_bounds [OF assms] pad2_cases [of d] by metis
  note ds = y m d ya mb dc
  show "length (date_str y m d) = 10" by (simp add: date_str_def ds)
  show "find_iso_separator (date_str y m d @ c # r) = Some 10"
    by (simp add: find_iso_separator_def date_str_def ds)
  show "parse_iso_date (date_str y m d) = Some (y, m, d)"
    by (simp add: parse_iso_date_def date_str_def slice_def read_digits_def ds yd md dd)
qed

lemma parse_fraction_written:
  assumes "0 \<le> us" and "us < 1000000"
  shows "parse_fraction (if us = 0 then [] else ''.'' @ pad_digits 6 us) = Some us"
proof -
  have "length (pad_digits 6 us) = 6" using assms by (intro pad_digits_length) auto
  then show ?thesis
    using assms pad_digits_all [of us 6] by (auto simp: parse_fraction_def)
qed

text \<open>A written clock time is read back, and holds no character that starts a zone.\<close>

lemma time_str_read:
  assumes "0 \<le> t" and "t < us_per_day"
  shows "parse_hms (time_str t) =
      Some (t div 1000000 div 3600, t div 1000000 div 60 mod 60, t div 1000000 mod 60,
            t mod 1000000)"
    and "\<forall>c \<in> set (time_str t). \<not> is_tz_char c"
    and "time_str t \<noteq> []"
proof -
  let ?s = "t div 1000000"
  have s: "0 \<le> ?s" "?s < 86400" using assms by (simp_all add: div_less_iff_less_mult)
  have h: "0 \<le> ?s div 3600" "?s div 3600 < 100"
    using s by (simp_all add: div_less_iff_less_mult)
  have mod60: "0 \<le> x mod 60" "x mod 60 < 100" for x :: int
    by (simp_all add: order_less_trans [OF pos_mod_bound [of 60 x]])
  obtain h1 h2 where h: "pad_digits 2 (?s div 3600) = [h1, h2]" and hd: "is_digit h1" "is_digit h2"
      and hv: "digits_nat [h1, h2] = ?s div 3600"
    using pad2_cases [OF h] by metis
  obtain m1 m2 where m: "pad_digits 2 (?s div 60 mod 60) = [m1, m2]"
      and md: "is_digit m1" "is_digit m2" and mv: "digits_nat [m1, m2] = ?s div 60 mod 60"
    using pad2_cases [OF mod60] by metis
  obtain s1 s2 where sec: "pad_digits 2 (?s mod 60) = [s1, s2]"
      and sd: "is_digit s1" "is_digit s2" and sv: "digits_nat [s1, s2] = ?s mod 60"
    using pad2_cases [OF mod60] by metis
  note ds = h m sec hd md sd
  have frac: "parse_fraction (if t mod 1000000 = 0 then []
      else ''.'' @ pad_digits 6 (t mod 1000000)) = Some (t mod 1000000)"
    by (rule parse_fraction_written) simp_all
  obtain f where f: "f = (if t mod 1000000 = 0 then []
      else ''.'' @ pad_digits 6 (t mod 1000000))" by simp
  have str: "time_str t = [h1, h2, CHR '':'', m1, m2, CHR '':'', s1, s2] @ f"
    by (simp add: time_str_def ds f Let_def)
  show "parse_hms (time_str t) =
      Some (?s div 3600, ?s div 60 mod 60, ?s mod 60, t mod 1000000)"
    unfolding str using frac
    by (simp add: parse_hms_def read_digits_def Let_def ds hv mv sv f [symmetric])
  show "\<forall>c \<in> set (time_str t). \<not> is_tz_char c"
    unfolding str using pad_digits_all [of "t mod 1000000" 6]
    by (auto simp: ds f list_all_iff is_tz_char_def [of "CHR '':''"]
        is_tz_char_def [of "CHR ''.''"])
  show "time_str t \<noteq> []" by (simp add: str)
qed

lemma parse_tz_utc: "parse_tz ''+00:00'' = Some (Some 0)"
  by code_simp

lemma hms_recompose:
  fixes t :: int
  defines "s \<equiv> t div 1000000"
  shows "((s div 3600 * 60 + s div 60 mod 60) * 60 + s mod 60) * 1000000 + t mod 1000000 = t"
proof -
  have *: "((c * 60 + d) * 60 + b) * 1000000 + e = t"
    if "s = 60 * a + b" "a = 60 * c + d" "t = 1000000 * s + e" for a b c d e :: int
    using that by simp
  have "s div 3600 = s div 60 div 60" using zdiv_zmult2_eq [of 60 s 60] by simp
  then show ?thesis
    using * [of "s div 60" "s mod 60" "s div 60 div 60" "s div 60 mod 60" "t mod 1000000"]
    by (simp add: s_def)
qed

lemma hms_bounds:
  assumes "t < us_per_day"
  shows "t div 1000000 div 3600 \<le> 23" "t div 1000000 div 60 mod 60 \<le> 59"
    "t div 1000000 mod 60 \<le> 59"
proof -
  have "t div 1000000 < 86400" using assms by (simp add: div_less_iff_less_mult)
  then have "t div 1000000 div 3600 < 24" by (simp add: div_less_iff_less_mult)
  then show "t div 1000000 div 3600 \<le> 23" by simp
  show "t div 1000000 div 60 mod 60 \<le> 59" "t div 1000000 mod 60 \<le> 59"
    using pos_mod_bound [of 60] by (simp_all add: zle_diff1_eq [of _ 60, simplified])
qed

lemma time_str_hms:
  assumes "0 \<le> t" and "t < us_per_day"
  obtains hh mm ss us where "parse_hms (time_str t) = Some (hh, mm, ss, us)"
    and "hh \<le> 23" and "mm \<le> 59" and "ss \<le> 59"
    and "((hh * 60 + mm) * 60 + ss) * 1000000 + us = t"
  using that [OF time_str_read(1) [OF assms] hms_bounds [OF assms(2)] hms_recompose] .

theorem fromisoformat_isoformat:
  assumes "0 \<le> u" and "u < max_utc"
  shows "fromisoformat (utc_isoformat u) = Some (Dtime u (Some 0))"
proof -
  define n t where "n = u div us_per_day + 1" and "t = u mod us_per_day"
  obtain y m d where ymd: "ord_ymd n = (y, m, d)" by (metis prod_cases3)
  have n: "1 \<le> n" "n \<le> 3652059"
    using assms by (simp_all add: n_def max_utc_def pos_imp_zdiv_nonneg_iff
        div_less_iff_less_mult add1_zle_eq)
  note date = ord_ymd_correct [OF n ymd]
  have t: "0 \<le> t" "t < us_per_day" and u: "(ymd_ord y m d - 1) * us_per_day + t = u"
    using date(2) by (simp_all add: n_def t_def)
  obtain hh mm ss us where hms: "parse_hms (time_str t) = Some (hh, mm, ss, us)"
      "hh \<le> 23" "mm \<le> 59" "ss \<le> 59"
      and t_eq: "((hh * 60 + mm) * 60 + ss) * 1000000 + us = t"
    using time_str_hms [OF t] .
  have iso: "utc_isoformat u = date_str y m d @ CHR ''T'' # time_str t @ ''+00:00''"
    by (simp add: utc_isoformat_def ymd n_def [symmetric] t_def [symmetric])
  have clock: "takeWhile (\<lambda>c. \<not> is_tz_char c) (time_str t @ ''+00:00'') = time_str t"
    and zone: "dropWhile (\<lambda>c. \<not> is_tz_char c) (time_str t @ ''+00:00'') = ''+00:00''"
    using time_str_read(2) [OF t] by (simp_all add: is_tz_char_def)
  have "(ymd_ord y m d - 1) * us_per_day + ((hh * 60 + mm) * 60 + ss) * 1000000 + us = u"
    using u t_eq by simp
  then show ?thesis
    unfolding fromisoformat_def iso Let_def
    by (simp add: date_str_read [OF date(1)] hms time_str_read(3) [OF t] clock zone date(1)
        parse_tz_utc)
qed

text \<open>An ISO string holds no \<open>Z\<close>, so replacing it changes nothing.\<close>

lemma pad_digits_no_Z: "0 \<le> n \<Longrightarrow> CHR ''Z'' \<notin> set (pad_digits w n)"
  using pad_digits_all [of n w] by (auto simp: list_all_iff is_digit_def)

lemma time_str_no_Z:
  assumes "0 \<le> t"
  shows "CHR ''Z'' \<notin> set (time_str t)"
proof -
  define sec us where "sec = t div 1000000" and "us = t mod 1000000"
  define a b c where "a = sec div 3600" and "b = sec div 60 mod 60" and "c = sec mod 60"
  have nn: "0 \<le> us" "0 \<le> a" "0 \<le> b" "0 \<le> c"
    using assms by (simp_all add: sec_def us_def a_def b_def c_def pos_imp_zdiv_nonneg_iff)
  have "time_str t = pad_digits 2 a @ '':'' @ pad_digits 2 b @ '':'' @ pad_digits 2 c
      @ (if us = 0 then [] else ''.'' @ pad_digits 6 us)"
    by (simp only: time_str_def Let_def sec_def us_def a_def b_def c_def)
  then show ?thesis using nn by (simp add: pad_digits_no_Z)
qed

lemma utc_isoformat_cases:
  assumes "0 \<le> u" and "u < max_utc"
  obtains y m d where "0 \<le> y" "0 \<le> m" "0 \<le> d"
    "utc_isoformat u = date_str y m d @ ''T'' @ time_str (u mod us_per_day) @ ''+00:00''"
proof -
  define n where "n = u div us_per_day + 1"
  obtain y m d where ymd: "ord_ymd n = (y, m, d)" by (metis prod_cases3)
  have n: "1 \<le> n" "n \<le> 3652059"
    using assms by (simp_all add: n_def max_utc_def pos_imp_zdiv_nonneg_iff
        div_less_iff_less_mult add1_zle_eq)
  have "0 \<le> y" "0 \<le> m" "0 \<le> d"
    using valid_date_bounds [OF ord_ymd_correct(1) [OF n ymd]] by simp_all
  then show thesis
    by (rule that) (simp add: utc_isoformat_def ymd n_def [symmetric])
qed

lemma utc_isoformat_no_Z:
  assumes "0 \<le> u" and "u < max_utc"
  shows "CHR ''Z'' \<notin> set (utc_isoformat u)"
proof -
  have "CHR ''Z'' \<notin> set (time_str (u mod us_per_day))"
    by (rule time_str_no_Z) simp
  moreover obtain y m d where "0 \<le> y" "0 \<le> m" "0 \<le> d"
    "utc_isoformat u = date_str y m d @ ''T'' @ time_str (u mod us_per_day) @ ''+00:00''"
    using assms by (rule utc_isoformat_cases)
  ultimately show ?thesis by (simp add: date_str_def pad_digits_no_Z)
qed

lemma utc_isoformat_strip:
  assumes "0 \<le> u" and "u < max_utc"
  shows "py_strip (utc_isoformat u) = utc_isoformat u"
proof (rule py_strip_id)
  obtain y m d where ymd: "0 \<le> y" "0 \<le> m" "0 \<le> d"
    "utc_isoformat u = date_str y m d @ ''T'' @ time_str (u mod us_per_day) @ ''+00:00''"
    using assms by (rule utc_isoformat_cases)
  have pad: "pad_digits 4 y \<noteq> []" by (simp add: pad_digits_def Let_def)
  then have "is_digit (hd (pad_digits 4 y))"
    using pad_digits_all [OF ymd(1), of 4] by (cases "pad_digits 4 y") auto
  with pad show "\<not> is_py_space (hd (utc_isoformat u))"
    by (simp add: ymd(4) date_str_def digit_not_space)
  show "utc_isoformat u \<noteq> []" by (simp add: ymd(4))
  show "\<not> is_py_space (last (utc_isoformat u))" by (simp add: ymd(4) is_py_space_def)
qed

subsection \<open>Elapsed time\<close>

text \<open>
  \<open>total_seconds\<close> rounds, but a comparison of it with a multiple of half a second is exact:
  the thresholds the program compares elapsed times with are such multiples.
\<close>

lemma rnd_pos_half:
  assumes "0 < k" and "k \<le> 2 ^ 32"
  shows "rnd_pos (of_int k / 2) = of_int k / 2"
  using rnd_pos_exact [of k "- 1"] assms by (simp add: pow2_def)

lemma half_lt_overflow: "k \<le> 2 ^ 32 \<Longrightarrow> (of_int k / 2 :: rat) < 2 ^ 1024"
proof -
  assume "k \<le> 2 ^ 32"
  then have "(of_int k :: rat) \<le> of_int (2 ^ 32)" by (simp only: of_int_le_iff)
  then show ?thesis by simp
qed

lemma half_bounds:
  assumes "3 \<le> k" and "k \<le> 2 ^ 32"
  shows "(3 :: rat) \<le> of_int k" and "(of_int k :: rat) \<le> 2 ^ 32"
proof -
  show "(3 :: rat) \<le> of_int k" using assms(1) by (metis of_int_le_iff of_int_numeral)
  have "(of_int k :: rat) \<le> of_int (2 ^ 32)" using assms(2) by (simp only: of_int_le_iff)
  then show "(of_int k :: rat) \<le> 2 ^ 32" by simp
qed

lemma us_le_half:
  assumes "us + c \<le> k * 500000"
  shows "(of_int us / 1000000 :: rat) \<le> of_int k / 2 - of_int c / 1000000"
proof -
  have "(of_int (us + c) :: rat) \<le> of_int (k * 500000)" using assms by (simp only: of_int_le_iff)
  then show ?thesis by simp
qed

lemma us_ge_half:
  assumes "k * 500000 + c \<le> us"
  shows "(of_int k / 2 + of_int c / 1000000 :: rat) \<le> of_int us / 1000000"
proof -
  have "(of_int (k * 500000 + c) :: rat) \<le> of_int us" using assms by (simp only: of_int_le_iff)
  then show ?thesis by simp
qed

lemma fl_of_rat_ge_half:
  assumes "0 < k" and "k \<le> 2 ^ 32" and "of_int k / 2 \<le> x"
  shows "fl_le (Fin (of_int k / 2)) (fl_of_rat x)"
proof -
  have "0 \<le> x" using assms(1,3) by (simp add: order_trans [OF _ assms(3)])
  moreover have "of_int k / 2 \<le> rnd_pos x"
    using rnd_pos_mono [OF _ assms(3)] rnd_pos_half [OF assms(1,2)] assms(1) by simp
  ultimately show ?thesis by (simp add: fl_of_rat_def)
qed

lemma fl_of_rat_lt_half:
  assumes "3 \<le> k" and "k \<le> 2 ^ 32" and "x \<le> of_int k / 2 - 1 / 1000000"
  shows "fl_lt (fl_of_rat x) (Fin (of_int k / 2))"
proof (cases "0 \<le> x")
  case True
  let ?y = "of_int k / 2 - 1 / 1000000 :: rat"
  have k: "(3::rat) \<le> of_int k" "(of_int k :: rat) \<le> 2 ^ 32"
    using half_bounds [OF assms(1,2)] by simp_all
  have "\<bar>rnd_pos ?y - ?y\<bar> \<le> ?y / 2 ^ 53" by (rule rnd_pos_error) (use k in simp)
  then have "rnd_pos ?y \<le> ?y + ?y / 2 ^ 53" by linarith
  also have "\<dots> < of_int k / 2" using k by simp
  finally have "rnd_pos x < of_int k / 2"
    using rnd_pos_mono [OF True assms(3)] by simp
  then show ?thesis
    using True half_lt_overflow [OF assms(2)] by (simp add: fl_of_rat_def fl_lt_Fin)
next
  case False
  then have "0 \<le> rnd_pos (- x)" by (intro rnd_pos_nonneg) simp
  then show ?thesis
    using False assms(1) by (auto simp: fl_of_rat_def fl_lt_def fl_eq_def)
qed

lemma fl_of_rat_gt_half:
  assumes "3 \<le> k" and "k \<le> 2 ^ 32" and "of_int k / 2 + 1 / 1000000 \<le> x"
  shows "fl_lt (Fin (of_int k / 2)) (fl_of_rat x)"
proof -
  let ?y = "of_int k / 2 + 1 / 1000000 :: rat"
  have k: "(3::rat) \<le> of_int k" "(of_int k :: rat) \<le> 2 ^ 32"
    using half_bounds [OF assms(1,2)] by simp_all
  have "\<bar>rnd_pos ?y - ?y\<bar> \<le> ?y / 2 ^ 53" by (rule rnd_pos_error) (use k in simp)
  then have e: "?y - ?y / 2 ^ 53 \<le> rnd_pos ?y" by linarith
  have "of_int k / 2 < ?y - ?y / 2 ^ 53" using k by simp
  also note e
  also have "rnd_pos ?y \<le> rnd_pos x" by (rule rnd_pos_mono [OF _ assms(3)]) (use k in simp)
  finally have "of_int k / 2 < rnd_pos x" .
  moreover have "0 \<le> x" using assms(3) k by (simp add: order_trans [OF _ assms(3)])
  ultimately show ?thesis by (auto simp: fl_of_rat_def fl_lt_def fl_eq_def)
qed

lemma fl_lt_not_le: "x \<noteq> NaN \<Longrightarrow> y \<noteq> NaN \<Longrightarrow> fl_lt x y \<longleftrightarrow> \<not> fl_le y x"
  by (cases x; cases y) (auto simp: fl_lt_def fl_eq_def)

theorem total_seconds_ge_half:
  assumes "3 \<le> k" and "k \<le> 2 ^ 32"
  shows "fl_le (Fin (of_int k / 2)) (total_seconds us) \<longleftrightarrow> k * 500000 \<le> us"
proof (cases "k * 500000 \<le> us")
  case True
  then show ?thesis
    unfolding total_seconds_def
    using fl_of_rat_ge_half [of k] us_ge_half [of k 0 us] assms by simp
next
  case False
  then have "fl_lt (total_seconds us) (Fin (of_int k / 2))"
    unfolding total_seconds_def
    using fl_of_rat_lt_half [OF assms] us_le_half [of us 1 k] by simp
  with False show ?thesis by (simp add: fl_lt_not_le total_seconds_def fl_of_rat_not_NaN)
qed

lemma fl_of_rat_le_half:
  assumes "0 < k" and "k \<le> 2 ^ 32" and "x \<le> of_int k / 2"
  shows "fl_le (fl_of_rat x) (Fin (of_int k / 2))"
proof (cases "0 \<le> x")
  case True
  then have "rnd_pos x \<le> of_int k / 2"
    using rnd_pos_mono [OF _ assms(3)] rnd_pos_half [OF assms(1,2)] by simp
  then show ?thesis
    using True half_lt_overflow [OF assms(2)] by (simp add: fl_of_rat_def)
next
  case False
  then have "0 \<le> rnd_pos (- x)" by (intro rnd_pos_nonneg) simp
  moreover have "0 < (of_int k :: rat)" using assms(1) by simp
  ultimately show ?thesis using False by (auto simp: fl_of_rat_def)
qed

theorem total_seconds_gt_half:
  assumes "3 \<le> k" and "k \<le> 2 ^ 32"
  shows "fl_lt (Fin (of_int k / 2)) (total_seconds us) \<longleftrightarrow> k * 500000 < us"
proof (cases "k * 500000 < us")
  case True
  then show ?thesis
    unfolding total_seconds_def
    using fl_of_rat_gt_half [OF assms] us_ge_half [of k 1 us] by simp
next
  case False
  then have "fl_le (total_seconds us) (Fin (of_int k / 2))"
    unfolding total_seconds_def
    using fl_of_rat_le_half [of k] us_le_half [of us 0 k] assms by simp
  with False show ?thesis by (simp add: fl_lt_not_le total_seconds_def fl_of_rat_not_NaN)
qed

theorem total_seconds_le_0: "fl_le (total_seconds us) (Fin 0) \<longleftrightarrow> us \<le> 0"
proof (cases "0 < us")
  case True
  then have "(1 :: rat) \<le> of_int us" by simp
  then have "pow2 (- 20) \<le> of_int us / 1000000" by (simp add: pow2_def)
  then have "rnd_pos (pow2 (- 20)) \<le> rnd_pos (of_int us / 1000000)"
    by (intro rnd_pos_mono) (auto intro: less_imp_le)
  then have "0 < rnd_pos (of_int us / 1000000)"
    using rnd_pos_exact [of 1 "- 20"] less_le_trans [OF pow2_pos [of "- 20"]] by simp
  then show ?thesis using True by (simp add: total_seconds_def fl_of_rat_def)
next
  case False
  then have "0 \<le> rnd_pos (- (of_int us / 1000000))" by (intro rnd_pos_nonneg) simp
  then show ?thesis
    using False by (auto simp: total_seconds_def fl_of_rat_def rnd_pos_def)
qed

end
