(* ===== verification/Py_Value.thy ===== *)
theory Py_Value
  imports Py_Datetime
begin

text \<open>
  The values the program passes around: parsed JSON (\<open>None\<close>, booleans, integers, floats,
  strings, lists, dictionaries with string keys) and the datetimes database rows carry. With
  them Python's equality across number types, truth value, \<open>dict.get\<close>, and the conversions
  \<open>int(x)\<close> and \<open>float(x)\<close> with the exceptions they raise. Equality compares values: two
  not-a-number floats are unequal.
\<close>

datatype py =
    PNone
  | PBool bool
  | PInt int
  | PFloat fl
  | PStr string
  | PList "py list"
  | PDict "(string \<times> py) list"
  | PDatetime dtime

type_synonym pdict = "(string \<times> py) list"

abbreviation PUtc :: "utc \<Rightarrow> py" where
  "PUtc u \<equiv> PDatetime (Dtime u (Some 0))"

subsection \<open>Type tests and access\<close>

fun is_mapping :: "py \<Rightarrow> bool" where
  "is_mapping (PDict _) = True"
| "is_mapping _ = False"

fun is_list :: "py \<Rightarrow> bool" where
  "is_list (PList _) = True"
| "is_list _ = False"

fun is_str :: "py \<Rightarrow> bool" where
  "is_str (PStr _) = True"
| "is_str _ = False"

text \<open>\<open>value if isinstance(value, Mapping) else {}\<close>, a helper most modules define for themselves.\<close>

fun mapping :: "py \<Rightarrow> pdict" where
  "mapping (PDict d) = d"
| "mapping _ = []"

definition pget :: "pdict \<Rightarrow> string \<Rightarrow> py" where
  "pget d k = (case dict_get d k of None \<Rightarrow> PNone | Some v \<Rightarrow> v)"

definition pget_default :: "pdict \<Rightarrow> string \<Rightarrow> py \<Rightarrow> py" where
  "pget_default d k x = (case dict_get d k of None \<Rightarrow> x | Some v \<Rightarrow> v)"

lemma pget_simps [simp, py_simps]:
  "pget [] k = PNone"
  "pget ((k', v) # d) k = (if k' = k then v else pget d k)"
  by (simp_all add: pget_def)

lemma pget_default_simps [simp, py_simps]:
  "pget_default [] k x = x"
  "pget_default ((k', v) # d) k x = (if k' = k then v else pget_default d k x)"
  by (simp_all add: pget_default_def)

lemma pget_set [simp, dict_simps]:
  "pget (dict_set d k v) k' = (if k = k' then v else pget d k')"
  by (simp add: pget_def)

lemma pget_pop [simp, dict_simps]:
  "pget (dict_pop d k) k' = (if k' = k then PNone else pget d k')"
  by (simp add: pget_def)

lemma pget_update [dict_simps]:
  "pget (dict_update d items) k = (case dict_get (rev items) k of Some v \<Rightarrow> v | None \<Rightarrow> pget d k)"
  by (simp add: pget_def dict_get_update split: option.split)

lemma pget_update_other: "k \<notin> fst ` set items \<Longrightarrow> pget (dict_update d items) k = pget d k"
  by (induction items arbitrary: d) auto

subsection \<open>Truth value\<close>

fun truthy :: "py \<Rightarrow> bool" where
  "truthy PNone = False"
| "truthy (PBool b) = b"
| "truthy (PInt i) = (i \<noteq> 0)"
| "truthy (PFloat f) = (\<not> fl_eq f (Fin 0))"
| "truthy (PStr s) = (s \<noteq> [])"
| "truthy (PList xs) = (xs \<noteq> [])"
| "truthy (PDict d) = (d \<noteq> [])"
| "truthy (PDatetime _) = True"

definition py_or :: "py \<Rightarrow> py \<Rightarrow> py" where
  "py_or x y = (if truthy x then x else y)"

text \<open>\<open>s or None\<close> for a string.\<close>

definition str_or_none :: "string \<Rightarrow> py" where
  "str_or_none s = (if s = [] then PNone else PStr s)"

subsection \<open>Equality\<close>

fun num_val :: "py \<Rightarrow> fl option" where
  "num_val (PBool b) = Some (Fin (if b then 1 else 0))"
| "num_val (PInt i) = Some (Fin (of_int i))"
| "num_val (PFloat f) = Some f"
| "num_val _ = None"

fun dtime_eq :: "dtime \<Rightarrow> dtime \<Rightarrow> bool" where
  "dtime_eq (Dtime l None) (Dtime l' None) = (l = l')"
| "dtime_eq (Dtime l (Some z)) (Dtime l' (Some z')) = (l - z = l' - z')"
| "dtime_eq _ _ = False"

fun py_eq :: "py \<Rightarrow> py \<Rightarrow> bool"
  and py_list_eq :: "py list \<Rightarrow> py list \<Rightarrow> bool"
  and py_dict_sub :: "pdict \<Rightarrow> pdict \<Rightarrow> bool"
where
  "py_eq PNone y = (y = PNone)"
| "py_eq (PStr s) y = (y = PStr s)"
| "py_eq (PDatetime t) y = (case y of PDatetime t' \<Rightarrow> dtime_eq t t' | _ \<Rightarrow> False)"
| "py_eq (PList xs) y = (case y of PList ys \<Rightarrow> py_list_eq xs ys | _ \<Rightarrow> False)"
| "py_eq (PDict d) y =
    (case y of PDict d' \<Rightarrow> length d = length d' \<and> py_dict_sub d d' | _ \<Rightarrow> False)"
| "py_eq x y = (case (num_val x, num_val y) of (Some a, Some b) \<Rightarrow> fl_eq a b | _ \<Rightarrow> False)"
| "py_list_eq [] ys = (ys = [])"
| "py_list_eq (x # xs) ys = (case ys of [] \<Rightarrow> False | y # ys' \<Rightarrow> py_eq x y \<and> py_list_eq xs ys')"
| "py_dict_sub [] d' = True"
| "py_dict_sub ((k, v) # d) d' =
    ((case dict_get d' k of None \<Rightarrow> False | Some w \<Rightarrow> py_eq v w) \<and> py_dict_sub d d')"

abbreviation py_in :: "py \<Rightarrow> py list \<Rightarrow> bool" where
  "py_in x xs \<equiv> list_ex (py_eq x) xs"

subsection \<open>Printing\<close>

text \<open>
  \<open>repr\<close> of a float is the shortest decimal that reads back as the same float, with an exponent
  when it is below -4 or at least 16. The model has no negative zero.
\<close>

definition dec_expo :: "rat \<Rightarrow> int" where
  "dec_expo x =
    (let (p, q) = quotient_of x;
         e = int (length (nat_digits p)) - int (length (nat_digits q))
     in if pow10 e \<le> x then e else e - 1)"

fun shortest_digits :: "nat \<Rightarrow> nat \<Rightarrow> rat \<Rightarrow> int \<times> int" where
  "shortest_digits 0 n x = (round_half_even (x / pow10 (dec_expo x - 16)), dec_expo x - 16)"
| "shortest_digits (Suc k) n x =
    (let e = dec_expo x - int n; d = round_half_even (x / pow10 e)
     in if fl_of_rat (of_int d * pow10 e) = Fin x then (d, e) else shortest_digits k (Suc n) x)"

definition strip_zeros :: "string \<Rightarrow> string" where
  "strip_zeros s = rev (dropWhile (\<lambda>c. c = CHR ''0'') (rev s))"

definition pos_float_repr :: "rat \<Rightarrow> string" where
  "pos_float_repr x =
    (let (d, e) = shortest_digits 16 0 x;
         ds = nat_digits d;
         point = int (length ds) + e;
         sig = (let t = strip_zeros ds in if t = [] then ''0'' else t)
     in if - 4 < point \<and> point \<le> 16
        then if point \<le> 0 then ''0.'' @ replicate (nat (- point)) (CHR ''0'') @ sig
             else if int (length sig) \<le> point
             then sig @ replicate (nat point - length sig) (CHR ''0'') @ ''.0''
             else take (nat point) sig @ ''.'' @ drop (nat point) sig
        else
          (let ex = point - 1
           in take 1 sig @ (if length sig = 1 then [] else ''.'' @ drop 1 sig)
              @ (if ex < 0 then ''e-'' else ''e+'') @ pad_digits 2 \<bar>ex\<bar>))"

definition float_repr :: "fl \<Rightarrow> string" where
  "float_repr f =
    (case f of
       Fin x \<Rightarrow>
         if x = 0 then ''0.0''
         else if 0 < x then pos_float_repr x else ''-'' @ pos_float_repr (- x)
     | PInf \<Rightarrow> ''inf'' | NInf \<Rightarrow> ''-inf'' | NaN \<Rightarrow> ''nan'')"

text \<open>\<open>repr\<close> of an ASCII string: single quotes unless it holds one and no double quote.\<close>

definition hex_char :: "int \<Rightarrow> char" where
  "hex_char n = (if n < 10 then digit_char n else char_of (nat (n + 87)))"

definition repr_char :: "char \<Rightarrow> char \<Rightarrow> string" where
  "repr_char quote c =
    (let n = (of_char c :: int)
     in if c = quote \<or> n = 92 then [char_of (92 :: nat), c]
        else if n = 10 then [char_of (92 :: nat), CHR ''n'']
        else if n = 13 then [char_of (92 :: nat), CHR ''r'']
        else if n = 9 then [char_of (92 :: nat), CHR ''t'']
        else if n < 32 \<or> n = 127
        then [char_of (92 :: nat), CHR ''x'', hex_char (n div 16), hex_char (n mod 16)]
        else [c])"

definition str_repr :: "string \<Rightarrow> string" where
  "str_repr s =
    (let q = (if char_of (39 :: nat) \<in> set s \<and> char_of (34 :: nat) \<notin> set s
              then char_of (34 :: nat) else char_of (39 :: nat))
     in [q] @ concat (map (repr_char q) s) @ [q])"

definition offset_str :: "int \<Rightarrow> string" where
  "offset_str us =
    (let a = \<bar>us\<bar> div 1000000
     in (if us < 0 then ''-'' else ''+'') @ pad_digits 2 (a div 3600) @ '':''
        @ pad_digits 2 (a div 60 mod 60)
        @ (if a mod 60 = 0 \<and> us mod 1000000 = 0 then [] else '':'' @ pad_digits 2 (a mod 60))
        @ (if us mod 1000000 = 0 then [] else ''.'' @ pad_digits 6 (\<bar>us\<bar> mod 1000000)))"

text \<open>\<open>str\<close> of a datetime; nested in a list or a dictionary, which JSON never has, it is printed alike.\<close>

definition dtime_str :: "dtime \<Rightarrow> string" where
  "dtime_str t =
    (let (y, m, d) = ord_ymd (dt_local t div us_per_day + 1)
     in date_str y m d @ '' '' @ time_str (dt_local t mod us_per_day)
        @ (case dt_offset t of None \<Rightarrow> [] | Some z \<Rightarrow> offset_str z))"

fun py_repr :: "py \<Rightarrow> string"
  and list_repr :: "py list \<Rightarrow> string list"
  and dict_repr :: "pdict \<Rightarrow> string list"
where
  "py_repr PNone = ''None''"
| "py_repr (PBool b) = (if b then ''True'' else ''False'')"
| "py_repr (PInt i) = int_str i"
| "py_repr (PFloat f) = float_repr f"
| "py_repr (PStr s) = str_repr s"
| "py_repr (PList xs) = ''['' @ py_join '', '' (list_repr xs) @ '']''"
| "py_repr (PDict d) = ''{'' @ py_join '', '' (dict_repr d) @ ''}''"
| "py_repr (PDatetime t) = dtime_str t"
| "list_repr [] = []"
| "list_repr (x # xs) = py_repr x # list_repr xs"
| "dict_repr [] = []"
| "dict_repr ((k, v) # d) = (str_repr k @ '': '' @ py_repr v) # dict_repr d"

definition py_str :: "py \<Rightarrow> string" where
  "py_str x = (case x of PStr s \<Rightarrow> s | _ \<Rightarrow> py_repr x)"

text \<open>\<open>str(x or "")\<close>.\<close>

definition str_or_empty :: "py \<Rightarrow> string" where
  "str_or_empty x = (if truthy x then py_str x else [])"

lemma str_or_empty_str [simp]: "str_or_empty (PStr s) = s"
  by (simp add: str_or_empty_def py_str_def)

lemma str_or_empty_none [simp]: "str_or_empty PNone = []"
  by (simp add: str_or_empty_def)

subsection \<open>Conversions\<close>

definition py_int :: "py \<Rightarrow> int res" where
  "py_int x =
    (case x of
       PBool b \<Rightarrow> Inr (if b then 1 else 0)
     | PInt i \<Rightarrow> Inr i
     | PFloat f \<Rightarrow> int_of_fl f
     | PStr s \<Rightarrow> int_of_string s
     | _ \<Rightarrow> Inl TypeError)"

definition py_float :: "py \<Rightarrow> fl res" where
  "py_float x =
    (case x of
       PBool b \<Rightarrow> Inr (Fin (if b then 1 else 0))
     | PInt i \<Rightarrow> float_of_int i
     | PFloat f \<Rightarrow> Inr f
     | PStr s \<Rightarrow> float_of_string s
     | _ \<Rightarrow> Inl TypeError)"

text \<open>\<open>except (TypeError, ValueError): return None\<close>; other exceptions pass through.\<close>

definition except_type_value :: "'a res \<Rightarrow> 'a option res" where
  "except_type_value m =
    (case m of
       Inr x \<Rightarrow> Inr (Some x)
     | Inl TypeError \<Rightarrow> Inr None
     | Inl (ValueError _) \<Rightarrow> Inr None
     | Inl e \<Rightarrow> Inl e)"

lemma except_type_value_simps [simp, res_simps]:
  "except_type_value (Inr x) = Inr (Some x)"
  "except_type_value (Inl TypeError) = Inr None"
  "except_type_value (Inl (ValueError m)) = Inr None"
  "except_type_value (Inl OverflowError) = Inl OverflowError"
  by (simp_all add: except_type_value_def)

lemma except_type_value_Some:
  "except_type_value m = Inr (Some x) \<longleftrightarrow> m = Inr x"
  by (auto simp: except_type_value_def split: sum.splits exn.splits)

end
