(* ===== verification/Recovery_Evidence.thy ===== *)
theory Recovery_Evidence
  imports Py_Value
begin

text \<open>
  The observation half of \<open>src/src/domains/rca/recovery_verification.py\<close>: reading numbers,
  times and strings out of untrusted JSON, the exact SLI series of a metric, the replica status
  of the target, the continuity-protected peer workloads and their active-session gauges, the
  alert occurrences of the target, and the trusted collection time of an evidence window.

  \<open>text\<close> and \<open>mapping\<close> of the source are \<open>text_value\<close> and \<open>mapping\<close>; a raised exception is a
  value of \<^typ>\<open>exn\<close>; an optional number or time is an \<open>option\<close>.
\<close>

subsection \<open>Reading untrusted values\<close>

definition STANDARD_FAILURE_RATIO_METRIC :: string where
  "STANDARD_FAILURE_RATIO_METRIC = ''kyro_sli_failure_ratio''"

definition STANDARD_REQUEST_RATE_METRIC :: string where
  "STANDARD_REQUEST_RATE_METRIC = ''kyro_sli_request_rate''"

definition STANDARD_SLI_ALERT_NAME :: string where
  "STANDARD_SLI_ALERT_NAME = ''KyroSliFailureRatioHigh''"

definition CONTINUITY_ACTIVE_SESSIONS_METRIC :: string where
  "CONTINUITY_ACTIVE_SESSIONS_METRIC = ''kyro_continuity_active_sessions''"

definition CONTINUITY_SAMPLE_MAX_AGE_SECONDS :: int where
  "CONTINUITY_SAMPLE_MAX_AGE_SECONDS = 30"

definition STANDARD_SLI_IDENTITY_LABELS :: "string list" where
  "STANDARD_SLI_IDENTITY_LABELS =
    [''namespace'', ''resource_kind'', ''resource_name'', ''service'', ''sli'', ''symptom'']"

definition RECOVERY_CONTINUITY_LABEL :: string where
  "RECOVERY_CONTINUITY_LABEL = ''kyro.dev/recovery-continuity''"

definition RECOVERY_CONTINUITY_PROTECTED_VALUE :: string where
  "RECOVERY_CONTINUITY_PROTECTED_VALUE = ''protected''"

fun text_value :: "py \<Rightarrow> string" where
  "text_value (PStr s) = py_strip s"
| "text_value _ = []"

definition finite_float :: "py \<Rightarrow> fl option res" where
  "finite_float value =
    (case value of
       PBool _ \<Rightarrow> Inr None
     | _ \<Rightarrow>
         rmap (\<lambda>parsed. case parsed of
                 None \<Rightarrow> None
               | Some f \<Rightarrow> if fl_finite f then Some f else None)
           (except_type_value (py_float value)))"

definition nonnegative_int :: "py \<Rightarrow> int option res" where
  "nonnegative_int value =
    (case value of
       PBool _ \<Rightarrow> Inr None
     | _ \<Rightarrow>
         rmap (\<lambda>parsed. case parsed of
                 None \<Rightarrow> None
               | Some i \<Rightarrow> if 0 \<le> i then Some i else None)
           (except_type_value (py_int value)))"

definition normalized_utc :: "dtime \<Rightarrow> utc res" where
  "normalized_utc value = dtime_utc value"

definition parse_datetime :: "py \<Rightarrow> utc option res" where
  "parse_datetime value =
    (case value of
       PDatetime t \<Rightarrow> rmap Some (normalized_utc t)
     | PStr s \<Rightarrow>
         if py_strip s = [] then Inr None
         else
           (case fromisoformat (py_replace_char (CHR ''Z'') ''+00:00'' s) of
              None \<Rightarrow> Inr None
            | Some parsed \<Rightarrow> rmap Some (normalized_utc parsed))
     | _ \<Rightarrow> Inr None)"

definition bounded_seconds :: "py \<Rightarrow> int \<Rightarrow> int \<Rightarrow> int \<Rightarrow> int res" where
  "bounded_seconds value dflt minimum maximum =
    rmap (\<lambda>parsed. case parsed of
            None \<Rightarrow> dflt
          | Some n \<Rightarrow> max minimum (min n maximum))
      (nonnegative_int value)"

definition opt_int :: "int option \<Rightarrow> py" where
  "opt_int x = (case x of None \<Rightarrow> PNone | Some i \<Rightarrow> PInt i)"

definition opt_float :: "fl option \<Rightarrow> py" where
  "opt_float x = (case x of None \<Rightarrow> PNone | Some f \<Rightarrow> PFloat f)"

definition opt_bool :: "bool option \<Rightarrow> py" where
  "opt_bool x = (case x of None \<Rightarrow> PNone | Some b \<Rightarrow> PBool b)"

text \<open>\<open>x.casefold()\<close> of a value that is not a string raises \<open>AttributeError\<close>.\<close>

fun casefold_value :: "py \<Rightarrow> string res" where
  "casefold_value (PStr s) = Inr (py_casefold s)"
| "casefold_value _ = Inl AttributeError"

text \<open>\<open>target.get(key, "")\<close>.\<close>

abbreviation target_get :: "pdict \<Rightarrow> string \<Rightarrow> py" where
  "target_get target key \<equiv> pget_default target key (PStr [])"

abbreviation text_at :: "pdict \<Rightarrow> string \<Rightarrow> string" where
  "text_at d key \<equiv> text_value (pget d key)"

definition recovery_target :: "pdict \<Rightarrow> pdict" where
  "recovery_target plan_payload =
    (let target = mapping (pget plan_payload ''target'');
         selected_id = text_at plan_payload ''recommended_action_id'';
         selected =
           (case pget plan_payload ''candidates'' of
              PList candidates \<Rightarrow>
                (case List.find (\<lambda>candidate. is_mapping candidate
                         \<and> text_at (mapping candidate) ''action_id'' = selected_id) candidates of
                   None \<Rightarrow> []
                 | Some candidate \<Rightarrow> mapping candidate)
            | _ \<Rightarrow> []);
         draft = mapping (pget selected ''draft'');
         either = (\<lambda>key. let t = text_at target key in if t = [] then text_at draft key else t)
     in [(''cluster_id'', PStr (text_at target ''cluster_id'')),
         (''namespace'', PStr (either ''namespace'')),
         (''resource_kind'', PStr (either ''resource_kind'')),
         (''resource_name'', PStr (either ''resource_name''))])"

subsection \<open>Metric series\<close>

definition exact_standard_sli_label_set :: "pdict \<Rightarrow> string \<Rightarrow> bool" where
  "exact_standard_sli_label_set labels metric_name =
    (let keys = set (map fst labels); expected = set STANDARD_SLI_IDENTITY_LABELS
     in keys = expected
        \<or> keys = insert ''__name__'' expected \<and> text_at labels ''__name__'' = metric_name)"

definition metric_identity :: "pdict \<Rightarrow> pdict option" where
  "metric_identity labels =
    (let identity = map (\<lambda>key. (key, PStr (text_at labels key))) STANDARD_SLI_IDENTITY_LABELS
     in if list_ex (\<lambda>(_, value). \<not> truthy value) identity then None else Some identity)"

definition metric_labels_match_target :: "pdict \<Rightarrow> pdict \<Rightarrow> bool res" where
  "metric_labels_match_target labels target =
    (if PStr (text_at labels ''namespace'') \<noteq> target_get target ''namespace'' then Inr False
     else rmap (\<lambda>kind. py_casefold (text_at labels ''resource_kind'') = kind
                  \<and> PStr (text_at labels ''resource_name'') = target_get target ''resource_name'')
            (casefold_value (target_get target ''resource_kind'')))"

definition metric_match :: "string \<Rightarrow> pdict \<Rightarrow> pdict \<Rightarrow> py \<Rightarrow> (fl \<times> pdict) option res" where
  "metric_match metric_name target expected_identity sample =
    (case sample of
       PDict s \<Rightarrow>
         (let labels = mapping (pget s ''metric'')
          in if \<not> exact_standard_sli_label_set labels metric_name then Inr None
             else rbind (metric_labels_match_target labels target) (\<lambda>ok.
               if \<not> ok then Inr None
               else
                 (case metric_identity labels of
                    None \<Rightarrow> Inr None
                  | Some identity \<Rightarrow>
                      if list_ex (\<lambda>(key, value). text_at identity key \<noteq> text_value value)
                           expected_identity
                      then Inr None
                      else rmap (map_option (\<lambda>value. (value, identity)))
                             (finite_float (pget s ''value'')))))
     | _ \<Rightarrow> Inr None)"

definition metric_sample_with_identity ::
  "pdict \<Rightarrow> string \<Rightarrow> pdict \<Rightarrow> pdict \<Rightarrow> (fl option \<times> pdict option) res" where
  "metric_sample_with_identity evidence metric_name target expected_identity =
    (let metrics = mapping (pget evidence ''metrics'');
         result = mapping (pget (mapping (pget metrics ''results'')) metric_name)
     in case pget result ''samples'' of
          PList samples \<Rightarrow>
            rmap (\<lambda>matched. case matched of
                    [(value, identity)] \<Rightarrow> (Some value, Some identity)
                  | _ \<Rightarrow> (None, None))
              (rcollect (metric_match metric_name target expected_identity) samples)
        | _ \<Rightarrow> Inr (None, None))"

definition metric_sample :: "pdict \<Rightarrow> string \<Rightarrow> pdict \<Rightarrow> pdict \<Rightarrow> fl option res" where
  "metric_sample evidence metric_name target expected_identity =
    rmap fst (metric_sample_with_identity evidence metric_name target expected_identity)"

subsection \<open>Replica status of the target\<close>

text \<open>The snapshots of the evidence metadata, or of its change context.\<close>

definition current_workload_snapshots :: "pdict \<Rightarrow> py list option" where
  "current_workload_snapshots evidence =
    (let metadata = mapping (pget evidence ''metadata'')
     in case pget metadata ''current_workload_snapshots'' of
          PList snapshots \<Rightarrow> Some snapshots
        | _ \<Rightarrow>
            (case pget (mapping (pget metadata ''change_context'')) ''current_workload_snapshots'' of
               PList snapshots \<Rightarrow> Some snapshots
             | _ \<Rightarrow> None))"

definition deployment_status_of :: "pdict \<Rightarrow> pdict \<Rightarrow> pdict res" where
  "deployment_status_of workload status =
    rbind (nonnegative_int (pget workload ''generation'')) (\<lambda>generation.
    rbind (nonnegative_int (pget status ''observed_generation'')) (\<lambda>observed_generation.
    rbind (nonnegative_int (pget status ''desired_replicas'')) (\<lambda>desired.
    rbind (nonnegative_int (pget status ''ready_replicas'')) (\<lambda>ready.
    rbind (nonnegative_int (pget status ''updated_replicas'')) (\<lambda>updated.
    rbind (nonnegative_int (pget status ''available_replicas'')) (\<lambda>available.
    rbind (nonnegative_int (pget status ''unavailable_replicas'')) (\<lambda>unavailable.
    Inr [(''generation'', opt_int generation),
         (''observed_generation'', opt_int observed_generation),
         (''desired_replicas'', opt_int desired),
         (''ready_replicas'', opt_int ready),
         (''updated_replicas'', opt_int updated),
         (''available_replicas'', opt_int available),
         (''unavailable_replicas'', opt_int unavailable),
         (''unavailable_replicas_omitted'',
            PBool (\<not> dict_has status ''unavailable_replicas''))])))))))"

definition deployment_match :: "pdict \<Rightarrow> py \<Rightarrow> pdict option res" where
  "deployment_match target snapshot =
    (case snapshot of
       PDict s \<Rightarrow>
         (let workload = mapping (pget s ''workload'')
          in rbind (casefold_value (target_get target ''resource_kind'')) (\<lambda>kind.
               if py_casefold (text_at workload ''kind'') \<noteq> kind
                  \<or> PStr (text_at workload ''namespace'') \<noteq> target_get target ''namespace''
                  \<or> PStr (text_at workload ''name'') \<noteq> target_get target ''resource_name''
               then Inr None
               else rmap Some
                      (deployment_status_of workload (mapping (pget s ''deployment_status'')))))
     | _ \<Rightarrow> Inr None)"

definition deployment_replicas :: "pdict \<Rightarrow> pdict \<Rightarrow> pdict option res" where
  "deployment_replicas evidence target =
    (case current_workload_snapshots evidence of
       None \<Rightarrow> Inr None
     | Some snapshots \<Rightarrow>
         rmap (\<lambda>matches. case matches of [m] \<Rightarrow> Some m | _ \<Rightarrow> None)
           (rcollect (deployment_match target) snapshots))"

subsection \<open>Protected workloads\<close>

type_synonym workload_id = "string \<times> string \<times> string"

definition serving_pods :: "pdict \<Rightarrow> pdict list" where
  "serving_pods snapshot =
    (case pget snapshot ''pod_statuses'' of
       PList pods \<Rightarrow>
         filter (\<lambda>pod. pget pod ''ready'' = PBool True \<and> text_at pod ''deletion_timestamp'' = [])
           (map mapping (filter is_mapping pods))
     | _ \<Rightarrow> [])"

definition nonempty_texts :: "string \<Rightarrow> pdict list \<Rightarrow> string list" where
  "nonempty_texts key pods = filter (\<lambda>t. t \<noteq> []) (map (\<lambda>pod. text_at pod key) pods)"

definition restart_total :: "pdict list \<Rightarrow> int res" where
  "restart_total pods =
    rmap (\<lambda>counts. sum_list (map (\<lambda>c. case c of None \<Rightarrow> 0 | Some n \<Rightarrow> n) counts))
      (rtraverse (\<lambda>pod. nonnegative_int (pget pod ''restart_count'')) pods)"

definition protected_workload_of :: "pdict \<Rightarrow> pdict res" where
  "protected_workload_of snapshot =
    (let workload = mapping (pget snapshot ''workload'');
         status = mapping (pget snapshot ''deployment_status'');
         serving = serving_pods snapshot
     in rbind (nonnegative_int (pget status ''desired_replicas'')) (\<lambda>desired.
        rbind (nonnegative_int (pget status ''ready_replicas'')) (\<lambda>ready.
        rbind (nonnegative_int (pget status ''available_replicas'')) (\<lambda>available.
        rbind (restart_total serving) (\<lambda>restarts.
        Inr [(''kind'', PStr (text_at workload ''kind'')),
             (''namespace'', PStr (text_at workload ''namespace'')),
             (''name'', PStr (text_at workload ''name'')),
             (''uid'', pget workload ''uid''),
             (''pod_uids'', PList (map PStr (sort (nonempty_texts ''uid'' serving)))),
             (''pod_start_times'', PList (map PStr (sort (nonempty_texts ''start_time'' serving)))),
             (''restart_count'', PInt restarts),
             (''healthy'', PBool
                (case (desired, ready, available) of
                   (Some d, Some r, Some a) \<Rightarrow>
                     0 < d \<and> d \<le> r \<and> d \<le> a \<and> d \<le> int (length serving)
                     \<and> pget snapshot ''pod_statuses_truncated'' \<noteq> PBool True
                 | _ \<Rightarrow> False))])))))"

definition workload_identity :: "pdict \<Rightarrow> workload_id" where
  "workload_identity item =
    (py_casefold (text_at item ''kind''), text_at item ''namespace'', text_at item ''name'')"

definition protected_selected :: "pdict \<Rightarrow> workload_id list option \<Rightarrow> pdict \<Rightarrow> bool res" where
  "protected_selected target expected_identities snapshot =
    (let workload = mapping (pget snapshot ''workload'');
         kind = py_casefold (text_at workload ''kind'')
     in if PStr (text_at workload ''namespace'') \<noteq> target_get target ''namespace''
           \<or> kind \<noteq> ''deployment''
        then Inr False
        else rmap (\<lambda>target_kind.
               if kind = target_kind
                  \<and> PStr (text_at workload ''name'') = target_get target ''resource_name''
               then False
               else
                 (case expected_identities of
                    Some ids \<Rightarrow> workload_identity workload \<in> set ids
                  | None \<Rightarrow>
                      list_all (\<lambda>key.
                          py_casefold (text_at (mapping (pget snapshot key))
                                         RECOVERY_CONTINUITY_LABEL)
                          = RECOVERY_CONTINUITY_PROTECTED_VALUE)
                        [''deployment_labels'', ''pod_template_labels'']))
             (casefold_value (target_get target ''resource_kind'')))"

definition protected_match :: "pdict \<Rightarrow> workload_id list option \<Rightarrow> py \<Rightarrow> pdict option res" where
  "protected_match target expected_identities snapshot =
    (case snapshot of
       PDict s \<Rightarrow>
         rbind (protected_selected target expected_identities s) (\<lambda>selected.
           if selected then rmap Some (protected_workload_of s) else Inr None)
     | _ \<Rightarrow> Inr None)"

definition workload_sort_key :: "pdict \<Rightarrow> string \<times> string \<times> string" where
  "workload_sort_key item =
    (text_at item ''namespace'', text_at item ''kind'', text_at item ''name'')"

definition protected_workloads :: "pdict \<Rightarrow> pdict \<Rightarrow> py \<Rightarrow> pdict list option res" where
  "protected_workloads evidence target baseline =
    (case current_workload_snapshots evidence of
       None \<Rightarrow> Inr None
     | Some snapshots \<Rightarrow>
         (let expected_identities =
                (case baseline of
                   PList items \<Rightarrow>
                     Some (map (\<lambda>item. workload_identity (mapping item)) (filter is_mapping items))
                 | _ \<Rightarrow> None)
          in rmap (\<lambda>workloads. Some (sort_key workload_sort_key workloads))
               (rcollect (protected_match target expected_identities) snapshots)))"

definition protected_fields :: "string list" where
  "protected_fields =
    [''name'', ''kind'', ''namespace'', ''uid'', ''pod_uids'', ''pod_start_times'',
     ''restart_count'']"

definition normalized_workloads :: "py list \<Rightarrow> py list" where
  "normalized_workloads values =
    map (\<lambda>item. PDict (map (\<lambda>key. (key, pget (mapping item) key)) protected_fields))
      (filter is_mapping values)"

definition protected_workloads_unchanged :: "py \<Rightarrow> py \<Rightarrow> bool option" where
  "protected_workloads_unchanged baseline current =
    (case (current, baseline) of
       (PList after, PList before_map) \<Rightarrow>
         if before_map = [] then None
         else Some (py_list_eq (normalized_workloads before_map) (normalized_workloads after))
     | _ \<Rightarrow> None)"

definition baseline_fields :: "string list" where
  "baseline_fields =
    [''kind'', ''namespace'', ''name'', ''uid'', ''pod_uids'', ''pod_start_times'',
     ''restart_count'']"

fun list_items :: "py \<Rightarrow> py list" where
  "list_items (PList xs) = xs"
| "list_items _ = []"

definition valid_pod_metadata :: "pdict \<Rightarrow> bool res" where
  "valid_pod_metadata item =
    (case (pget item ''pod_uids'', pget item ''pod_start_times'') of
       (PList uids, PList starts) \<Rightarrow>
         if uids \<noteq> [] \<and> length starts = length uids \<and> list_all (\<lambda>v. text_value v \<noteq> []) starts
         then rmap (\<lambda>n. n \<noteq> None) (nonnegative_int (pget item ''restart_count''))
         else Inr False
     | _ \<Rightarrow> Inr False)"

definition protected_workload_baseline :: "pdict list \<Rightarrow> pdict list res" where
  "protected_workload_baseline workloads =
    (let baseline =
           map (\<lambda>workload. map (\<lambda>key. (key, pget workload key)) baseline_fields)
             (filter (\<lambda>workload. pget workload ''healthy'' = PBool True) workloads);
         identities = map workload_identity baseline;
         workload_uids = map (\<lambda>item. text_at item ''uid'') baseline;
         pod_uids = concat (map (\<lambda>item. map text_value (list_items (pget item ''pod_uids'')))
                              baseline)
     in rmap (\<lambda>valid.
          if baseline = []
             \<or> list_ex (\<lambda>(kind, namespace, name). kind = [] \<or> namespace = [] \<or> name = []) identities
             \<or> length (remdups identities) \<noteq> length identities
             \<or> list_ex (\<lambda>uid. uid = []) workload_uids
             \<or> length (remdups workload_uids) \<noteq> length workload_uids
             \<or> list_ex (\<lambda>uid. uid = []) pod_uids
             \<or> length (remdups pod_uids) \<noteq> length pod_uids
             \<or> \<not> valid
          then [] else baseline)
        (rall valid_pod_metadata baseline))"

subsection \<open>Active sessions of the protected workloads\<close>

type_synonym series_id = "string \<times> string \<times> string \<times> string \<times> string"

definition session_workload :: "pdict \<Rightarrow> string \<times> string \<times> string" where
  "session_workload item =
    (text_at item ''namespace'', py_casefold (text_at item ''kind''), text_at item ''name'')"

definition session_identity :: "pdict \<Rightarrow> series_id" where
  "session_identity item =
    (text_at item ''namespace'', py_casefold (text_at item ''kind''), text_at item ''name'',
     text_at item ''continuity_id'', text_at item ''pod_uid'')"

fun continuity_of :: "series_id \<Rightarrow> string" where
  "continuity_of (_, _, _, c, _) = c"

fun pod_of :: "series_id \<Rightarrow> string" where
  "pod_of (_, _, _, _, p) = p"

fun workload_of :: "series_id \<Rightarrow> string \<times> string \<times> string" where
  "workload_of (n, k, m, _, _) = (n, k, m)"

definition distinct_ids :: "series_id list \<Rightarrow> bool" where
  "distinct_ids ids =
    (length (remdups (map continuity_of ids)) = length ids
     \<and> length (remdups (map pod_of ids)) = length ids)"

text \<open>The dictionary comprehensions over the persisted series: identity to a finite number.\<close>

definition series_values :: "string \<Rightarrow> py \<Rightarrow> (series_id \<times> fl) list option res" where
  "series_values field items =
    (case items of
       PList xs \<Rightarrow>
         rmap (\<lambda>pairs. Some (dict_of pairs))
           (rcollect (\<lambda>item. case item of
               PDict d \<Rightarrow> rmap (map_option (\<lambda>v. (session_identity d, v)))
                            (finite_float (pget d field))
             | _ \<Rightarrow> Inr None) xs)
     | _ \<Rightarrow> Inr None)"

text \<open>One sample of the gauge: its identity, value and timestamp when it counts.\<close>

definition session_sample ::
  "((string \<times> string \<times> string) \<times> pdict) list \<Rightarrow> (series_id \<times> fl) list option
    \<Rightarrow> (series_id \<times> fl) list option \<Rightarrow> utc \<Rightarrow> int \<Rightarrow> py \<Rightarrow> (series_id \<times> fl \<times> fl) option res"
where
  "session_sample protected_by_workload expected_series previous_timestamps observed_at max_age
     sample =
    (case sample of
       PDict s \<Rightarrow>
         (let labels = mapping (pget s ''metric'');
              workload = (text_at labels ''namespace'',
                          py_casefold (text_at labels ''resource_kind''),
                          text_at labels ''resource_name'');
              continuity_id = text_at labels ''continuity_id'';
              pod_uid = text_at labels ''pod_uid'';
              identity = (fst workload, fst (snd workload), snd (snd workload),
                          continuity_id, pod_uid)
          in case dict_get protected_by_workload workload of
               None \<Rightarrow> Inr None
             | Some protected \<Rightarrow>
                 if continuity_id = [] \<or> pod_uid = []
                    \<or> \<not> is_list (pget protected ''pod_uids'')
                    \<or> pod_uid \<notin> set (map text_value (list_items (pget protected ''pod_uids'')))
                    \<or> (case expected_series of None \<Rightarrow> False
                       | Some es \<Rightarrow> \<not> dict_has es identity)
                 then Inr None
                 else
                   rbind (finite_float (pget s ''value'')) (\<lambda>value.
                   rmap (\<lambda>timestamp.
                     case (value, timestamp) of
                       (Some v, Some t) \<Rightarrow>
                         if fl_le v (Fin 0) \<or> \<not> fl_is_integer v then None
                         else
                           (case fromtimestamp_utc t of
                              None \<Rightarrow> None
                            | Some sample_time \<Rightarrow>
                                if fl_lt (Fin (of_int max_age))
                                     (fl_abs (total_seconds (observed_at - sample_time)))
                                then None
                                else if (case previous_timestamps of None \<Rightarrow> False
                                         | Some ps \<Rightarrow>
                                             (case dict_get ps identity of None \<Rightarrow> False
                                              | Some p \<Rightarrow> fl_lt t p))
                                then None
                                else Some (identity, v, t))
                     | _ \<Rightarrow> None)
                   (finite_float (pget s ''timestamp''))))
     | _ \<Rightarrow> Inr None)"

text \<open>\<open>matches.setdefault(identity, []).append((value, sample_timestamp))\<close>.\<close>

definition group_matches :: "(series_id \<times> fl \<times> fl) list \<Rightarrow> (series_id \<times> (fl \<times> fl) list) list" where
  "group_matches found =
    foldl (\<lambda>m (identity, v, t).
       dict_set m identity ((case dict_get m identity of None \<Rightarrow> [] | Some vs \<Rightarrow> vs) @ [(v, t)]))
      [] found"

definition session_rows ::
  "((string \<times> string \<times> string) \<times> pdict) list \<Rightarrow> (series_id \<times> (fl \<times> fl) list) list \<Rightarrow> pdict list res"
where
  "session_rows protected_by_workload matches =
    rtraverse (\<lambda>(namespace, kind, name, continuity_id, pod_uid).
      case (dict_get protected_by_workload (namespace, kind, name),
            dict_get matches (namespace, kind, name, continuity_id, pod_uid)) of
        (Some item, Some ((value, timestamp) # _)) \<Rightarrow>
          Inr [(''namespace'', PStr namespace), (''kind'', PStr (text_at item ''kind'')),
               (''name'', PStr name), (''continuity_id'', PStr continuity_id),
               (''pod_uid'', PStr pod_uid), (''value'', PFloat value),
               (''sample_timestamp'', PFloat timestamp)]
      | _ \<Rightarrow> Inl KeyError)
    (sort (map fst matches))"

definition protected_index ::
  "py \<Rightarrow> ((string \<times> string \<times> string) \<times> pdict) list option" where
  "protected_index protected_baseline =
    (case protected_baseline of
       PList items \<Rightarrow>
         if items = [] then None
         else
           (let index = dict_of (map (\<lambda>item. (session_workload (mapping item), mapping item))
                                   (filter is_mapping items))
            in if length index = length items then Some index else None)
     | _ \<Rightarrow> None)"

definition expected_series_ok ::
  "(series_id \<times> fl) list option \<Rightarrow> (series_id \<times> fl) list option \<Rightarrow> py \<Rightarrow> bool" where
  "expected_series_ok expected_series previous_timestamps expected_baseline =
    (case expected_series of
       None \<Rightarrow> True
     | Some es \<Rightarrow>
         length es = length (list_items expected_baseline)
         \<and> distinct_ids (map fst es)
         \<and> (case previous_timestamps of None \<Rightarrow> False
            | Some ps \<Rightarrow> set (map fst ps) = set (map fst es)))"

definition matches_complete ::
  "((string \<times> string \<times> string) \<times> pdict) list \<Rightarrow> (series_id \<times> fl) list option
    \<Rightarrow> (series_id \<times> (fl \<times> fl) list) list \<Rightarrow> bool" where
  "matches_complete protected_by_workload expected_series matches =
    (list_all (\<lambda>(_, values). length values = 1) matches
     \<and> (case expected_series of
          Some es \<Rightarrow> set (map fst matches) = set (map fst es)
        | None \<Rightarrow>
            workload_of ` set (map fst matches) = set (map fst protected_by_workload)
            \<and> length matches = length protected_by_workload)
     \<and> distinct_ids (map fst matches))"

definition protected_active_session_series ::
  "pdict \<Rightarrow> py \<Rightarrow> py \<Rightarrow> py \<Rightarrow> utc option \<Rightarrow> int option \<Rightarrow> pdict list option res" where
  "protected_active_session_series evidence protected_baseline expected_baseline previous_samples
     evidence_observed_at max_sample_age_seconds =
    (case protected_index protected_baseline of
       None \<Rightarrow> Inr None
     | Some protected_by_workload \<Rightarrow>
         rbind (series_values ''value'' expected_baseline) (\<lambda>expected_series.
         rbind (series_values ''sample_timestamp'' previous_samples) (\<lambda>previous_timestamps.
         case (evidence_observed_at, max_sample_age_seconds) of
           (Some observed_at, Some max_age) \<Rightarrow>
             if max_age \<le> 0
                \<or> \<not> expected_series_ok expected_series previous_timestamps expected_baseline
             then Inr None
             else
               (let results = mapping (pget (mapping (pget evidence ''metrics'')) ''results'');
                    result = mapping (pget results CONTINUITY_ACTIVE_SESSIONS_METRIC)
                in case pget result ''samples'' of
                     PList samples \<Rightarrow>
                       rbind (rcollect (session_sample protected_by_workload expected_series
                                          previous_timestamps observed_at max_age) samples)
                         (\<lambda>found.
                            let matches = group_matches found
                            in if matches_complete protected_by_workload expected_series matches
                               then rmap Some (session_rows protected_by_workload matches)
                               else Inr None)
                   | _ \<Rightarrow> Inr None)
         | _ \<Rightarrow> Inr None)))"

fun session_identity_complete :: "series_id \<Rightarrow> bool" where
  "session_identity_complete (n, k, m, c, p) = (n \<noteq> [] \<and> k \<noteq> [] \<and> m \<noteq> [] \<and> c \<noteq> [] \<and> p \<noteq> [])"

text \<open>The local function \<open>values\<close> of \<open>protected_active_sessions_maintained\<close>.\<close>

fun session_values ::
  "(series_id \<times> fl) list \<Rightarrow> py list \<Rightarrow> (series_id \<times> fl) list option res" where
  "session_values parsed [] = Inr (Some parsed)"
| "session_values parsed (item # items) =
    (case item of
       PDict d \<Rightarrow>
         rbind (finite_float (pget d ''value'')) (\<lambda>value.
           case value of
             None \<Rightarrow> Inr None
           | Some v \<Rightarrow>
               (let identity = session_identity d
                in if \<not> session_identity_complete identity \<or> dict_has parsed identity
                   then Inr None
                   else session_values (dict_set parsed identity v) items))
     | _ \<Rightarrow> Inr None)"

definition protected_active_sessions_maintained :: "py \<Rightarrow> py \<Rightarrow> bool option res" where
  "protected_active_sessions_maintained baseline current =
    (case (baseline, current) of
       (PList (b # bs), PList cs) \<Rightarrow>
         rbind (session_values [] (b # bs)) (\<lambda>before_map.
         rmap (\<lambda>after.
           case (before_map, after) of
             (Some bv, Some av) \<Rightarrow>
               if set (map fst bv) \<noteq> set (map fst av) then None
               else Some (list_all (\<lambda>(identity, value).
                      case dict_get av identity of None \<Rightarrow> False
                      | Some v \<Rightarrow> fl_le value v) bv)
           | _ \<Rightarrow> None)
         (session_values [] cs))
     | _ \<Rightarrow> Inr None)"

subsection \<open>Alert occurrences\<close>

definition alert_matches_target :: "pdict \<Rightarrow> pdict \<Rightarrow> bool res" where
  "alert_matches_target alert target =
    (let subject = mapping (pget alert ''subject'')
     in if PStr (text_at subject ''cluster'') \<noteq> target_get target ''cluster_id''
           \<or> PStr (text_at subject ''namespace'') \<noteq> target_get target ''namespace''
        then Inr False
        else rmap (\<lambda>kind. py_casefold (text_at subject ''kind'') = kind
                     \<and> PStr (text_at subject ''name'') = target_get target ''resource_name'')
               (casefold_value (target_get target ''resource_kind'')))"

definition standard_sli_series_identity :: "py \<Rightarrow> pdict option" where
  "standard_sli_series_identity value = metric_identity (mapping value)"

definition alert_matches_original_series :: "pdict \<Rightarrow> pdict \<Rightarrow> pdict \<Rightarrow> bool res" where
  "alert_matches_original_series alert before_map target =
    rmap (\<lambda>ok.
        ok
        \<and> (text_at before_map ''rule_name'' = STANDARD_SLI_ALERT_NAME \<longrightarrow>
             (case standard_sli_series_identity (pget before_map ''series_identity'') of
                None \<Rightarrow> False
              | Some expected \<Rightarrow>
                  standard_sli_series_identity (pget alert ''series_identity'') = Some expected))
        \<and> list_all (\<lambda>field. text_at before_map field = [] \<or> text_at alert field = text_at before_map field)
            [''rule_id'', ''rule_name'', ''source'', ''subject_key''])
      (alert_matches_target alert target)"

definition alert_step ::
  "pdict \<Rightarrow> pdict \<Rightarrow> utc option \<Rightarrow> pdict option \<times> bool \<Rightarrow> pdict \<Rightarrow> (pdict option \<times> bool) res" where
  "alert_step before_map target verification_started_at st alert =
    rbind (alert_matches_original_series alert before_map target) (\<lambda>ok.
      if \<not> ok then Inr st
      else
        (let original_id = text_at before_map ''alert_event_id''
         in if original_id \<noteq> [] \<and> text_at alert ''event_id'' = original_id
            then Inr (Some alert, snd st)
            else
              rmap (\<lambda>fired_at.
                  case (verification_started_at, fired_at) of
                    (Some started, Some fired) \<Rightarrow> (fst st, snd st \<or> started \<le> fired)
                  | _ \<Rightarrow> st)
                (parse_datetime (pget alert ''fired_at''))))"

definition alert_checks ::
  "pdict list \<Rightarrow> pdict \<Rightarrow> pdict \<Rightarrow> utc option \<Rightarrow> (bool option \<times> bool option) res" where
  "alert_checks alerts before_map target verification_started_at =
    rbind (rfold (alert_step before_map target verification_started_at) (None, False) alerts)
      (\<lambda>(original, refired).
        case original of
          None \<Rightarrow> Inr (None, if refired then Some False else None)
        | Some alert \<Rightarrow>
            if py_casefold (text_at alert ''status'') = ''resolved''
            then rmap (\<lambda>resolved_at. (Some (resolved_at \<noteq> None), Some (\<not> refired)))
                   (parse_datetime (pget alert ''resolved_at''))
            else Inr (Some False, Some (\<not> refired)))"

text \<open>The chronology test of one alert: fired, and resolved no earlier than fired.\<close>

definition alert_chronology_ok :: "pdict \<Rightarrow> string \<Rightarrow> bool res" where
  "alert_chronology_ok alert status =
    (if status = ''resolved''
     then rbind (parse_datetime (pget alert ''fired_at'')) (\<lambda>fired_at.
          rmap (\<lambda>resolved_at.
              case (fired_at, resolved_at) of (Some f, Some r) \<Rightarrow> f \<le> r | _ \<Rightarrow> False)
            (parse_datetime (pget alert ''resolved_at'')))
     else rmap (\<lambda>fired_at. fired_at \<noteq> None) (parse_datetime (pget alert ''fired_at'')))"

definition alert_exceeds_threshold :: "pdict \<Rightarrow> bool res" where
  "alert_exceeds_threshold alert =
    rbind (finite_float (pget alert ''observed_value'')) (\<lambda>observed.
    rmap (\<lambda>threshold.
        case (observed, threshold) of (Some a, Some b) \<Rightarrow> \<not> fl_le a b | _ \<Rightarrow> False)
      (finite_float (pget alert ''threshold'')))"

definition alert_series_matches :: "pdict \<Rightarrow> pdict \<Rightarrow> pdict option \<Rightarrow> bool res" where
  "alert_series_matches alert target expected_identity =
    (case standard_sli_series_identity (pget alert ''series_identity'') of
       None \<Rightarrow> Inr False
     | Some series_identity \<Rightarrow>
         rmap (\<lambda>ok. ok \<and> (case expected_identity of None \<Rightarrow> True
                          | Some expected \<Rightarrow> series_identity = expected))
           (metric_labels_match_target series_identity target))"

text \<open>The body of the loop of \<open>before_alert_snapshot\<close>: the alert is appended, or skipped.\<close>

definition snapshot_match ::
  "pdict \<Rightarrow> string \<Rightarrow> string \<Rightarrow> pdict option \<Rightarrow> pdict \<Rightarrow> pdict option res" where
  "snapshot_match target correlation_id incident_id expected_identity alert =
    rbind (alert_matches_target alert target) (\<lambda>on_target.
      let status = py_casefold (text_at alert ''status'')
      in if \<not> on_target
            \<or> text_at alert ''incident_id'' \<notin> {correlation_id, incident_id}
            \<or> py_casefold (text_at alert ''source'') \<noteq> ''alertmanager''
            \<or> text_at alert ''rule_name'' \<noteq> STANDARD_SLI_ALERT_NAME
            \<or> status \<notin> {''firing'', ''acked'', ''resolved''}
         then Inr None
         else rbind (alert_chronology_ok alert status) (\<lambda>chronology.
           if \<not> chronology then Inr None
           else rbind (alert_exceeds_threshold alert) (\<lambda>exceeds.
             if \<not> exceeds then Inr None
             else rmap (\<lambda>same. if same then Some alert else None)
                    (alert_series_matches alert target expected_identity))))"

definition alert_snapshot_unavailable :: "string \<Rightarrow> pdict" where
  "alert_snapshot_unavailable reason_code =
    [(''available'', PBool False), (''reason_code'', PStr reason_code)]"

definition alert_snapshot_of :: "pdict \<Rightarrow> pdict" where
  "alert_snapshot_of alert =
    [(''available'', PBool True),
     (''alert_event_id'', pget alert ''event_id''),
     (''rule_id'', pget alert ''rule_id''),
     (''rule_name'', pget alert ''rule_name''),
     (''source'', pget alert ''source''),
     (''subject_key'', pget alert ''subject_key''),
     (''series_identity'', pget alert ''series_identity''),
     (''observed_value'', pget alert ''observed_value''),
     (''threshold'', pget alert ''threshold''),
     (''fired_at'', pget alert ''fired_at''),
     (''subject'', pget alert ''subject'')]"

definition before_alert_snapshot ::
  "pdict list \<Rightarrow> pdict \<Rightarrow> string \<Rightarrow> string \<Rightarrow> py option \<Rightarrow> pdict res" where
  "before_alert_snapshot alerts target correlation_id incident_id expected_series_identity =
    (let expected_identity =
           (case expected_series_identity of None \<Rightarrow> None
            | Some value \<Rightarrow> standard_sli_series_identity value)
     in if expected_series_identity \<noteq> None \<and> expected_identity = None
        then Inr (alert_snapshot_unavailable ''pre_recovery_alert_missing'')
        else
          rmap (\<lambda>matches.
              case matches of
                [] \<Rightarrow> alert_snapshot_unavailable ''pre_recovery_alert_missing''
              | [alert] \<Rightarrow> alert_snapshot_of alert
              | _ \<Rightarrow> alert_snapshot_unavailable ''pre_recovery_alert_ambiguous'')
            (rcollect (snapshot_match target correlation_id incident_id expected_identity) alerts))"

subsection \<open>Lineage of an evidence window\<close>

fun lineage_of :: "py \<Rightarrow> pdict option" where
  "lineage_of (PDict payload) =
    (case pget payload ''_lineage'' of PDict lineage \<Rightarrow> Some lineage | _ \<Rightarrow> None)"
| "lineage_of _ = None"

definition evidence_source_lineages :: "pdict \<Rightarrow> pdict list" where
  "evidence_source_lineages evidence =
    List.map_filter (\<lambda>source. lineage_of (pget evidence source))
      [''kubernetes'', ''metrics'', ''traces'', ''metadata'']
    @ List.map_filter lineage_of (list_items (pget evidence ''logs''))"

type_synonym lineage_id = "string \<times> string \<times> string \<times> utc"

text \<open>The loop that reads one identity from every lineage; \<open>None\<close> is its early return.\<close>

fun lineage_identities :: "pdict list \<Rightarrow> lineage_id list option res" where
  "lineage_identities [] = Inr (Some [])"
| "lineage_identities (lineage # lineages) =
    rbind (parse_datetime (pget lineage ''window_start'')) (\<lambda>window_start.
      let workspace_id = text_at lineage ''workspace_id'';
          cluster_id = text_at lineage ''cluster_id'';
          evidence_key = text_at lineage ''evidence_key''
      in if workspace_id = [] \<or> cluster_id = [] \<or> evidence_key = [] then Inr None
         else
           (case window_start of
              None \<Rightarrow> Inr None
            | Some w \<Rightarrow>
                rmap (map_option (Cons (workspace_id, cluster_id, evidence_key, w)))
                  (lineage_identities lineages)))"

definition trusted_evidence_window_start :: "pdict \<Rightarrow> string \<Rightarrow> string \<Rightarrow> utc option res" where
  "trusted_evidence_window_start evidence expected_workspace_id expected_cluster_id =
    rbind (parse_datetime (pget evidence ''window_start'')) (\<lambda>top_window_start.
      let top_workspace_id = text_at evidence ''workspace_id'';
          top_cluster_id = text_at evidence ''cluster_id'';
          top_evidence_key = text_at evidence ''evidence_key'';
          lineages = evidence_source_lineages evidence
      in if expected_workspace_id \<noteq> [] \<and> top_workspace_id \<noteq> []
            \<and> top_workspace_id \<noteq> expected_workspace_id then Inr None
         else if expected_cluster_id \<noteq> [] \<and> top_cluster_id \<noteq> []
            \<and> top_cluster_id \<noteq> expected_cluster_id then Inr None
         else if lineages = [] then
           Inr (if top_window_start = None
                   \<or> (expected_workspace_id \<noteq> [] \<and> top_workspace_id \<noteq> expected_workspace_id)
                   \<or> (expected_cluster_id \<noteq> [] \<and> top_cluster_id \<noteq> expected_cluster_id)
                then None else top_window_start)
         else if mapping (pget (mapping (pget evidence ''metrics'')) ''_lineage'') = [] then Inr None
         else rmap (\<lambda>identities.
             case identities of
               Some ((workspace_id, cluster_id, evidence_key, window_start) # rest) \<Rightarrow>
                 if (\<exists>other \<in> set rest.
                        other \<noteq> (workspace_id, cluster_id, evidence_key, window_start))
                    \<or> (expected_workspace_id \<noteq> [] \<and> workspace_id \<noteq> expected_workspace_id)
                    \<or> (expected_cluster_id \<noteq> [] \<and> cluster_id \<noteq> expected_cluster_id)
                    \<or> (top_workspace_id \<noteq> [] \<and> workspace_id \<noteq> top_workspace_id)
                    \<or> (top_cluster_id \<noteq> [] \<and> cluster_id \<noteq> top_cluster_id)
                    \<or> (top_evidence_key \<noteq> [] \<and> evidence_key \<noteq> top_evidence_key)
                    \<or> (top_window_start \<noteq> None \<and> top_window_start \<noteq> Some window_start)
                 then None else Some window_start
             | _ \<Rightarrow> None)
           (lineage_identities lineages))"

subsection \<open>Times survive being stored\<close>

lemma py_replace_char_id: "c \<notin> set s \<Longrightarrow> py_replace_char c r s = s"
  by (induction s) (auto simp: py_replace_char_def)

lemma strip_isoformat: "py_strip (utc_isoformat u) \<noteq> []"
proof -
  have "CHR ''T'' \<in> set (utc_isoformat u)"
    by (simp add: utc_isoformat_def Let_def case_prod_beta)
  moreover have "\<not> is_py_space (CHR ''T'')" by (simp add: is_py_space_def)
  ultimately show ?thesis by (auto simp: py_strip_Nil_iff)
qed

lemma parse_isoformat:
  assumes "0 \<le> u" and "u < max_utc"
  shows "parse_datetime (PStr (utc_isoformat u)) = Inr (Some u)"
  using assms fromisoformat_isoformat [OF assms]
  by (simp add: parse_datetime_def py_replace_char_id utc_isoformat_no_Z strip_isoformat
      normalized_utc_def dtime_utc_def)

subsection \<open>What the alert checks establish\<close>

text \<open>An alert occurrence of the watched series, other than the original one, since the start.\<close>

definition refire :: "pdict \<Rightarrow> pdict \<Rightarrow> utc \<Rightarrow> pdict \<Rightarrow> bool" where
  "refire before_map target started alert \<longleftrightarrow>
    alert_matches_original_series alert before_map target = Inr True
    \<and> \<not> (text_at before_map ''alert_event_id'' \<noteq> []
          \<and> text_at alert ''event_id'' = text_at before_map ''alert_event_id'')
    \<and> (\<exists>fired. parse_datetime (pget alert ''fired_at'') = Inr (Some fired) \<and> started \<le> fired)"

definition original_occurrence :: "pdict \<Rightarrow> pdict \<Rightarrow> pdict \<Rightarrow> bool" where
  "original_occurrence before_map target alert \<longleftrightarrow>
    alert_matches_original_series alert before_map target = Inr True
    \<and> text_at before_map ''alert_event_id'' \<noteq> []
    \<and> text_at alert ''event_id'' = text_at before_map ''alert_event_id''"

lemma alert_step_Inr:
  assumes "alert_step before_map target (Some started) t x = Inr t'"
  shows "t' = (if original_occurrence before_map target x then Some x else fst t,
               snd t \<or> refire before_map target started x)"
proof -
  obtain ok where ok: "alert_matches_original_series x before_map target = Inr ok"
    using assms by (auto simp: alert_step_def rbind_Inr_iff)
  let ?same = "text_at before_map ''alert_event_id'' \<noteq> []
    \<and> text_at x ''event_id'' = text_at before_map ''alert_event_id''"
  consider (skip) "\<not> ok" | (orig) "ok" "?same" | (other) "ok" "\<not> ?same" by blast
  then show ?thesis
  proof cases
    case skip
    then show ?thesis
      using assms ok by (simp add: alert_step_def refire_def original_occurrence_def)
  next
    case orig
    then show ?thesis
      using assms ok
      by (simp add: alert_step_def refire_def original_occurrence_def Let_def)
  next
    case other
    then obtain fired where "parse_datetime (pget x ''fired_at'') = Inr fired"
      using assms ok by (auto simp: alert_step_def Let_def rmap_Inr_iff)
    then show ?thesis
      using assms ok other
      by (cases fired) (auto simp: alert_step_def refire_def original_occurrence_def Let_def)
  qed
qed

lemma alert_fold:
  assumes "rfold (alert_step before_map target (Some started)) (None, False) alerts = Inr (orig, refired)"
  shows "(\<forall>alert. orig = Some alert \<longrightarrow> alert \<in> set alerts \<and> original_occurrence before_map target alert)
    \<and> (refired \<longleftrightarrow> (\<exists>alert \<in> set alerts. refire before_map target started alert))"
proof -
  let ?I = "\<lambda>seen st. (\<forall>alert. fst st = Some alert \<longrightarrow>
      alert \<in> set seen \<and> original_occurrence before_map target alert)
    \<and> (snd st \<longleftrightarrow> (\<exists>alert \<in> set seen. refire before_map target started alert))"
  have "?I alerts (orig, refired)"
  proof (rule rfold_invariant [OF assms, where I = ?I])
    fix seen x t t'
    assume "?I seen t" and "alert_step before_map target (Some started) t x = Inr t'"
    then show "?I (seen @ [x]) t'" by (auto dest!: alert_step_Inr split: if_splits)
  qed simp
  then show ?thesis by simp
qed

lemma alert_checks_true:
  assumes "alert_checks alerts before_map target (Some started) = Inr (Some True, Some True)"
  shows "(\<exists>alert \<in> set alerts. original_occurrence before_map target alert
            \<and> py_casefold (text_at alert ''status'') = ''resolved''
            \<and> (\<exists>t. parse_datetime (pget alert ''resolved_at'') = Inr (Some t)))
    \<and> (\<forall>alert \<in> set alerts. \<not> refire before_map target started alert)"
proof -
  obtain orig refired where st:
    "rfold (alert_step before_map target (Some started)) (None, False) alerts = Inr (orig, refired)"
    using assms by (auto simp: alert_checks_def rbind_Inr_iff)
  show ?thesis
    using assms alert_fold [OF st]
    by (auto simp: alert_checks_def st rmap_Inr_iff split: option.splits if_splits)
qed

end
