(* ===== verification/Recovery_Verification.thy ===== *)
theory Recovery_Verification
  imports Recovery_Evidence
begin

text \<open>
  The decision half of \<open>src/src/domains/rca/recovery_verification.py\<close>: the fifteen checks of
  one evidence window and \<open>evaluate_recovery_evidence\<close>, which turns the window and the durable
  verification state into a decision. The reason shown to an operator is a value of
  \<open>reason\<close>, one constructor for each message of the source with the values it interpolates
  (and \<open>Reported\<close> for a text that comes with an event).
\<close>

subsection \<open>Decisions\<close>

definition DEFAULT_MINIMUM_SECONDS :: int where
  "DEFAULT_MINIMUM_SECONDS = 300"

definition DEFAULT_MAXIMUM_SECONDS :: int where
  "DEFAULT_MAXIMUM_SECONDS = 600"

datatype reason =
    Duplicate_Window
  | Stale_Window
  | Checks_Failed "string list"
  | Checks_Missing "string list"
  | Expired_Unhealthy reason
  | Cadence_Unknown
  | Expired_Unstable
  | Stabilizing int int
  | Verified int
  | Waiting_Post_Deploy
  | Reported string

record VerificationDecision =
  vd_status :: string
  vd_reason_code :: string
  vd_reason :: reason
  vd_after :: pdict
  vd_healthy_since :: "string option"
  vd_last_healthy_observed_at :: "string option"
  vd_distinct_evidence_count :: int
  vd_last_evidence_key :: "string option"

definition verification_deadline :: "utc \<Rightarrow> int \<Rightarrow> utc res" where
  "verification_deadline started_at maximum_seconds =
    (let deadline = started_at + maximum_seconds * 1000000
     in if 0 \<le> deadline \<and> deadline < max_utc then Inr deadline else Inl OverflowError)"

subsection \<open>Observation of one window\<close>

definition observed_after :: "pdict \<Rightarrow> pdict \<Rightarrow> pdict \<Rightarrow> py \<Rightarrow> py \<Rightarrow> py \<Rightarrow> pdict res" where
  "observed_after evidence target expected protected_baseline protected_session_baseline
     previous_session_samples =
    rbind (metric_sample evidence STANDARD_FAILURE_RATIO_METRIC target
             (mapping (pget expected ''failure_ratio_metric_identity''))) (\<lambda>failure_ratio.
    rbind (metric_sample evidence STANDARD_REQUEST_RATE_METRIC target
             (mapping (pget expected ''request_rate_metric_identity''))) (\<lambda>request_rate.
    rbind (deployment_replicas evidence target) (\<lambda>deployment.
    rbind (protected_workloads evidence target protected_baseline) (\<lambda>workloads.
    rbind (parse_datetime (pget evidence ''window_start'')) (\<lambda>observed_at.
    rmap (\<lambda>sessions.
       [(''failure_ratio'', opt_float failure_ratio),
        (''request_rate'', opt_float request_rate),
        (''deployment'', case deployment of None \<Rightarrow> PNone | Some d \<Rightarrow> PDict d),
        (''protected_workloads'',
           case workloads of None \<Rightarrow> PNone | Some ws \<Rightarrow> PList (map PDict ws)),
        (''protected_active_sessions'',
           case sessions of None \<Rightarrow> PNone | Some ss \<Rightarrow> PList (map PDict ss))])
      (protected_active_session_series evidence protected_baseline protected_session_baseline
         (py_or previous_session_samples protected_session_baseline) observed_at
         (Some CONTINUITY_SAMPLE_MAX_AGE_SECONDS)))))))"

subsection \<open>The checks\<close>

text \<open>\<open>a == b if a is not None and b is not None else None\<close>.\<close>

definition both_equal :: "int option \<Rightarrow> int option \<Rightarrow> bool option" where
  "both_equal x y = (case (x, y) of (Some a, Some b) \<Rightarrow> Some (a = b) | _ \<Rightarrow> None)"

record replica_status =
  rs_desired :: "int option"
  rs_ready :: "int option"
  rs_updated :: "int option"
  rs_available :: "int option"
  rs_unavailable :: "int option"
  rs_unavailable_omitted :: bool
  rs_generation :: "int option"
  rs_observed_generation :: "int option"

definition replica_status_of :: "pdict \<Rightarrow> replica_status res" where
  "replica_status_of deployment =
    rbind (nonnegative_int (pget deployment ''desired_replicas'')) (\<lambda>d.
    rbind (nonnegative_int (pget deployment ''ready_replicas'')) (\<lambda>r.
    rbind (nonnegative_int (pget deployment ''updated_replicas'')) (\<lambda>u.
    rbind (nonnegative_int (pget deployment ''available_replicas'')) (\<lambda>a.
    rbind (nonnegative_int (pget deployment ''unavailable_replicas'')) (\<lambda>n.
    rbind (nonnegative_int (pget deployment ''generation'')) (\<lambda>g.
    rbind (nonnegative_int (pget deployment ''observed_generation'')) (\<lambda>og.
    Inr \<lparr>rs_desired = d, rs_ready = r, rs_updated = u, rs_available = a, rs_unavailable = n,
         rs_unavailable_omitted = (pget deployment ''unavailable_replicas_omitted'' = PBool True),
         rs_generation = g, rs_observed_generation = og\<rparr>)))))))"

definition omitted_unavailable_means_zero :: "replica_status \<Rightarrow> int option \<Rightarrow> bool" where
  "omitted_unavailable_means_zero st replicas =
    (rs_unavailable_omitted st \<and> rs_unavailable st = None \<and> replicas \<noteq> None
     \<and> rs_desired st = replicas \<and> rs_ready st = replicas \<and> rs_updated st = replicas
     \<and> rs_available st = replicas
     \<and> (case (rs_generation st, rs_observed_generation st) of
          (Some g, Some og) \<Rightarrow> g \<le> og | _ \<Rightarrow> False))"

definition unavailable_check :: "replica_status \<Rightarrow> int option \<Rightarrow> bool option" where
  "unavailable_check st replicas =
    (case rs_unavailable st of
       Some n \<Rightarrow> Some (n = 0)
     | None \<Rightarrow> if omitted_unavailable_means_zero st replicas then Some True else None)"

definition failure_ratio_check :: "fl option \<Rightarrow> fl option \<Rightarrow> bool option" where
  "failure_ratio_check failure_ratio failure_ratio_max =
    (case (failure_ratio, failure_ratio_max) of
       (Some x, Some m) \<Rightarrow> Some (fl_le x m) | _ \<Rightarrow> None)"

definition request_rate_check :: "fl option \<Rightarrow> fl option \<Rightarrow> fl option \<Rightarrow> bool option" where
  "request_rate_check request_rate baseline tolerance =
    (case (request_rate, baseline, tolerance) of
       (Some x, Some b, Some t) \<Rightarrow>
         if fl_lt (Fin 0) b \<and> fl_le (Fin 0) t \<and> fl_lt t (Fin 1)
         then Some (fl_le (fl_abs (fl_sub x b)) (fl_mul b t)) else None
     | _ \<Rightarrow> None)"

definition protected_all_healthy :: "py \<Rightarrow> bool option res" where
  "protected_all_healthy protected =
    (case protected of
       PList items \<Rightarrow>
         rmap Some (rall (\<lambda>item. case item of
                       PDict d \<Rightarrow> Inr (pget d ''healthy'' = PBool True)
                     | _ \<Rightarrow> Inl AttributeError) items)
     | _ \<Rightarrow> Inr None)"

fun py_len :: "py \<Rightarrow> int option" where
  "py_len (PList xs) = Some (int (length xs))"
| "py_len _ = None"

definition verification_checks ::
  "pdict \<Rightarrow> pdict list \<Rightarrow> pdict \<Rightarrow> pdict \<Rightarrow> pdict \<Rightarrow> py \<Rightarrow> py \<Rightarrow> utc option
    \<Rightarrow> (string \<times> bool option) list res" where
  "verification_checks after_map alerts before_map target expected protected_baseline
     protected_session_baseline verification_started_at =
    rbind (finite_float (pget after_map ''failure_ratio'')) (\<lambda>failure_ratio.
    rbind (finite_float (pget after_map ''request_rate'')) (\<lambda>request_rate.
    rbind (finite_float (pget expected ''failure_ratio_max'')) (\<lambda>failure_ratio_max.
    rbind (finite_float (pget expected ''request_rate_baseline'')) (\<lambda>request_rate_baseline.
    rbind (finite_float (pget expected ''request_rate_tolerance_ratio'')) (\<lambda>tolerance.
    rbind (nonnegative_int (pget expected ''replicas'')) (\<lambda>replicas.
    rbind (replica_status_of (mapping (pget after_map ''deployment''))) (\<lambda>st.
    rbind (nonnegative_int (pget expected ''protected_workloads'')) (\<lambda>protected_opt.
    rbind (protected_all_healthy (pget after_map ''protected_workloads'')) (\<lambda>protected_healthy.
    rbind (protected_active_sessions_maintained protected_session_baseline
             (pget after_map ''protected_active_sessions'')) (\<lambda>sessions_maintained.
    rmap (\<lambda>(alert_resolved, no_refire).
      let protected_expected = (case protected_opt of None \<Rightarrow> 0 | Some n \<Rightarrow> n);
          protected = pget after_map ''protected_workloads'';
          session_count = py_len (pget after_map ''protected_active_sessions'');
          when_protected = (\<lambda>check. if 0 < protected_expected then check else Some True)
      in [(''failure_ratio_below_threshold'', failure_ratio_check failure_ratio failure_ratio_max),
          (''request_rate_near_baseline'',
             request_rate_check request_rate request_rate_baseline tolerance),
          (''desired_replicas_restored'', both_equal (rs_desired st) replicas),
          (''ready_replicas_restored'', both_equal (rs_ready st) replicas),
          (''updated_replicas_restored'', both_equal (rs_updated st) replicas),
          (''available_replicas_restored'', both_equal (rs_available st) replicas),
          (''unavailable_replicas_zero'', unavailable_check st replicas),
          (''deployment_generation_observed'',
             both_equal (rs_observed_generation st) (rs_generation st)),
          (''protected_workloads_present'',
             when_protected (map_option (\<lambda>n. protected_expected \<le> n) (py_len protected))),
          (''protected_workloads_healthy'', when_protected protected_healthy),
          (''protected_workloads_uninterrupted'',
             when_protected (protected_workloads_unchanged protected_baseline protected)),
          (''protected_active_session_series_present'',
             when_protected (both_equal session_count (py_len protected_session_baseline))),
          (''protected_active_sessions_maintained'', when_protected sessions_maintained),
          (''alertmanager_resolved'', alert_resolved),
          (''alertmanager_no_refire'', no_refire)])
    (alert_checks alerts before_map target verification_started_at)))))))))))"

subsection \<open>Evaluation of one evidence window\<close>

definition str_opt :: "string \<Rightarrow> string option" where
  "str_opt s = (if s = [] then None else Some s)"

text \<open>\<open>evidence_key or previous_key or None\<close>.\<close>

definition next_key :: "string \<Rightarrow> string \<Rightarrow> string option" where
  "next_key evidence_key previous_key =
    (if evidence_key \<noteq> [] then Some evidence_key else str_opt previous_key)"

definition expired :: "utc option \<Rightarrow> utc \<Rightarrow> bool" where
  "expired deadline_at now = (case deadline_at of None \<Rightarrow> False | Some d \<Rightarrow> d \<le> now)"

definition failed_checks :: "(string \<times> bool option) list \<Rightarrow> string list" where
  "failed_checks checks = map fst (filter (\<lambda>(_, value). value = Some False) checks)"

definition missing_checks :: "(string \<times> bool option) list \<Rightarrow> string list" where
  "missing_checks checks = map fst (filter (\<lambda>(_, value). value = None) checks)"

text \<open>A window that is not counted: the durable counters are handed back as they were.\<close>

definition unchanged_decision ::
  "string \<Rightarrow> reason \<Rightarrow> pdict \<Rightarrow> pdict \<Rightarrow> utc option \<Rightarrow> int \<Rightarrow> string \<Rightarrow> VerificationDecision" where
  "unchanged_decision code why after_map verification previous_observed_at distinct_count
     previous_key =
    \<lparr>vd_status = ''pending'', vd_reason_code = code, vd_reason = why, vd_after = after_map,
     vd_healthy_since = str_opt (text_at verification ''healthy_since''),
     vd_last_healthy_observed_at = map_option utc_isoformat previous_observed_at,
     vd_distinct_evidence_count = distinct_count,
     vd_last_evidence_key = str_opt previous_key\<rparr>"

text \<open>A regression or a gap in the evidence: the stabilisation starts over.\<close>

definition reset_decision ::
  "string \<Rightarrow> string \<Rightarrow> reason \<Rightarrow> pdict \<Rightarrow> string option \<Rightarrow> VerificationDecision" where
  "reset_decision st code why after_map key =
    \<lparr>vd_status = st, vd_reason_code = code, vd_reason = why, vd_after = after_map,
     vd_healthy_since = None, vd_last_healthy_observed_at = None,
     vd_distinct_evidence_count = 0, vd_last_evidence_key = key\<rparr>"

definition unhealthy_decision ::
  "(string \<times> bool option) list \<Rightarrow> utc option \<Rightarrow> utc \<Rightarrow> pdict \<Rightarrow> string option
    \<Rightarrow> VerificationDecision" where
  "unhealthy_decision checks deadline_at now after_map key =
    (let failed = failed_checks checks;
         code = (if failed \<noteq> [] then ''verification_regressed''
                 else ''verification_evidence_missing'');
         why = (if failed \<noteq> [] then Checks_Failed failed
                else Checks_Missing (missing_checks checks))
     in if expired deadline_at now
        then reset_decision ''failed'' ''verification_window_expired'' (Expired_Unhealthy why)
               after_map key
        else reset_decision ''pending'' code why after_map key)"

definition minimum_distinct :: "int \<Rightarrow> int \<Rightarrow> int res" where
  "minimum_distinct minimum_seconds cadence_seconds =
    rbind (int_truediv minimum_seconds cadence_seconds) (\<lambda>q.
    rmap (\<lambda>n. max 2 (n + 1)) (ceil_of_fl q))"

text \<open>The continuity of two healthy windows: later, and no further than \<open>cadence * 1.5\<close>.\<close>

definition gap_ok :: "int \<Rightarrow> utc option \<Rightarrow> utc \<Rightarrow> bool res" where
  "gap_ok cadence_seconds previous_observed_at observed_at =
    rmap (\<lambda>c.
      case previous_observed_at of
        None \<Rightarrow> True
      | Some previous \<Rightarrow>
          (let gap_seconds = total_seconds (observed_at - previous)
           in \<not> (fl_le gap_seconds (Fin 0) \<or> fl_lt (fl_mul c (Fin (3 / 2))) gap_seconds)))
     (float_of_int cadence_seconds)"

definition max_zero :: "fl \<Rightarrow> fl" where
  "max_zero x = (if fl_lt (Fin 0) x then x else Fin 0)"

text \<open>A healthy window that counts: the durable counters move on to it.\<close>

definition counted_decision ::
  "string \<Rightarrow> string \<Rightarrow> reason \<Rightarrow> pdict \<Rightarrow> utc \<Rightarrow> utc \<Rightarrow> int \<Rightarrow> string option \<Rightarrow> VerificationDecision"
where
  "counted_decision st code why after_map stable_from observed_at distinct_count key =
    \<lparr>vd_status = st, vd_reason_code = code, vd_reason = why, vd_after = after_map,
     vd_healthy_since = Some (utc_isoformat stable_from),
     vd_last_healthy_observed_at = Some (utc_isoformat observed_at),
     vd_distinct_evidence_count = distinct_count,
     vd_last_evidence_key = key\<rparr>"

definition stable_after :: "pdict \<Rightarrow> utc \<Rightarrow> fl \<Rightarrow> int \<Rightarrow> pdict" where
  "stable_after after_map stable_from stable_seconds distinct_count =
    dict_update after_map
      [(''healthy_since'', PStr (utc_isoformat stable_from)),
       (''stable_seconds'', PFloat stable_seconds),
       (''distinct_evidence_count'', PInt distinct_count)]"

definition stable_decision ::
  "int \<Rightarrow> int \<Rightarrow> utc option \<Rightarrow> utc \<Rightarrow> utc \<Rightarrow> utc \<Rightarrow> int \<Rightarrow> pdict \<Rightarrow> string option
    \<Rightarrow> VerificationDecision res" where
  "stable_decision minimum_seconds cadence_seconds deadline_at now observed_at stable_from
     distinct_count after_map key =
    (let stable_seconds = max_zero (total_seconds (observed_at - stable_from));
         decision = (\<lambda>st code why. counted_decision st code why
           (stable_after after_map stable_from stable_seconds distinct_count) stable_from
           observed_at distinct_count key)
     in rbind (minimum_distinct minimum_seconds cadence_seconds) (\<lambda>required.
        if fl_lt stable_seconds (Fin (of_int minimum_seconds)) \<or> distinct_count < required
        then
          if expired deadline_at now
          then Inr (decision ''failed'' ''verification_window_expired'' Expired_Unstable)
          else rmap (\<lambda>shown. decision ''pending'' ''stabilization_window_in_progress''
                       (Stabilizing shown minimum_seconds))
                 (int_of_fl stable_seconds)
        else Inr (decision ''completed'' ''recovery_verified'' (Verified minimum_seconds))))"

definition healthy_decision ::
  "pdict \<Rightarrow> int \<Rightarrow> utc option \<Rightarrow> utc \<Rightarrow> utc \<Rightarrow> utc option \<Rightarrow> utc option \<Rightarrow> int \<Rightarrow> pdict
    \<Rightarrow> string option \<Rightarrow> VerificationDecision res" where
  "healthy_decision expected minimum_seconds deadline_at now observed_at previous_observed_at
     healthy_since distinct_count after_map key =
    rbind (nonnegative_int (pget expected ''evidence_cadence_seconds'')) (\<lambda>cadence.
      case cadence of
        None \<Rightarrow> Inr (reset_decision ''pending'' ''verification_evidence_missing'' Cadence_Unknown
                       after_map key)
      | Some cadence_seconds \<Rightarrow>
          if cadence_seconds \<le> 0
          then Inr (reset_decision ''pending'' ''verification_evidence_missing'' Cadence_Unknown
                      after_map key)
          else rbind (gap_ok cadence_seconds previous_observed_at observed_at) (\<lambda>continuous.
            stable_decision minimum_seconds cadence_seconds deadline_at now observed_at
              (case (if continuous then healthy_since else None) of
                 None \<Rightarrow> observed_at | Some since \<Rightarrow> since)
              ((if continuous then distinct_count else 0) + 1) after_map key))"

text \<open>The checks as the value stored under \<open>after["checks"]\<close>.\<close>

definition checks_value :: "(string \<times> bool option) list \<Rightarrow> py" where
  "checks_value checks = PDict (map (\<lambda>(name, value). (name, opt_bool value)) checks)"

definition recorded_after ::
  "pdict \<Rightarrow> (string \<times> bool option) list \<Rightarrow> utc \<Rightarrow> utc option \<Rightarrow> string \<Rightarrow> pdict" where
  "recorded_after after_map checks now evidence_observed_at evidence_key =
    dict_update after_map
      ([(''checks'', checks_value checks), (''observed_at'', PStr (utc_isoformat now))]
       @ (case evidence_observed_at of None \<Rightarrow> []
          | Some t \<Rightarrow> [(''evidence_observed_at'', PStr (utc_isoformat t))])
       @ (if evidence_key = [] then [] else [(''evidence_ref'', PStr evidence_key)]))"

text \<open>\<open>dict(mapping(verification.get("target"))) or recovery_target(plan_payload)\<close>.\<close>

definition verification_target :: "pdict \<Rightarrow> pdict \<Rightarrow> pdict" where
  "verification_target verification plan_payload =
    (let target = mapping (pget verification ''target'')
     in if target = [] then recovery_target plan_payload else target)"

text \<open>One window as read: the times and bounds of the verification, and the observation.\<close>

record window =
  w_started_at :: "utc option"
  w_deadline_at :: "utc option"
  w_minimum_seconds :: int
  w_observed_at :: "utc option"
  w_key :: string
  w_now :: utc
  w_checks :: "(string \<times> bool option) list"
  w_after :: pdict

abbreviation verification_of :: "pdict \<Rightarrow> pdict" where
  "verification_of lifecycle \<equiv> mapping (pget lifecycle ''verification'')"

abbreviation expected_of :: "pdict \<Rightarrow> pdict" where
  "expected_of lifecycle \<equiv> mapping (pget (verification_of lifecycle) ''expected'')"

definition read_window ::
  "pdict \<Rightarrow> pdict \<Rightarrow> pdict \<Rightarrow> pdict list \<Rightarrow> dtime \<Rightarrow> window res" where
  "read_window plan_payload verification evidence alerts now =
    (let expected = mapping (pget verification ''expected'');
         target = verification_target verification plan_payload;
         evidence_key = text_at evidence ''evidence_key'';
         protected_baseline = pget verification ''protected_baseline'';
         session_baseline = pget verification ''protected_session_baseline''
     in rbind (parse_datetime (pget verification ''started_at'')) (\<lambda>started_at.
        rbind (parse_datetime (pget verification ''deadline_at'')) (\<lambda>deadline_at.
        rbind (bounded_seconds (pget verification ''minimum_seconds'') DEFAULT_MINIMUM_SECONDS
                 DEFAULT_MINIMUM_SECONDS DEFAULT_MAXIMUM_SECONDS) (\<lambda>minimum_seconds.
        rbind (parse_datetime (pget evidence ''window_start'')) (\<lambda>evidence_observed_at.
        rbind (observed_after evidence target expected protected_baseline session_baseline
                 (pget verification ''last_session_samples'')) (\<lambda>observed.
        rbind (verification_checks observed alerts (mapping (pget verification ''before'')) target
                 expected protected_baseline session_baseline started_at) (\<lambda>checks.
        rmap (\<lambda>now.
          \<lparr>w_started_at = started_at, w_deadline_at = deadline_at,
           w_minimum_seconds = minimum_seconds, w_observed_at = evidence_observed_at,
           w_key = evidence_key, w_now = now, w_checks = checks,
           w_after = recorded_after observed checks now evidence_observed_at evidence_key\<rparr>)
          (normalized_utc now))))))))"

definition decide_window :: "pdict \<Rightarrow> window \<Rightarrow> VerificationDecision res" where
  "decide_window verification w =
    rbind (parse_datetime (pget verification ''last_healthy_observed_at''))
      (\<lambda>previous_observed_at.
    rbind (nonnegative_int (pget verification ''distinct_evidence_count'')) (\<lambda>count.
      let previous_key = text_at verification ''last_evidence_key'';
          distinct_count = (case count of None \<Rightarrow> 0 | Some n \<Rightarrow> n);
          key = next_key (w_key w) previous_key
      in if w_key w \<noteq> [] \<and> w_key w = previous_key
         then Inr (unchanged_decision ''duplicate_evidence_window'' Duplicate_Window (w_after w)
                     verification previous_observed_at distinct_count previous_key)
         else
           (case (w_observed_at w, w_started_at w) of
              (Some observed_at, Some started) \<Rightarrow>
                if observed_at < started \<or> w_now w < observed_at
                then Inr (unchanged_decision ''stale_evidence_window'' Stale_Window (w_after w)
                            verification previous_observed_at distinct_count previous_key)
                else rbind (parse_datetime (pget verification ''healthy_since'')) (\<lambda>since.
                  if failed_checks (w_checks w) \<noteq> [] \<or> missing_checks (w_checks w) \<noteq> []
                  then Inr (unhealthy_decision (w_checks w) (w_deadline_at w) (w_now w)
                              (w_after w) key)
                  else healthy_decision (mapping (pget verification ''expected''))
                         (w_minimum_seconds w) (w_deadline_at w) (w_now w) observed_at
                         previous_observed_at since distinct_count (w_after w) key)
            | _ \<Rightarrow> Inr (unchanged_decision ''stale_evidence_window'' Stale_Window (w_after w)
                          verification previous_observed_at distinct_count previous_key))))"

definition evaluate_recovery_evidence ::
  "pdict \<Rightarrow> pdict \<Rightarrow> pdict \<Rightarrow> pdict list \<Rightarrow> dtime \<Rightarrow> VerificationDecision res" where
  "evaluate_recovery_evidence plan_payload lifecycle evidence alerts now =
    (let verification = mapping (pget lifecycle ''verification'')
     in rbind (read_window plan_payload verification evidence alerts now)
          (decide_window verification))"

subsection \<open>Shape of the checks\<close>

definition check_names :: "string list" where
  "check_names =
    [''failure_ratio_below_threshold'', ''request_rate_near_baseline'',
     ''desired_replicas_restored'', ''ready_replicas_restored'', ''updated_replicas_restored'',
     ''available_replicas_restored'', ''unavailable_replicas_zero'',
     ''deployment_generation_observed'', ''protected_workloads_present'',
     ''protected_workloads_healthy'', ''protected_workloads_uninterrupted'',
     ''protected_active_session_series_present'', ''protected_active_sessions_maintained'',
     ''alertmanager_resolved'', ''alertmanager_no_refire'']"

lemma verification_checks_names:
  "verification_checks a al b t e pb sb st = Inr checks \<Longrightarrow> map fst checks = check_names"
  by (auto simp: verification_checks_def rbind_Inr_iff rmap_Inr_iff check_names_def Let_def)

lemma no_failed_or_missing:
  "failed_checks checks = [] \<and> missing_checks checks = []
    \<longleftrightarrow> (\<forall>(name, value) \<in> set checks. value = Some True)"
  by (auto simp: failed_checks_def missing_checks_def filter_empty_conv)

lemma checks_all_true:
  assumes "failed_checks checks = []" and "missing_checks checks = []"
  shows "checks = map (\<lambda>name. (name, Some True)) (map fst checks)"
  using no_failed_or_missing [of checks] assms by (induction checks) (auto simp: failed_checks_def missing_checks_def split: if_splits)

subsection \<open>The number of windows required\<close>

lemma ceil_rounded_quotient:
  assumes "0 < m" and "m \<le> 600" and "0 < c" and "c \<le> m"
  shows "\<lceil>rnd_pos (of_int m / of_int c)\<rceil> = \<lceil>(of_int m / of_int c :: rat)\<rceil>"
proof -
  let ?x = "of_int m / of_int c :: rat"
  define n where "n = \<lceil>?x\<rceil>"
  have c: "(0 :: rat) < of_int c" using assms by simp
  have x: "1 \<le> ?x" "?x \<le> 600"
    using assms c by (simp_all add: le_divide_eq divide_le_eq)
  have n: "of_int n - 1 < ?x" "?x \<le> of_int n" "n \<le> 600"
    using x by (auto simp: n_def ceiling_le_iff) linarith+
  have "(of_int ((n - 1) * c) :: rat) < of_int m"
    using n(1) c by (simp add: less_divide_eq)
  then have "(n - 1) * c < m" by (simp only: of_int_less_iff)
  then have "(n - 1) * c + 1 \<le> m" by simp
  then have "(of_int ((n - 1) * c + 1) :: rat) \<le> of_int m" by (simp only: of_int_le_iff)
  then have "(of_int n - 1 + 1 / of_int c) * of_int c \<le> (of_int m :: rat)"
    using c by (simp add: distrib_right)
  then have "of_int n - 1 + 1 / of_int c \<le> ?x"
    using c by (simp only: le_divide_eq) simp
  moreover have "(1 / 600 :: rat) \<le> 1 / of_int c"
    using assms c by (intro divide_left_mono) auto
  moreover have "?x / 2 ^ 53 < 1 / 600" using x(2) by simp
  moreover have "?x - ?x / 2 ^ 53 \<le> rnd_pos ?x"
    using rnd_pos_error [OF x(1)] by linarith
  ultimately have "of_int n - 1 < rnd_pos ?x" by linarith
  moreover have "rnd_pos ?x \<le> of_int n"
    using rnd_pos_mono [OF _ n(2)] rnd_pos_exact [of n 0] n x by simp
  ultimately show ?thesis by (simp add: n_def [symmetric] ceiling_eq_iff)
qed

text \<open>
  The rounding of \<open>minimum_seconds / cadence_seconds\<close> never changes the number of windows.
\<close>

lemma minimum_distinct_exact:
  assumes "0 < m" and "m \<le> 600" and "0 < c"
  shows "minimum_distinct m c = Inr (max 2 (\<lceil>(of_int m / of_int c :: rat)\<rceil> + 1))"
proof -
  let ?x = "of_int m / of_int c :: rat"
  have pos: "0 < ?x" using assms by simp
  have "?x \<le> of_int m" using assms by (simp add: divide_le_eq)
  then have "rnd_pos ?x \<le> of_int m"
    using rnd_pos_mono [of ?x "of_int m"] rnd_pos_exact [of m 0] assms pos by simp
  moreover have "(of_int m :: rat) \<le> 600" using assms by simp
  ultimately have fin: "fl_of_rat ?x = Fin (rnd_pos ?x)"
    using pos by (simp add: fl_of_rat_def)
  have "max 2 (\<lceil>rnd_pos ?x\<rceil> + 1) = max 2 (\<lceil>?x\<rceil> + 1)"
  proof (cases "c \<le> m")
    case True
    then show ?thesis using ceil_rounded_quotient assms by simp
  next
    case False
    then have "?x \<le> 1" using assms by (simp add: divide_le_eq)
    then have "rnd_pos ?x \<le> 1"
      using rnd_pos_mono [of ?x 1] rnd_pos_exact [of 1 0] pos by simp
    then have "\<lceil>rnd_pos ?x\<rceil> \<le> 1" "\<lceil>?x\<rceil> \<le> 1" using \<open>?x \<le> 1\<close> by (simp_all add: ceiling_le_iff)
    then show ?thesis by simp
  qed
  then show ?thesis
    using assms(3) by (simp add: minimum_distinct_def int_truediv_def ceil_of_fl_def fin)
qed

subsection \<open>Case analysis of a decision\<close>

lemma bounded_seconds_range:
  assumes "bounded_seconds v d lo hi = Inr n" and "lo \<le> hi" and "lo \<le> d" and "d \<le> hi"
  shows "lo \<le> n \<and> n \<le> hi"
  using assms by (auto simp: bounded_seconds_def rmap_Inr_iff split: option.splits)

lemma minimum_range:
  "bounded_seconds v 300 300 600 = Inr n \<Longrightarrow> 300 \<le> n \<and> n \<le> 600"
  by (drule bounded_seconds_range) simp_all

lemma evaluate_Inr_iff:
  "evaluate_recovery_evidence plan_payload lifecycle evidence alerts now = Inr d \<longleftrightarrow>
    (\<exists>w. read_window plan_payload (verification_of lifecycle) evidence alerts now = Inr w
       \<and> decide_window (verification_of lifecycle) w = Inr d)"
  by (simp add: evaluate_recovery_evidence_def rbind_Inr_iff Let_def)

text \<open>Reading a window uses these fields of the durable state only.\<close>

lemma read_window_fields:
  assumes "\<forall>k \<in> {''expected'', ''target'', ''started_at'', ''deadline_at'', ''minimum_seconds'',
    ''protected_baseline'', ''protected_session_baseline'', ''last_session_samples'', ''before''}.
    pget v k = pget v' k"
  shows "read_window plan_payload v evidence alerts now = read_window plan_payload v' evidence alerts now"
  using assms by (simp add: read_window_def verification_target_def)

lemma read_windowE:
  assumes "read_window plan_payload v evidence alerts now = Inr w"
  obtains observed where
    "parse_datetime (pget v ''started_at'') = Inr (w_started_at w)"
    "parse_datetime (pget v ''deadline_at'') = Inr (w_deadline_at w)"
    "bounded_seconds (pget v ''minimum_seconds'') DEFAULT_MINIMUM_SECONDS DEFAULT_MINIMUM_SECONDS
       DEFAULT_MAXIMUM_SECONDS = Inr (w_minimum_seconds w)"
    "300 \<le> w_minimum_seconds w" "w_minimum_seconds w \<le> 600"
    "parse_datetime (pget evidence ''window_start'') = Inr (w_observed_at w)"
    "w_key w = text_at evidence ''evidence_key''"
    "normalized_utc now = Inr (w_now w)"
    "observed_after evidence (verification_target v plan_payload) (mapping (pget v ''expected''))
       (pget v ''protected_baseline'') (pget v ''protected_session_baseline'')
       (pget v ''last_session_samples'') = Inr observed"
    "verification_checks observed alerts (mapping (pget v ''before''))
       (verification_target v plan_payload) (mapping (pget v ''expected''))
       (pget v ''protected_baseline'') (pget v ''protected_session_baseline'')
       (w_started_at w) = Inr (w_checks w)"
    "w_after w = recorded_after observed (w_checks w) (w_now w) (w_observed_at w) (w_key w)"
proof -
  show thesis
    using assms unfolding read_window_def Let_def
    apply (elim rbind_InrE)
    apply (simp only: rmap_Inr_iff, elim exE conjE)
    subgoal for started deadline minimum obs observed checks now'
      using minimum_range [of "pget v ''minimum_seconds''" minimum]
      by (intro that [of observed])
        (simp_all add: DEFAULT_MINIMUM_SECONDS_def DEFAULT_MAXIMUM_SECONDS_def)
    done
qed

text \<open>The window counts: it is new, and collected between the start and now.\<close>

definition fresh_window :: "pdict \<Rightarrow> window \<Rightarrow> bool" where
  "fresh_window v w \<longleftrightarrow>
    (w_key w = [] \<or> w_key w \<noteq> text_at v ''last_evidence_key'')
    \<and> (case (w_observed_at w, w_started_at w) of
         (Some observed_at, Some started) \<Rightarrow> started \<le> observed_at \<and> observed_at \<le> w_now w
       | _ \<Rightarrow> False)"

definition healthy_window :: "window \<Rightarrow> bool" where
  "healthy_window w \<longleftrightarrow> failed_checks (w_checks w) = [] \<and> missing_checks (w_checks w) = []"

lemma fresh_windowE:
  assumes "fresh_window v w"
  obtains obs s where "w_observed_at w = Some obs" "w_started_at w = Some s"
    "s \<le> obs" "obs \<le> w_now w"
  using assms
  by (cases "w_observed_at w"; cases "w_started_at w") (auto simp: fresh_window_def)

lemma decide_window_cases:
  assumes "decide_window v w = Inr d"
  obtains
    (unchanged) code why prev count where
      "\<not> fresh_window v w"
      "parse_datetime (pget v ''last_healthy_observed_at'') = Inr prev"
      "nonnegative_int (pget v ''distinct_evidence_count'') = Inr count"
      "d = unchanged_decision code why (w_after w) v prev (case count of None \<Rightarrow> 0 | Some n \<Rightarrow> n)
             (text_at v ''last_evidence_key'')"
      "code = (if w_key w \<noteq> [] \<and> w_key w = text_at v ''last_evidence_key''
               then ''duplicate_evidence_window'' else ''stale_evidence_window'')"
  | (unhealthy)
      "fresh_window v w" "\<not> healthy_window w"
      "d = unhealthy_decision (w_checks w) (w_deadline_at w) (w_now w) (w_after w)
             (next_key (w_key w) (text_at v ''last_evidence_key''))"
  | (healthy) prev count since obs where
      "fresh_window v w" "healthy_window w"
      "parse_datetime (pget v ''last_healthy_observed_at'') = Inr prev"
      "nonnegative_int (pget v ''distinct_evidence_count'') = Inr count"
      "parse_datetime (pget v ''healthy_since'') = Inr since"
      "w_observed_at w = Some obs"
      "healthy_decision (mapping (pget v ''expected'')) (w_minimum_seconds w) (w_deadline_at w)
         (w_now w) obs prev since (case count of None \<Rightarrow> 0 | Some n \<Rightarrow> n) (w_after w)
         (next_key (w_key w) (text_at v ''last_evidence_key'')) = Inr d"
proof -
  obtain prev count where pc:
    "parse_datetime (pget v ''last_healthy_observed_at'') = Inr prev"
    "nonnegative_int (pget v ''distinct_evidence_count'') = Inr count"
    using assms by (auto simp: decide_window_def rbind_Inr_iff)
  consider (dup) "w_key w \<noteq> [] \<and> w_key w = text_at v ''last_evidence_key''"
    | (stale) "\<not> (w_key w \<noteq> [] \<and> w_key w = text_at v ''last_evidence_key'')" "\<not> fresh_window v w"
    | (fresh) obs s where "fresh_window v w" "w_observed_at w = Some obs" "w_started_at w = Some s"
        "s \<le> obs" "obs \<le> w_now w"
    by (meson fresh_windowE)
  then show thesis
  proof cases
    case dup
    then show thesis
      using assms pc by (intro unchanged) (auto simp: decide_window_def fresh_window_def)
  next
    case stale
    then show thesis
      using assms pc
      by (intro unchanged) (auto simp: decide_window_def fresh_window_def Let_def split: option.splits)
  next
    case fresh
    let ?k = "next_key (w_key w) (text_at v ''last_evidence_key'')"
    have "\<not> (w_key w \<noteq> [] \<and> w_key w = text_at v ''last_evidence_key'')"
      using fresh(1) by (auto simp: fresh_window_def)
    then obtain since where since: "parse_datetime (pget v ''healthy_since'') = Inr since"
      and d: "(if \<not> healthy_window w
               then Inr (unhealthy_decision (w_checks w) (w_deadline_at w) (w_now w) (w_after w) ?k)
               else healthy_decision (mapping (pget v ''expected'')) (w_minimum_seconds w)
                 (w_deadline_at w) (w_now w) obs prev since
                 (case count of None \<Rightarrow> 0 | Some n \<Rightarrow> n) (w_after w) ?k) = Inr d"
      using assms pc fresh
      by (auto simp: decide_window_def Let_def rbind_Inr_iff healthy_window_def not_less
          simp del: rbind_simps)
    show thesis
    proof (cases "healthy_window w")
      case True
      then show thesis using d fresh pc since by (intro healthy) auto
    next
      case False
      then show thesis using d fresh by (intro unhealthy) auto
    qed
  qed
qed

text \<open>The floating-point comparison of the stable time is exact to the microsecond.\<close>

lemma stable_below_minimum:
  assumes "300 \<le> m" and "m \<le> 600"
  shows "fl_lt (max_zero (total_seconds us)) (Fin (of_int m)) \<longleftrightarrow> us < m * 1000000"
proof -
  have "fl_le (Fin (of_int (2 * m) / 2)) (total_seconds us) \<longleftrightarrow> 2 * m * 500000 \<le> us"
    by (rule total_seconds_ge_half) (use assms in simp_all)
  then have ge: "fl_le (Fin (of_int m)) (total_seconds us) \<longleftrightarrow> m * 1000000 \<le> us"
    by (simp add: mult.commute)
  have nn: "total_seconds us \<noteq> NaN" by (simp add: total_seconds_def fl_of_rat_not_NaN)
  show ?thesis
  proof (cases "fl_lt (Fin 0) (total_seconds us)")
    case True
    then show ?thesis
      using ge nn by (auto simp: max_zero_def fl_lt_not_le not_le)
  next
    case False
    then have "us \<le> 0"
      using nn total_seconds_le_0 [of us] by (simp add: fl_lt_not_le)
    moreover have "max_zero (total_seconds us) = Fin 0" using False by (simp add: max_zero_def)
    ultimately show ?thesis
      using assms by (simp add: fl_lt_Fin)
  qed
qed

definition stable_enough :: "int \<Rightarrow> int \<Rightarrow> int \<Rightarrow> int \<Rightarrow> bool" where
  "stable_enough minimum_seconds cadence_seconds stable_us distinct_count \<longleftrightarrow>
    minimum_seconds * 1000000 \<le> stable_us
    \<and> max 2 (\<lceil>(of_int minimum_seconds / of_int cadence_seconds :: rat)\<rceil> + 1) \<le> distinct_count"

lemma stable_decision_Inr:
  assumes "stable_decision m c deadline now o' s n a key = Inr d"
    and "300 \<le> m" and "m \<le> 600" and "0 < c"
  shows "\<exists>code why. code \<notin> {''duplicate_evidence_window'', ''stale_evidence_window''} \<and> d = counted_decision
      (if stable_enough m c (o' - s) n then ''completed''
       else if expired deadline now then ''failed'' else ''pending'') code why
      (stable_after a s (max_zero (total_seconds (o' - s))) n) s o' n key"
proof -
  have low: "(fl_lt (max_zero (total_seconds (o' - s))) (Fin (of_int m))
      \<or> n < max 2 (\<lceil>(of_int m / of_int c :: rat)\<rceil> + 1)) = (\<not> stable_enough m c (o' - s) n)"
    using stable_below_minimum [OF assms(2,3), of "o' - s"]
    unfolding stable_enough_def by (simp only: not_le [symmetric] de_Morgan_conj)
  have required: "minimum_distinct m c = Inr (max 2 (\<lceil>(of_int m / of_int c :: rat)\<rceil> + 1))"
    by (rule minimum_distinct_exact) (use assms in simp_all)
  let ?d = "\<lambda>st code why. counted_decision st code why
    (stable_after a s (max_zero (total_seconds (o' - s))) n) s o' n key"
  have "d = ?d (if stable_enough m c (o' - s) n then ''completed''
       else if expired deadline now then ''failed'' else ''pending'')
     (if stable_enough m c (o' - s) n then ''recovery_verified''
       else if expired deadline now then ''verification_window_expired''
       else ''stabilization_window_in_progress'') (vd_reason d)"
    using assms(1) unfolding stable_decision_def Let_def required rbind_simps low
    by (cases "stable_enough m c (o' - s) n"; cases "expired deadline now";
        cases "int_of_fl (max_zero (total_seconds (o' - s)))") (auto simp: counted_decision_def)
  then show ?thesis by (intro exI conjI) (simp_all split: if_split)
qed

lemma healthy_decision_cases:
  assumes "healthy_decision e m deadline now o' prev since n a key = Inr d"
  obtains
    (no_cadence)
      "d = reset_decision ''pending'' ''verification_evidence_missing'' Cadence_Unknown a key"
  | (measured) c cont where
      "nonnegative_int (pget e ''evidence_cadence_seconds'') = Inr (Some c)" "0 < c"
      "gap_ok c prev o' = Inr cont"
      "stable_decision m c deadline now o'
         (case (if cont then since else None) of None \<Rightarrow> o' | Some s \<Rightarrow> s)
         ((if cont then n else 0) + 1) a key = Inr d"
proof -
  obtain cadence where c: "nonnegative_int (pget e ''evidence_cadence_seconds'') = Inr cadence"
    using assms by (auto simp: healthy_decision_def rbind_Inr_iff)
  show thesis
  proof (cases "\<exists>c. cadence = Some c \<and> 0 < c")
    case True
    then obtain c' where c': "cadence = Some c'" "0 < c'" by blast
    then show thesis
      using assms c measured by (auto simp: healthy_decision_def elim!: rbind_InrE)
  next
    case False
    then have "d = reset_decision ''pending'' ''verification_evidence_missing'' Cadence_Unknown a key"
      using assms c by (auto simp: healthy_decision_def not_less split: option.splits)
    then show thesis by (rule no_cadence)
  qed
qed

subsection \<open>What a decision guarantees\<close>

lemma recorded_checks:
  "pget (recorded_after a checks now obs key) ''checks'' = checks_value checks"
  by (simp add: recorded_after_def pget_def dict_get_update split: option.splits)

lemma stable_after_checks: "pget (stable_after a s x n) ''checks'' = pget a ''checks''"
  by (simp add: stable_after_def pget_def dict_get_update)

lemma healthy_checks_recorded:
  assumes "healthy_window w" and "map fst (w_checks w) = check_names"
    and "pget (w_after w) ''checks'' = checks_value (w_checks w)"
  shows "pget (w_after w) ''checks'' = PDict (map (\<lambda>name. (name, PBool True)) check_names)"
  using checks_all_true [of "w_checks w"] assms
  by (simp add: healthy_window_def checks_value_def opt_bool_def comp_def)

lemma decide_completed:
  assumes "decide_window v w = Inr d" and "vd_status d = ''completed''"
    and "300 \<le> w_minimum_seconds w" and "w_minimum_seconds w \<le> 600"
  obtains prev count since obs c cont from_time where
    "fresh_window v w" "healthy_window w" "w_observed_at w = Some obs"
    "parse_datetime (pget v ''last_healthy_observed_at'') = Inr prev"
    "nonnegative_int (pget v ''distinct_evidence_count'') = Inr count"
    "parse_datetime (pget v ''healthy_since'') = Inr since"
    "nonnegative_int (pget (mapping (pget v ''expected'')) ''evidence_cadence_seconds'')
       = Inr (Some c)"
    "0 < c" "gap_ok c prev obs = Inr cont"
    "from_time = (case (if cont then since else None) of None \<Rightarrow> obs | Some s \<Rightarrow> s)"
    "vd_healthy_since d = Some (utc_isoformat from_time)"
    "vd_last_healthy_observed_at d = Some (utc_isoformat obs)"
    "vd_distinct_evidence_count d
       = (if cont then (case count of None \<Rightarrow> 0 | Some n \<Rightarrow> n) else 0) + 1"
    "pget (vd_after d) ''checks'' = pget (w_after w) ''checks''"
    "stable_enough (w_minimum_seconds w) c (obs - from_time) (vd_distinct_evidence_count d)"
  using assms(1)
proof (cases rule: decide_window_cases)
  case (healthy prev count since obs)
  from healthy(7) show thesis
  proof (cases rule: healthy_decision_cases)
    case (measured c cont)
    let ?s = "case (if cont then since else None) of None \<Rightarrow> obs | Some s \<Rightarrow> s"
    let ?n = "(if cont then (case count of None \<Rightarrow> 0 | Some n \<Rightarrow> n) else 0) + 1"
    obtain code why where d: "d = counted_decision
      (if stable_enough (w_minimum_seconds w) c (obs - ?s) ?n then ''completed''
       else if expired (w_deadline_at w) (w_now w) then ''failed'' else ''pending'') code why
      (stable_after (w_after w) ?s (max_zero (total_seconds (obs - ?s))) ?n) ?s obs ?n
      (next_key (w_key w) (text_at v ''last_evidence_key''))"
      using stable_decision_Inr [OF measured(4) assms(3,4) measured(2)] by blast
    moreover have "stable_enough (w_minimum_seconds w) c (obs - ?s) ?n"
      using assms(2) d by (auto simp: counted_decision_def split: if_splits)
    ultimately show thesis
      by (intro that [OF healthy(1,2,6,3,4,5) measured(1-3) refl])
        (simp_all add: counted_decision_def stable_after_checks)
  qed (use assms(2) in \<open>simp add: reset_decision_def\<close>)
qed (use assms(2) in \<open>simp_all add: unchanged_decision_def unhealthy_decision_def
       reset_decision_def Let_def split: if_splits\<close>)

text \<open>
  For a cadence of up to a billion seconds the comparison of the gap is exact as well.
\<close>

lemma gap_ok_exact:
  assumes "0 < c" and "c \<le> 1000000000"
  shows "gap_ok c prev obs =
    Inr (case prev of None \<Rightarrow> True | Some p \<Rightarrow> p < obs \<and> 2 * (obs - p) \<le> 3 * c * 1000000)"
proof -
  have c: "float_of_int c = Inr (Fin (of_int c))"
    by (rule float_of_int_exact) (use assms in simp)
  have "rnd_pos (of_int (3 * c) / 2) = of_int (3 * c) / 2"
    by (rule rnd_pos_half) (use assms in simp_all)
  moreover have "(of_int (3 * c) / 2 :: rat) < 2 ^ 1024"
    by (rule half_lt_overflow) (use assms in simp)
  ultimately have mul: "fl_mul (Fin (of_int c)) (Fin (3 / 2)) = Fin (of_int (3 * c) / 2)"
    using assms by (simp add: fl_mul_def fl_of_rat_def mult.commute)
  have gt: "fl_lt (Fin (of_int (3 * c) / 2)) (total_seconds us) \<longleftrightarrow> 3 * c * 500000 < us" for us
    by (rule total_seconds_gt_half) (use assms in simp_all)
  then have gt': "fl_lt (Fin (3 * of_int c / 2)) (total_seconds us) \<longleftrightarrow> 3 * c * 500000 < us" for us
    by simp
  show ?thesis
    by (auto simp: gap_ok_def c mul gt' total_seconds_le_0 Let_def split: option.split)
qed

text \<open>
  C9. A recovery is judged completed only when every one of the fifteen checks of the evidence
  window is true; the recorded observation carries exactly these fifteen results. No check may
  be missing or false.
\<close>

theorem completed_only_if_all_checks_true:
  assumes "evaluate_recovery_evidence plan_payload lifecycle evidence alerts now = Inr d"
    and "vd_status d = ''completed''"
  shows "pget (vd_after d) ''checks'' = PDict (map (\<lambda>name. (name, PBool True)) check_names)"
proof -
  obtain w where w: "read_window plan_payload (verification_of lifecycle) evidence alerts now = Inr w"
      "decide_window (verification_of lifecycle) w = Inr d"
    using assms(1) by (auto simp: evaluate_Inr_iff)
  from w(1) obtain observed where r: "300 \<le> w_minimum_seconds w" "w_minimum_seconds w \<le> 600"
      "map fst (w_checks w) = check_names" "pget (w_after w) ''checks'' = checks_value (w_checks w)"
    by (rule read_windowE) (auto simp: recorded_checks dest: verification_checks_names)
  from w(2) assms(2) r(1,2) have
      "healthy_window w" "pget (vd_after d) ''checks'' = pget (w_after w) ''checks''"
    by (auto elim: decide_completed)
  then show ?thesis
    using healthy_checks_recorded [OF _ r(3,4)] by simp
qed

text \<open>
  C10. A recovery is judged completed only for a window collected after the verification started,
  when the healthy period that the decision reports reaches back at least the minimum that the
  verification prescribes, exact to the microsecond in spite of the floating-point arithmetic, and
  at least \<open>max(2, ceil(minimum / cadence) + 1)\<close> windows were counted. The minimum is the number in
  the field \<open>minimum_seconds\<close> of the lifecycle, raised to 300 or lowered to 600 seconds when it is
  outside these bounds, and 300 seconds when the field holds no number.
\<close>

theorem completed_only_if_stable:
  assumes "evaluate_recovery_evidence plan_payload lifecycle evidence alerts now = Inr d"
    and "vd_status d = ''completed''"
  shows "\<exists>configured minimum cadence started observed since.
      nonnegative_int (pget (verification_of lifecycle) ''minimum_seconds'') = Inr configured
    \<and> minimum = (case configured of None \<Rightarrow> 300 | Some m \<Rightarrow> max 300 (min m 600))
    \<and> nonnegative_int (pget (expected_of lifecycle) ''evidence_cadence_seconds'')
        = Inr (Some cadence)
    \<and> parse_datetime (pget (verification_of lifecycle) ''started_at'') = Inr (Some started)
    \<and> parse_datetime (pget evidence ''window_start'') = Inr (Some observed)
    \<and> started \<le> observed
    \<and> vd_healthy_since d = Some (utc_isoformat since)
    \<and> vd_last_healthy_observed_at d = Some (utc_isoformat observed)
    \<and> minimum * 1000000 \<le> observed - since
    \<and> max 2 (\<lceil>(of_int minimum / of_int cadence :: rat)\<rceil> + 1) \<le> vd_distinct_evidence_count d"
proof -
  obtain w where w: "read_window plan_payload (verification_of lifecycle) evidence alerts now = Inr w"
      "decide_window (verification_of lifecycle) w = Inr d"
    using assms(1) by (auto simp: evaluate_Inr_iff)
  from w(1) obtain configured where m:
      "nonnegative_int (pget (verification_of lifecycle) ''minimum_seconds'') = Inr configured"
      "w_minimum_seconds w = (case configured of None \<Rightarrow> 300 | Some m \<Rightarrow> max 300 (min m 600))"
    by (elim read_windowE) (auto simp: bounded_seconds_def rmap_Inr_iff DEFAULT_MINIMUM_SECONDS_def
        DEFAULT_MAXIMUM_SECONDS_def)
  from w(1) have r: "300 \<le> w_minimum_seconds w" "w_minimum_seconds w \<le> 600"
      "parse_datetime (pget (verification_of lifecycle) ''started_at'') = Inr (w_started_at w)"
      "parse_datetime (pget evidence ''window_start'') = Inr (w_observed_at w)"
    by (auto elim: read_windowE)
  from w(2) assms(2) r(1,2) show ?thesis
  proof (rule decide_completed)
    fix obs c s
    assume "fresh_window (verification_of lifecycle) w" and obs: "w_observed_at w = Some obs"
    then obtain started where "w_started_at w = Some started" "started \<le> obs"
      by (auto elim: fresh_windowE)
    moreover assume "nonnegative_int (pget (expected_of lifecycle) ''evidence_cadence_seconds'')
        = Inr (Some c)"
      "vd_healthy_since d = Some (utc_isoformat s)"
      "vd_last_healthy_observed_at d = Some (utc_isoformat obs)"
      "stable_enough (w_minimum_seconds w) c (obs - s) (vd_distinct_evidence_count d)"
    ultimately show ?thesis
      using r m obs unfolding stable_enough_def by fastforce
  qed
qed

lemma finite_float_opt: "finite_float (opt_float f) = Inr (Some x) \<Longrightarrow> f = Some x"
  by (cases f) (auto simp: finite_float_def opt_float_def py_float_def split: if_splits)

lemma both_equal_True: "both_equal x y = Some True \<Longrightarrow> \<exists>n. x = Some n \<and> y = Some n"
  by (auto simp: both_equal_def split: option.splits)

lemma observed_afterE:
  assumes "observed_after evidence target expected pb sb ps = Inr observed"
  obtains failure_ratio deployment where
    "metric_sample evidence STANDARD_FAILURE_RATIO_METRIC target
       (mapping (pget expected ''failure_ratio_metric_identity'')) = Inr failure_ratio"
    "deployment_replicas evidence target = Inr deployment"
    "pget observed ''failure_ratio'' = opt_float failure_ratio"
    "pget observed ''deployment'' = (case deployment of None \<Rightarrow> PNone | Some d \<Rightarrow> PDict d)"
  using assms by (auto simp: observed_after_def rbind_Inr_iff rmap_Inr_iff)

lemma verification_checks_parts:
  assumes "verification_checks observed alerts before_map target expected pb sb started = Inr checks"
  obtains ratio ratio_max replicas st resolved no_refire where
    "finite_float (pget observed ''failure_ratio'') = Inr ratio"
    "finite_float (pget expected ''failure_ratio_max'') = Inr ratio_max"
    "nonnegative_int (pget expected ''replicas'') = Inr replicas"
    "replica_status_of (mapping (pget observed ''deployment'')) = Inr st"
    "alert_checks alerts before_map target started = Inr (resolved, no_refire)"
    "{failure_ratio_check ratio ratio_max, both_equal (rs_desired st) replicas,
      both_equal (rs_ready st) replicas, both_equal (rs_updated st) replicas,
      both_equal (rs_available st) replicas,
      both_equal (rs_observed_generation st) (rs_generation st), resolved, no_refire}
      \<subseteq> snd ` set checks"
proof -
  show thesis
    using assms unfolding verification_checks_def
    apply (elim rbind_InrE)
    apply (simp only: rmap_Inr_iff, elim exE conjE)
    subgoal for ratio rate ratio_max base tol replicas st po ph sm al
      by (cases al) (rule that, auto simp: Let_def)
    done
qed

lemma subset_ball: "A \<subseteq> B \<Longrightarrow> \<forall>x \<in> B. P x \<Longrightarrow> \<forall>x \<in> A. P x"
  by auto

lemma verification_checksE:
  assumes "verification_checks observed alerts before_map target expected pb sb started = Inr checks"
    and "failed_checks checks = []" and "missing_checks checks = []"
  obtains ratio ratio_max replicas st where
    "finite_float (pget observed ''failure_ratio'') = Inr (Some ratio)"
    "finite_float (pget expected ''failure_ratio_max'') = Inr (Some ratio_max)"
    "fl_le ratio ratio_max"
    "nonnegative_int (pget expected ''replicas'') = Inr (Some replicas)"
    "replica_status_of (mapping (pget observed ''deployment'')) = Inr st"
    "rs_desired st = Some replicas" "rs_ready st = Some replicas" "rs_updated st = Some replicas"
    "rs_available st = Some replicas" "rs_observed_generation st = rs_generation st"
    "rs_generation st \<noteq> None"
    "alert_checks alerts before_map target started = Inr (Some True, Some True)"
proof -
  have "\<forall>(name, value) \<in> set checks. value = Some True"
    using no_failed_or_missing [of checks] assms(2,3) by simp
  then have all: "\<forall>x \<in> snd ` set checks. x = Some True" by auto
  from assms(1) show thesis
  proof (rule verification_checks_parts)
    fix ratio ratio_max replicas st resolved no_refire
    assume parts: "finite_float (pget observed ''failure_ratio'') = Inr ratio"
      "finite_float (pget expected ''failure_ratio_max'') = Inr ratio_max"
      "nonnegative_int (pget expected ''replicas'') = Inr replicas"
      "replica_status_of (mapping (pget observed ''deployment'')) = Inr st"
      "alert_checks alerts before_map target started = Inr (resolved, no_refire)"
    assume "{failure_ratio_check ratio ratio_max, both_equal (rs_desired st) replicas,
      both_equal (rs_ready st) replicas, both_equal (rs_updated st) replicas,
      both_equal (rs_available st) replicas,
      both_equal (rs_observed_generation st) (rs_generation st), resolved, no_refire}
      \<subseteq> snd ` set checks"
    from this all have "\<forall>x \<in> {failure_ratio_check ratio ratio_max,
      both_equal (rs_desired st) replicas,
      both_equal (rs_ready st) replicas, both_equal (rs_updated st) replicas,
      both_equal (rs_available st) replicas,
      both_equal (rs_observed_generation st) (rs_generation st), resolved, no_refire}.
      x = Some True"
      by (rule subset_ball)
    then have t: "failure_ratio_check ratio ratio_max = Some True"
      "both_equal (rs_desired st) replicas = Some True"
      "both_equal (rs_ready st) replicas = Some True"
      "both_equal (rs_updated st) replicas = Some True"
      "both_equal (rs_available st) replicas = Some True"
      "both_equal (rs_observed_generation st) (rs_generation st) = Some True"
      "resolved = Some True" "no_refire = Some True"
      by simp_all
    obtain x m where "ratio = Some x" "ratio_max = Some m" "fl_le x m"
      using t(1) by (auto simp: failure_ratio_check_def split: option.splits)
    moreover obtain n where "replicas = Some n"
      using both_equal_True [OF t(2)] by auto
    ultimately show thesis
      using parts t(7,8) t(2-6) [THEN both_equal_True] by (intro that [of x m n st]) auto
  qed
qed

text \<open>
  C3. What completion says about the cluster: the one sample of the failure-ratio series of the
  target is finite and within the approved threshold; the one snapshot of the target workload
  has the approved replica count desired, ready, updated and available, at an observed
  generation equal to the current one; the original alert occurrence is among the alerts and
  resolved with a resolution time; and no other occurrence of its series fired since the
  verification started.
\<close>

theorem completed_means_recovered:
  assumes "evaluate_recovery_evidence plan_payload lifecycle evidence alerts now = Inr d"
    and "vd_status d = ''completed''"
  defines "target \<equiv> verification_target (verification_of lifecycle) plan_payload"
    and "before_map \<equiv> mapping (pget (verification_of lifecycle) ''before'')"
  shows "(\<exists>ratio ratio_max.
        metric_sample evidence STANDARD_FAILURE_RATIO_METRIC target
          (mapping (pget (expected_of lifecycle) ''failure_ratio_metric_identity''))
          = Inr (Some ratio)
      \<and> finite_float (pget (expected_of lifecycle) ''failure_ratio_max'') = Inr (Some ratio_max)
      \<and> fl_le ratio ratio_max)
    \<and> (\<exists>deployment replicas st.
        deployment_replicas evidence target = Inr (Some deployment)
      \<and> nonnegative_int (pget (expected_of lifecycle) ''replicas'') = Inr (Some replicas)
      \<and> replica_status_of deployment = Inr st
      \<and> rs_desired st = Some replicas \<and> rs_ready st = Some replicas
      \<and> rs_updated st = Some replicas \<and> rs_available st = Some replicas
      \<and> rs_observed_generation st = rs_generation st \<and> rs_generation st \<noteq> None)
    \<and> (\<exists>started.
        parse_datetime (pget (verification_of lifecycle) ''started_at'') = Inr (Some started)
      \<and> (\<exists>alert \<in> set alerts. original_occurrence before_map target alert
            \<and> py_casefold (text_at alert ''status'') = ''resolved''
            \<and> (\<exists>t. parse_datetime (pget alert ''resolved_at'') = Inr (Some t)))
      \<and> (\<forall>alert \<in> set alerts. \<not> refire before_map target started alert))"
proof -
  let ?v = "verification_of lifecycle"
  obtain w where w: "read_window plan_payload ?v evidence alerts now = Inr w"
      "decide_window ?v w = Inr d"
    using assms(1) by (auto simp: evaluate_Inr_iff)
  from w(1) obtain observed where r: "300 \<le> w_minimum_seconds w" "w_minimum_seconds w \<le> 600"
      "parse_datetime (pget ?v ''started_at'') = Inr (w_started_at w)"
      "observed_after evidence target (expected_of lifecycle) (pget ?v ''protected_baseline'')
         (pget ?v ''protected_session_baseline'') (pget ?v ''last_session_samples'') = Inr observed"
      "verification_checks observed alerts before_map target (expected_of lifecycle)
         (pget ?v ''protected_baseline'') (pget ?v ''protected_session_baseline'')
         (w_started_at w) = Inr (w_checks w)"
    unfolding target_def before_map_def by (rule read_windowE)
  from r(4) obtain fr dep where obs:
    "metric_sample evidence STANDARD_FAILURE_RATIO_METRIC target
       (mapping (pget (expected_of lifecycle) ''failure_ratio_metric_identity'')) = Inr fr"
    "deployment_replicas evidence target = Inr dep"
    "pget observed ''failure_ratio'' = opt_float fr"
    "pget observed ''deployment'' = (case dep of None \<Rightarrow> PNone | Some d \<Rightarrow> PDict d)"
    by (rule observed_afterE)
  have fresh: "fresh_window ?v w" and healthy: "healthy_window w"
    using w(2) assms(2) r(1,2) by (auto elim: decide_completed)
  from fresh obtain s where s: "w_started_at w = Some s" by (rule fresh_windowE)
  from r(5) show ?thesis
  proof (rule verification_checksE)
    fix ratio ratio_max replicas st
    assume c: "finite_float (pget observed ''failure_ratio'') = Inr (Some ratio)"
      "finite_float (pget (expected_of lifecycle) ''failure_ratio_max'') = Inr (Some ratio_max)"
      "fl_le ratio ratio_max"
      "nonnegative_int (pget (expected_of lifecycle) ''replicas'') = Inr (Some replicas)"
      "replica_status_of (mapping (pget observed ''deployment'')) = Inr st"
      "rs_desired st = Some replicas" "rs_ready st = Some replicas" "rs_updated st = Some replicas"
      "rs_available st = Some replicas" "rs_observed_generation st = rs_generation st"
      "rs_generation st \<noteq> None"
    assume alerts: "alert_checks alerts before_map target (w_started_at w)
        = Inr (Some True, Some True)"
    have "fr = Some ratio" using c(1) obs(3) by (auto dest: finite_float_opt)
    moreover obtain d' where "dep = Some d'"
      using c(5,6) obs(4)
      by (cases dep) (auto simp: replica_status_of_def nonnegative_int_def py_int_def)
    ultimately show ?thesis
      using c obs r(3) s alert_checks_true [OF alerts [unfolded s]]
      by (simp only: mapping.simps option.case simp_thms) blast
  qed (use healthy in \<open>simp_all add: healthy_window_def\<close>)
qed

text \<open>
  C33. Redelivery is idempotent: a window whose key is the last one judged is answered with
  \<open>pending\<close> and the durable counters exactly as they were, so a replayed window never adds
  stabilisation time.
\<close>

theorem duplicate_window_changes_nothing:
  assumes "evaluate_recovery_evidence plan_payload lifecycle evidence alerts now = Inr d"
    and "text_at evidence ''evidence_key'' \<noteq> []"
    and "text_at evidence ''evidence_key'' = text_at (verification_of lifecycle) ''last_evidence_key''"
  shows "vd_status d = ''pending'' \<and> vd_reason_code d = ''duplicate_evidence_window''
    \<and> vd_healthy_since d = str_opt (text_at (verification_of lifecycle) ''healthy_since'')
    \<and> (\<exists>previous counted.
          parse_datetime (pget (verification_of lifecycle) ''last_healthy_observed_at'') = Inr previous
        \<and> vd_last_healthy_observed_at d = map_option utc_isoformat previous
        \<and> nonnegative_int (pget (verification_of lifecycle) ''distinct_evidence_count'') = Inr counted
        \<and> vd_distinct_evidence_count d = (case counted of None \<Rightarrow> 0 | Some n \<Rightarrow> n))
    \<and> vd_last_evidence_key d = Some (text_at evidence ''evidence_key'')"
proof -
  let ?v = "verification_of lifecycle"
  obtain w where w: "read_window plan_payload ?v evidence alerts now = Inr w" "decide_window ?v w = Inr d"
    using assms(1) by (auto simp: evaluate_Inr_iff)
  then have key: "w_key w = text_at evidence ''evidence_key''" by (auto elim: read_windowE)
  then have "\<not> fresh_window ?v w" using assms by (simp add: fresh_window_def)
  with w(2) show ?thesis
    using key assms(2,3)
    by (elim decide_window_cases) (auto simp: unchanged_decision_def str_opt_def)
qed

lemma evaluate_status:
  assumes "decide_window v w = Inr d" "300 \<le> w_minimum_seconds w" "w_minimum_seconds w \<le> 600"
  shows "vd_status d = ''pending'' \<or> vd_status d = ''completed''
    \<or> vd_status d = ''failed'' \<and> expired (w_deadline_at w) (w_now w)"
  using assms(1)
proof (cases rule: decide_window_cases)
  case (healthy prev count since obs)
  from healthy(7) show ?thesis
  proof (cases rule: healthy_decision_cases)
    case (measured c cont)
    show ?thesis
      using stable_decision_Inr [OF measured(4) assms(2,3) measured(2)]
      by (elim exE conjE) (simp add: counted_decision_def)
  qed (simp add: reset_decision_def)
qed (simp_all add: unchanged_decision_def unhealthy_decision_def reset_decision_def Let_def)

text \<open>
  C34. Every decision is \<open>pending\<close>, \<open>completed\<close> or \<open>failed\<close>, and verification fails only when
  the durable deadline is set and has passed.
\<close>

theorem failed_only_after_deadline:
  assumes "evaluate_recovery_evidence plan_payload lifecycle evidence alerts now = Inr d"
  shows "vd_status d \<in> {''pending'', ''completed'', ''failed''}
    \<and> (vd_status d = ''failed'' \<longrightarrow>
        (\<exists>deadline now_utc.
            parse_datetime (pget (verification_of lifecycle) ''deadline_at'') = Inr (Some deadline)
          \<and> normalized_utc now = Inr now_utc \<and> deadline \<le> now_utc))"
proof -
  let ?v = "verification_of lifecycle"
  obtain w where w: "read_window plan_payload ?v evidence alerts now = Inr w" "decide_window ?v w = Inr d"
    using assms(1) by (auto simp: evaluate_Inr_iff)
  from w(1) have r: "300 \<le> w_minimum_seconds w" "w_minimum_seconds w \<le> 600"
      "parse_datetime (pget ?v ''deadline_at'') = Inr (w_deadline_at w)"
      "normalized_utc now = Inr (w_now w)"
    by (auto elim: read_windowE)
  show ?thesis
    using evaluate_status [OF w(2) r(1,2)] r(3,4)
    by (cases "w_deadline_at w") (auto simp: expired_def)
qed

text \<open>
  C35. A window that counts and in which any check is false or missing resets the stabilisation:
  the healthy period, the last healthy time and the window count are cleared, so the next
  healthy window starts from zero.
\<close>

theorem unhealthy_window_resets:
  assumes "evaluate_recovery_evidence plan_payload lifecycle evidence alerts now = Inr d"
    and "vd_reason_code d \<notin> {''duplicate_evidence_window'', ''stale_evidence_window''}"
    and "pget (vd_after d) ''checks'' \<noteq> PDict (map (\<lambda>name. (name, PBool True)) check_names)"
  shows "vd_healthy_since d = None \<and> vd_last_healthy_observed_at d = None
    \<and> vd_distinct_evidence_count d = 0 \<and> vd_status d \<noteq> ''completed''"
proof -
  let ?v = "verification_of lifecycle"
  obtain w where w: "read_window plan_payload ?v evidence alerts now = Inr w" "decide_window ?v w = Inr d"
    using assms(1) by (auto simp: evaluate_Inr_iff)
  from w(1) have r: "300 \<le> w_minimum_seconds w" "w_minimum_seconds w \<le> 600"
      "map fst (w_checks w) = check_names" "pget (w_after w) ''checks'' = checks_value (w_checks w)"
    by (auto elim: read_windowE simp: recorded_checks dest: verification_checks_names)
  have true: "pget (w_after w) ''checks'' = PDict (map (\<lambda>name. (name, PBool True)) check_names)"
    if "healthy_window w"
    using healthy_checks_recorded [OF that r(3,4)] .
  from w(2) show ?thesis
  proof (cases rule: decide_window_cases)
    case unchanged
    then show ?thesis using assms(2) by (auto simp: unchanged_decision_def split: if_splits)
  next
    case unhealthy
    then show ?thesis by (simp add: unhealthy_decision_def reset_decision_def Let_def)
  next
    case (healthy prev count since obs)
    from healthy(7) show ?thesis
    proof (cases rule: healthy_decision_cases)
      case no_cadence
      then show ?thesis by (simp add: reset_decision_def)
    next
      case (measured c cont)
      show ?thesis
        using stable_decision_Inr [OF measured(4) r(1,2) measured(2)] true [OF healthy(2)] assms(3)
        by (elim exE conjE) (simp add: counted_decision_def stable_after_checks)
    qed
  qed
qed

text \<open>
  C23. A verification ends. A window that is neither a repetition nor outside the verification
  period, evaluated once the durable deadline has passed, decides the recovery: it is completed
  or failed, never left pending, provided the evidence cadence is known.
\<close>

theorem deadline_ends_verification:
  assumes "read_window plan_payload v evidence alerts now = Inr w"
    and "decide_window v w = Inr d" and "fresh_window v w"
    and "expired (w_deadline_at w) (w_now w)"
    and "nonnegative_int (pget (mapping (pget v ''expected'')) ''evidence_cadence_seconds'')
      = Inr (Some cadence)" and "0 < cadence"
  shows "vd_status d = ''completed'' \<and> healthy_window w \<or> vd_status d = ''failed''"
proof -
  have m: "300 \<le> w_minimum_seconds w" "w_minimum_seconds w \<le> 600"
    using assms(1) by (auto elim: read_windowE)
  from assms(2) show ?thesis
  proof (cases rule: decide_window_cases)
    case (healthy prev count since obs)
    from healthy(7) obtain cont where "stable_decision (w_minimum_seconds w) cadence
        (w_deadline_at w) (w_now w) obs
        (case (if cont then since else None) of None \<Rightarrow> obs | Some s \<Rightarrow> s)
        ((if cont then (case count of None \<Rightarrow> 0 | Some n \<Rightarrow> n) else 0) + 1) (w_after w)
        (next_key (w_key w) (text_at v ''last_evidence_key'')) = Inr d"
      using assms(5,6) by (auto simp: healthy_decision_def rbind_Inr_iff)
    from stable_decision_Inr [OF this m assms(6)] show ?thesis
      using assms(4) healthy(2) by (elim exE conjE) (simp add: counted_decision_def)
  next
    case unhealthy
    with assms(4) show ?thesis by (simp add: unhealthy_decision_def reset_decision_def Let_def)
  qed (use assms(3) in simp)
qed

text \<open>
  C36. The exception to the deadline: a healthy window of a plan whose evidence cadence is absent
  or zero is left pending, whatever the deadline and the time. Such a plan stays under
  verification as long as its windows are healthy, since only an unhealthy window then reads
  the deadline.
\<close>

theorem unknown_cadence_ignores_deadline:
  assumes "decide_window v w = Inr d" and "fresh_window v w" and "healthy_window w"
    and "nonnegative_int (pget (mapping (pget v ''expected'')) ''evidence_cadence_seconds'')
      \<in> {Inr None, Inr (Some 0)}"
  shows "vd_status d = ''pending'' \<and> vd_reason_code d = ''verification_evidence_missing''
    \<and> vd_distinct_evidence_count d = 0"
  using assms(1)
proof (cases rule: decide_window_cases)
  case (healthy prev count since obs)
  then show ?thesis
    using assms(4) by (auto simp: healthy_decision_def reset_decision_def)
qed (use assms(2,3) in simp_all)

end
