(* ===== verification/Recovery_Lifecycle.thy ===== *)
theory Recovery_Lifecycle
  imports Recovery_Verification
begin

text \<open>
  The durable recovery lifecycle: the plan rows of \<open>src/src/domains/rca/repository.py\<close> with their
  compare-and-set transition, and the handlers of
  \<open>src/src/services/ai/rca-feedback-worker/app.py\<close> that start a verification, end it on a failed
  deployment, and feed every evidence window to the evaluation. What a handler reads through
  queries (the rows it works on, the workflow run, the alerts, the database time) is an argument;
  the text of an operator message is the argument \<open>show_reason\<close>. A handler runs inside one
  transaction that rolls back when it raises, so an exception leaves no changed rows.
\<close>

subsection \<open>Plan rows and their transition\<close>

record plan_row =
  pr_plan_id :: string
  pr_workspace_id :: string
  pr_incident_id :: string
  pr_evidence_ref :: py
  pr_status :: string
  pr_selected_action_id :: py
  pr_selected_by :: py
  pr_payload :: pdict

definition row_matches :: "string \<Rightarrow> string \<Rightarrow> string list \<Rightarrow> plan_row \<Rightarrow> bool" where
  "row_matches plan_id workspace_id expected_statuses row \<longleftrightarrow>
    pr_plan_id row = plan_id \<and> pr_workspace_id row = workspace_id
    \<and> pr_status row \<in> set expected_statuses"

definition row_update :: "string \<Rightarrow> pdict \<Rightarrow> bool \<Rightarrow> plan_row \<Rightarrow> plan_row" where
  "row_update st lifecycle clear_selection row =
    (let row = row\<lparr>pr_status := st,
                   pr_payload := dict_set (pr_payload row) ''lifecycle'' (PDict lifecycle)\<rparr>
     in if clear_selection
        then row\<lparr>pr_selected_action_id := PNone, pr_selected_by := PNone\<rparr> else row)"

fun update_recovery_plan_lifecycle_if_status ::
  "string \<Rightarrow> string \<Rightarrow> string list \<Rightarrow> string \<Rightarrow> pdict \<Rightarrow> bool \<Rightarrow> plan_row list
    \<Rightarrow> plan_row option \<times> plan_row list" where
  "update_recovery_plan_lifecycle_if_status plan_id workspace_id expected_statuses st lifecycle
     clear_selection [] = (None, [])"
| "update_recovery_plan_lifecycle_if_status plan_id workspace_id expected_statuses st lifecycle
     clear_selection (row # rows) =
    (if row_matches plan_id workspace_id expected_statuses row
     then (let row' = row_update st lifecycle clear_selection row in (Some row', row' # rows))
     else
       (let (saved, rows') = update_recovery_plan_lifecycle_if_status plan_id workspace_id
              expected_statuses st lifecycle clear_selection rows
        in (saved, row # rows')))"

definition RECOVERY_STATUS_DEPLOY_PENDING :: string where
  "RECOVERY_STATUS_DEPLOY_PENDING = ''deploy_pending''"

definition RECOVERY_STATUS_VERIFICATION_PENDING :: string where
  "RECOVERY_STATUS_VERIFICATION_PENDING = ''verification_pending''"

definition RECOVERY_STATUS_COMPLETED :: string where
  "RECOVERY_STATUS_COMPLETED = ''completed''"

definition RECOVERY_STATUS_FAILED :: string where
  "RECOVERY_STATUS_FAILED = ''failed''"

subsection \<open>Events\<close>

datatype recovery_event =
    RecoveryVerificationStarted (re_plan: string) string string string string pdict pdict string
  | RecoveryVerificationUpdated (re_plan: string) string string string reason string pdict pdict string
  | RecoveryVerificationFailed (re_plan: string) string string reason string pdict pdict string
  | IncidentResolved (re_plan: string) string py reason string pdict pdict string

subsection \<open>Starting a verification\<close>

definition lifecycle_of :: "plan_row \<Rightarrow> pdict" where
  "lifecycle_of row = mapping (pget (pr_payload row) ''lifecycle'')"

text \<open>The identity of the deployment: the merge recorded in the plan and the workflow run agree.\<close>

definition workflow_matches :: "pdict \<Rightarrow> py \<Rightarrow> string \<Rightarrow> string \<Rightarrow> string \<Rightarrow> string \<Rightarrow> bool" where
  "workflow_matches merge workflow workspace_id workflow_run_id binding_id application_id \<longleftrightarrow>
    is_mapping workflow
    \<and> text_at merge ''workflow_run_id'' = workflow_run_id
    \<and> text_at merge ''binding_id'' = binding_id
    \<and> text_at merge ''application_id'' = application_id
    \<and> text_at merge ''merge_commit_sha'' = text_at (mapping workflow) ''commit_sha''
    \<and> text_at merge ''cluster_id'' = text_at (mapping workflow) ''cluster_id''
    \<and> text_at (mapping workflow) ''workspace_id'' = workspace_id
    \<and> text_at (mapping workflow) ''binding_id'' = binding_id
    \<and> text_at (mapping workflow) ''application_id'' = application_id
    \<and> text_at (mapping workflow) ''status'' = ''succeeded''"

definition started_verification :: "(reason \<Rightarrow> string) \<Rightarrow> pdict \<Rightarrow> utc \<Rightarrow> utc \<Rightarrow> pdict" where
  "started_verification show_reason verification now deadline =
    dict_update verification
      [(''status'', PStr RECOVERY_STATUS_VERIFICATION_PENDING),
       (''started_at'', PStr (utc_isoformat now)),
       (''deadline_at'', PStr (utc_isoformat deadline)),
       (''healthy_since'', PNone),
       (''last_reason_code'', PStr ''waiting_for_post_deploy_evidence''),
       (''last_reason'', PStr (show_reason Waiting_Post_Deploy))]"

definition start_recovery_verification ::
  "(reason \<Rightarrow> string) \<Rightarrow> plan_row option \<Rightarrow> py \<Rightarrow> utc \<Rightarrow> string \<Rightarrow> string \<Rightarrow> string \<Rightarrow> string
    \<Rightarrow> plan_row list \<Rightarrow> (recovery_event option \<times> plan_row list) res" where
  "start_recovery_verification show_reason record_row workflow now workspace_id workflow_run_id
     binding_id application_id rows =
    (case record_row of
       None \<Rightarrow> Inr (None, rows)
     | Some row \<Rightarrow>
         if pr_status row \<noteq> RECOVERY_STATUS_DEPLOY_PENDING then Inr (None, rows)
         else
           (let lifecycle = lifecycle_of row;
                merge = mapping (pget lifecycle ''merge'');
                verification = mapping (pget lifecycle ''verification'')
            in if \<not> workflow_matches merge workflow workspace_id workflow_run_id binding_id
                    application_id
               then Inr (None, rows)
               else
                 rbind (py_int (py_or (pget verification ''maximum_seconds'')
                                  (PInt DEFAULT_MAXIMUM_SECONDS))) (\<lambda>maximum_seconds.
                 rmap (\<lambda>deadline.
                   let verification = started_verification show_reason verification now deadline;
                       lifecycle = dict_update lifecycle
                         [(''phase'', PStr RECOVERY_STATUS_VERIFICATION_PENDING),
                          (''verification'', PDict verification)];
                       (saved, rows') = update_recovery_plan_lifecycle_if_status (pr_plan_id row)
                         workspace_id [RECOVERY_STATUS_DEPLOY_PENDING]
                         RECOVERY_STATUS_VERIFICATION_PENDING lifecycle False rows
                   in case saved of
                        None \<Rightarrow> (None, rows')
                      | Some _ \<Rightarrow>
                          (Some (RecoveryVerificationStarted (pr_plan_id row) (pr_incident_id row)
                             workflow_run_id (utc_isoformat now) (utc_isoformat deadline)
                             (mapping (pget verification ''expected''))
                             (mapping (pget verification ''before'')) workspace_id), rows'))
                 (verification_deadline now maximum_seconds))))"

definition on_recovery_deploy_failed ::
  "plan_row option \<Rightarrow> string \<Rightarrow> string \<Rightarrow> string \<Rightarrow> plan_row list \<Rightarrow> recovery_event option \<times> plan_row list"
where
  "on_recovery_deploy_failed record_row workspace_id workflow_run_id why rows =
    (case record_row of
       None \<Rightarrow> (None, rows)
     | Some row \<Rightarrow>
         if pr_status row \<noteq> RECOVERY_STATUS_DEPLOY_PENDING then (None, rows)
         else
           (let lifecycle = dict_update (lifecycle_of row)
                  [(''phase'', PStr RECOVERY_STATUS_FAILED),
                   (''failure'', PDict [(''reason_code'', PStr ''recovery_deploy_failed''),
                      (''reason'', PStr why), (''workflow_run_id'', PStr workflow_run_id)])];
                (saved, rows') = update_recovery_plan_lifecycle_if_status (pr_plan_id row)
                  workspace_id [RECOVERY_STATUS_DEPLOY_PENDING] RECOVERY_STATUS_FAILED lifecycle
                  False rows;
                verification = mapping (pget lifecycle ''verification'')
            in case saved of
                 None \<Rightarrow> (None, rows')
               | Some _ \<Rightarrow>
                   (Some (RecoveryVerificationFailed (pr_plan_id row) (pr_incident_id row)
                      ''recovery_deploy_failed'' (Reported why)
                      (let r = str_or_empty (pr_evidence_ref row) in if r = [] then ''unknown'' else r)
                      (mapping (pget verification ''before'')) [] workspace_id), rows')))"

subsection \<open>An evidence window\<close>

text \<open>A decision as a value: strings and numbers, \<open>None\<close> where there is none.\<close>

definition opt_str :: "string option \<Rightarrow> py" where
  "opt_str x = (case x of None \<Rightarrow> PNone | Some s \<Rightarrow> PStr s)"

definition decision_items :: "(reason \<Rightarrow> string) \<Rightarrow> VerificationDecision \<Rightarrow> pdict" where
  "decision_items show_reason d =
    [(''status'', PStr (vd_status d)),
     (''healthy_since'', opt_str (vd_healthy_since d)),
     (''last_healthy_observed_at'', opt_str (vd_last_healthy_observed_at d)),
     (''distinct_evidence_count'', PInt (vd_distinct_evidence_count d)),
     (''last_evidence_key'', opt_str (vd_last_evidence_key d)),
     (''last_reason_code'', PStr (vd_reason_code d)),
     (''last_reason'', PStr (show_reason (vd_reason d))),
     (''after'', PDict (vd_after d))]"

definition apply_decision :: "(reason \<Rightarrow> string) \<Rightarrow> VerificationDecision \<Rightarrow> pdict \<Rightarrow> pdict" where
  "apply_decision show_reason d verification =
    (let verification = dict_update verification (decision_items show_reason d)
     in case pget (vd_after d) ''protected_active_sessions'' of
          PList samples \<Rightarrow>
            dict_set verification ''last_session_samples'' (PList (filter is_mapping samples))
        | _ \<Rightarrow> verification)"

definition decision_status :: "VerificationDecision \<Rightarrow> string" where
  "decision_status d =
    (if vd_status d = ''completed'' then RECOVERY_STATUS_COMPLETED
     else if vd_status d = ''failed'' then RECOVERY_STATUS_FAILED
     else RECOVERY_STATUS_VERIFICATION_PENDING)"

definition apply_verification_terminal_state ::
  "(reason \<Rightarrow> string) \<Rightarrow> pdict \<Rightarrow> VerificationDecision \<Rightarrow> string \<Rightarrow> pdict" where
  "apply_verification_terminal_state show_reason lifecycle d evidence_ref =
    (if vd_status d = ''failed''
     then dict_set lifecycle ''failure''
            (PDict [(''reason_code'', PStr (vd_reason_code d)),
                    (''reason'', PStr (show_reason (vd_reason d))),
                    (''evidence_ref'', PStr evidence_ref)])
     else if vd_status d = ''completed'' then dict_pop lifecycle ''failure'' else lifecycle)"

text \<open>The alerts handed to the evaluation: the original occurrence and those since the start.\<close>

definition verification_alerts ::
  "(string \<Rightarrow> pdict list) \<Rightarrow> (utc \<Rightarrow> string \<Rightarrow> pdict list) \<Rightarrow> pdict \<Rightarrow> pdict list res" where
  "verification_alerts original_alerts refire_alerts verification =
    (let before_map = mapping (pget verification ''before'');
         original_event_id = str_or_empty (pget before_map ''alert_event_id'');
         subject_key = str_or_empty (pget before_map ''subject_key'')
     in rmap (\<lambda>started_at.
          case started_at of
            None \<Rightarrow> []
          | Some started \<Rightarrow>
              if original_event_id = [] \<or> subject_key = [] then []
              else
                map snd (dict_of
                  (filter (\<lambda>(key, _). key \<noteq> [])
                    (map (\<lambda>alert. (str_or_empty (pget alert ''event_id''), alert))
                      (original_alerts original_event_id @ refire_alerts started subject_key)))))
        (parse_datetime (pget verification ''started_at'')))"

definition next_lifecycle ::
  "(reason \<Rightarrow> string) \<Rightarrow> string \<Rightarrow> pdict \<Rightarrow> VerificationDecision \<Rightarrow> pdict" where
  "next_lifecycle show_reason evidence_ref lifecycle d =
    apply_verification_terminal_state show_reason
      (dict_set
        (dict_set lifecycle ''verification''
          (PDict (apply_decision show_reason d (mapping (pget lifecycle ''verification'')))))
        ''phase'' (PStr (decision_status d)))
      d evidence_ref"

definition decision_events ::
  "plan_row \<Rightarrow> pdict \<Rightarrow> VerificationDecision \<Rightarrow> string \<Rightarrow> string \<Rightarrow> recovery_event list res" where
  "decision_events row verification d evidence_ref workspace_id =
    (let before_map = mapping (pget verification ''before'');
         updated = RecoveryVerificationUpdated (pr_plan_id row) (pr_incident_id row) (vd_status d)
           (vd_reason_code d) (vd_reason d) evidence_ref before_map (vd_after d) workspace_id
     in if vd_status d = ''failed''
        then Inr [updated, RecoveryVerificationFailed (pr_plan_id row) (pr_incident_id row)
                (vd_reason_code d) (vd_reason d) evidence_ref before_map (vd_after d) workspace_id]
        else if vd_status d = ''completed''
        then
          (case dict_get (verification_target verification (pr_payload row)) ''cluster_id'' of
             None \<Rightarrow> Inl KeyError
           | Some cluster_id \<Rightarrow>
               Inr [updated, IncidentResolved (pr_plan_id row) (pr_incident_id row)
                      cluster_id (vd_reason d) evidence_ref before_map (vd_after d)
                      workspace_id])
        else Inr [updated])"

text \<open>The body of the loop over the plans under verification.\<close>

definition evidence_step ::
  "(reason \<Rightarrow> string) \<Rightarrow> (string \<Rightarrow> pdict list) \<Rightarrow> (utc \<Rightarrow> string \<Rightarrow> pdict list) \<Rightarrow> pdict \<Rightarrow> string
    \<Rightarrow> string \<Rightarrow> utc \<Rightarrow> plan_row list \<times> recovery_event list \<Rightarrow> plan_row
    \<Rightarrow> (plan_row list \<times> recovery_event list) res" where
  "evidence_step show_reason original_alerts refire_alerts evidence evidence_key workspace_id now
     st row =
    (let lifecycle = lifecycle_of row
     in rbind (verification_alerts original_alerts refire_alerts (verification_of lifecycle))
          (\<lambda>alerts.
        rbind (evaluate_recovery_evidence (pr_payload row) lifecycle evidence alerts
                 (Dtime now (Some 0))) (\<lambda>d.
          let (saved, rows') = update_recovery_plan_lifecycle_if_status (pr_plan_id row)
                workspace_id [RECOVERY_STATUS_VERIFICATION_PENDING] (decision_status d)
                (next_lifecycle show_reason evidence_key lifecycle d) False (fst st)
          in case saved of
               None \<Rightarrow> Inr (rows', snd st)
             | Some _ \<Rightarrow>
                 rmap (\<lambda>events. (rows', snd st @ events))
                   (decision_events row
                     (apply_decision show_reason d (verification_of lifecycle)) d evidence_key
                     workspace_id))))"

definition on_recovery_verification_evidence ::
  "(reason \<Rightarrow> string) \<Rightarrow> (string \<Rightarrow> pdict list) \<Rightarrow> (utc \<Rightarrow> string \<Rightarrow> pdict list) \<Rightarrow> py \<Rightarrow> string
    \<Rightarrow> string \<Rightarrow> utc \<Rightarrow> plan_row list \<Rightarrow> plan_row list
    \<Rightarrow> (plan_row list \<times> recovery_event list) res" where
  "on_recovery_verification_evidence show_reason original_alerts refire_alerts evidence evidence_key
     workspace_id now records rows =
    (if evidence_key = [] then Inr (rows, [])
     else
       (case evidence of
          PDict payload \<Rightarrow>
            rfold (evidence_step show_reason original_alerts refire_alerts payload evidence_key
                     workspace_id now) (rows, []) records
        | _ \<Rightarrow> Inr (rows, [])))"

subsection \<open>A sequence of windows\<close>

text \<open>
  The windows one plan sees, oldest first: each is evaluated against the lifecycle the previous
  one left, and stored, as long as the verification is pending.
\<close>

inductive verification_run ::
  "(reason \<Rightarrow> string) \<Rightarrow> pdict \<Rightarrow> pdict \<Rightarrow> pdict \<Rightarrow> (window \<times> VerificationDecision) list \<Rightarrow> bool"
  for show_reason :: "reason \<Rightarrow> string" and plan_payload :: pdict and start :: pdict
where
  run_start: "verification_run show_reason plan_payload start start []"
| run_window: "verification_run show_reason plan_payload start lifecycle seen \<Longrightarrow>
    \<forall>(w, d) \<in> set seen. vd_status d = ''pending'' \<Longrightarrow>
    0 \<le> now \<Longrightarrow> now < max_utc \<Longrightarrow>
    read_window plan_payload (verification_of lifecycle) evidence alerts (Dtime now (Some 0)) = Inr w \<Longrightarrow>
    decide_window (verification_of lifecycle) w = Inr d \<Longrightarrow>
    verification_run show_reason plan_payload start
      (next_lifecycle show_reason evidence_ref lifecycle d) (seen @ [(w, d)])"

text \<open>A verification that has just been started: its clock runs and nothing is counted.\<close>

definition just_started :: "pdict \<Rightarrow> bool" where
  "just_started lifecycle \<longleftrightarrow>
    (let v = verification_of lifecycle
     in (\<exists>s. parse_datetime (pget v ''started_at'') = Inr (Some s) \<and> 0 \<le> s)
        \<and> pget v ''healthy_since'' = PNone \<and> pget v ''last_healthy_observed_at'' = PNone
        \<and> nonnegative_int (pget v ''distinct_evidence_count'') \<in> {Inr None, Inr (Some 0)})"

definition counted :: "window \<times> VerificationDecision \<Rightarrow> bool" where
  "counted p \<longleftrightarrow>
    vd_reason_code (snd p) \<notin> {''duplicate_evidence_window'', ''stale_evidence_window''}"

definition time_of :: "window \<Rightarrow> utc" where
  "time_of w = (case w_observed_at w of None \<Rightarrow> 0 | Some t \<Rightarrow> t)"

text \<open>
  The stabilisation chain the stored counters stand for: the latest counted windows, all
  healthy, each later than the one before and within one and a half cadences of it.
\<close>

definition stable_chain :: "int \<Rightarrow> window list \<Rightarrow> bool" where
  "stable_chain cadence chain \<longleftrightarrow>
    (\<forall>w \<in> set chain. healthy_window w \<and> w_observed_at w \<noteq> None
        \<and> 0 \<le> time_of w \<and> time_of w < max_utc)
    \<and> successively (\<lambda>a b. time_of a < time_of b
        \<and> 2 * (time_of b - time_of a) \<le> 3 * cadence * 1000000) chain"

definition counters_of :: "pdict \<Rightarrow> window list \<Rightarrow> bool" where
  "counters_of v chain \<longleftrightarrow>
    pget v ''healthy_since'' = opt_str (if chain = [] then None
      else Some (utc_isoformat (time_of (hd chain))))
    \<and> pget v ''last_healthy_observed_at'' = opt_str (if chain = [] then None
      else Some (utc_isoformat (time_of (last chain))))
    \<and> (\<exists>count. nonnegative_int (pget v ''distinct_evidence_count'') = Inr count
         \<and> (case count of None \<Rightarrow> 0 | Some n \<Rightarrow> n) = int (length chain))"

definition chain_times :: "window list \<Rightarrow> utc option \<times> utc option" where
  "chain_times chain =
    (if chain = [] then (None, None) else (Some (time_of (hd chain)), Some (time_of (last chain))))"

lemma counters_parse:
  assumes "counters_of v chain" and "stable_chain cadence chain"
  shows "parse_datetime (pget v ''healthy_since'') = Inr (fst (chain_times chain))"
    and "parse_datetime (pget v ''last_healthy_observed_at'') = Inr (snd (chain_times chain))"
  using assms
  by (auto simp: counters_of_def stable_chain_def chain_times_def opt_str_def parse_isoformat
      parse_datetime_def [of PNone])

lemma verification_next_lifecycle:
  "verification_of (next_lifecycle show_reason r lc d)
    = apply_decision show_reason d (verification_of lc)"
  by (simp add: next_lifecycle_def apply_verification_terminal_state_def)

lemma apply_decision_get:
  assumes "k \<noteq> ''last_session_samples''"
  shows "pget (apply_decision show_reason d v) k
    = pget (dict_update v (decision_items show_reason d)) k"
  using assms by (cases "pget (vd_after d) ''protected_active_sessions''")
    (simp_all add: apply_decision_def)

lemma apply_decision_fields:
  "pget (apply_decision show_reason d v) ''healthy_since'' = opt_str (vd_healthy_since d)"
  "pget (apply_decision show_reason d v) ''last_healthy_observed_at''
     = opt_str (vd_last_healthy_observed_at d)"
  "pget (apply_decision show_reason d v) ''distinct_evidence_count''
     = PInt (vd_distinct_evidence_count d)"
  "pget (apply_decision show_reason d v) ''last_evidence_key'' = opt_str (vd_last_evidence_key d)"
  by (simp_all add: apply_decision_get decision_items_def)

lemma apply_decision_kept:
  assumes "k \<notin> fst ` set (decision_items show_reason d)" and "k \<noteq> ''last_session_samples''"
  shows "pget (apply_decision show_reason d v) k = pget v k"
  using assms by (simp add: apply_decision_get pget_update_other)

lemma apply_decision_contract:
  "pget (apply_decision show_reason d v) ''started_at'' = pget v ''started_at''"
  "pget (apply_decision show_reason d v) ''deadline_at'' = pget v ''deadline_at''"
  "pget (apply_decision show_reason d v) ''minimum_seconds'' = pget v ''minimum_seconds''"
  "pget (apply_decision show_reason d v) ''expected'' = pget v ''expected''"
  "pget (apply_decision show_reason d v) ''target'' = pget v ''target''"
  "pget (apply_decision show_reason d v) ''before'' = pget v ''before''"
  "pget (apply_decision show_reason d v) ''protected_baseline'' = pget v ''protected_baseline''"
  "pget (apply_decision show_reason d v) ''protected_session_baseline''
     = pget v ''protected_session_baseline''"
  by (simp_all add: apply_decision_kept decision_items_def)

lemma apply_decision_no_samples:
  "\<not> is_list (pget (vd_after d) ''protected_active_sessions'') \<Longrightarrow>
    pget (apply_decision show_reason d v) ''last_session_samples'' = pget v ''last_session_samples''"
  by (cases "pget (vd_after d) ''protected_active_sessions''")
    (simp_all add: apply_decision_def decision_items_def)

lemmas next_fields = verification_next_lifecycle apply_decision_fields apply_decision_contract

definition decision_counters :: "VerificationDecision \<Rightarrow> window list \<Rightarrow> bool" where
  "decision_counters d chain \<longleftrightarrow>
    vd_healthy_since d = (if chain = [] then None else Some (utc_isoformat (time_of (hd chain))))
    \<and> vd_last_healthy_observed_at d
       = (if chain = [] then None else Some (utc_isoformat (time_of (last chain))))
    \<and> vd_distinct_evidence_count d = int (length chain)"

lemma decision_counters_stored:
  "decision_counters d chain \<Longrightarrow> counters_of (apply_decision show_reason d v) chain"
  by (simp add: decision_counters_def counters_of_def apply_decision_fields nonnegative_int_def
      py_int_def)

text \<open>A window that does not count hands the chain back; the stored ISO texts are canonical.\<close>

lemma unchanged_keeps_chain:
  assumes "counters_of v chain" and "stable_chain c chain"
    and "parse_datetime (pget v ''last_healthy_observed_at'') = Inr prev"
    and "nonnegative_int (pget v ''distinct_evidence_count'') = Inr cnt"
  shows "decision_counters (unchanged_decision code why a v prev
    (case cnt of None \<Rightarrow> 0 | Some n \<Rightarrow> n) key) chain"
proof (cases "chain = []")
  case True
  then show ?thesis
    using assms counters_parse(2) [OF assms(1,2)]
    by (auto simp: decision_counters_def unchanged_decision_def counters_of_def opt_str_def
        str_opt_def chain_times_def)
next
  case False
  then have "0 \<le> time_of (hd chain)" "time_of (hd chain) < max_utc"
    using assms(2) by (auto simp: stable_chain_def)
  then have "py_strip (utc_isoformat (time_of (hd chain))) = utc_isoformat (time_of (hd chain))"
      "utc_isoformat (time_of (hd chain)) \<noteq> []"
    using utc_isoformat_strip strip_isoformat [of "time_of (hd chain)"] by fastforce+
  then show ?thesis
    using False assms counters_parse(2) [OF assms(1,2)]
    by (auto simp: decision_counters_def unchanged_decision_def counters_of_def opt_str_def
        str_opt_def chain_times_def)
qed

lemma stable_chain_extend:
  assumes "stable_chain c chain" and "healthy_window w" and "w_observed_at w = Some t"
    and "0 \<le> t" and "t < max_utc"
    and "chain = [] \<or> time_of (last chain) < t \<and> 2 * (t - time_of (last chain)) \<le> 3 * c * 1000000"
  shows "stable_chain c (chain @ [w])"
  using assms by (auto simp: stable_chain_def successively_append_iff time_of_def)

lemma decide_keeps_chain:
  assumes "counters_of v chain" and chain: "stable_chain c chain"
    and d: "decide_window v w = Inr d"
    and m: "300 \<le> w_minimum_seconds w" "w_minimum_seconds w \<le> 600"
    and cadence: "nonnegative_int (pget (mapping (pget v ''expected'')) ''evidence_cadence_seconds'')
          = Inr (Some c)" "c \<le> 1000000000"
    and range: "\<And>s. w_started_at w = Some s \<Longrightarrow> 0 \<le> s" "w_now w < max_utc"
  obtains chain' where "stable_chain c chain'" "decision_counters d chain'"
    "if counted (w, d) then chain' \<in> {[], [w], chain @ [w]} else chain' = chain"
    "vd_status d = ''completed'' \<Longrightarrow> chain' \<noteq> [] \<and> last chain' = w
       \<and> stable_enough (w_minimum_seconds w) c (time_of w - time_of (hd chain')) (int (length chain'))"
  using d
proof (cases rule: decide_window_cases)
  case (unchanged code why prev cnt)
  then show thesis
    using unchanged_keeps_chain [OF assms(1) chain unchanged(2,3)]
    by (intro that [OF chain]) (auto simp: counted_def unchanged_decision_def)
next
  case unhealthy
  then show thesis
    by (intro that [of "[]"]) (auto simp: stable_chain_def decision_counters_def counted_def
        unhealthy_decision_def reset_decision_def Let_def split: if_splits)
next
  case (healthy prev cnt since obs)
  from healthy(1) obtain "0 \<le> obs" "obs < max_utc"
    using healthy(6) range by (elim fresh_windowE) fastforce
  note ext = stable_chain_extend [OF _ healthy(2,6) this]
  from healthy(7) show thesis
  proof (cases rule: healthy_decision_cases)
    case no_cadence
    then show thesis
      by (intro that [of "[]"]) (auto simp: stable_chain_def decision_counters_def counted_def
          reset_decision_def)
  next
    case (measured c' cont)
    have c: "c' = c" "0 < c" using measured(1,2) cadence(1) by auto
    have times: "prev = snd (chain_times chain)" "since = fst (chain_times chain)"
      using counters_parse [OF assms(1) chain] healthy(3,5) by auto
    have cnt_eq: "(case cnt of None \<Rightarrow> 0 | Some n \<Rightarrow> n) = int (length chain)"
      using assms(1) healthy(4) by (auto simp: counters_of_def)
    have cont: "cont \<longleftrightarrow> chain = [] \<or> time_of (last chain) < obs
        \<and> 2 * (obs - time_of (last chain)) \<le> 3 * c * 1000000"
      using measured(3) gap_ok_exact [of c prev obs] c cadence(2) times
      by (auto simp: chain_times_def)
    define chain' where "chain' = (if cont then chain else []) @ [w]"
    have stable: "stable_chain c chain'"
      unfolding chain'_def using chain cont
      by (intro ext) (auto simp: stable_chain_def)
    have obs: "time_of w = obs" using healthy(6) by (simp add: time_of_def)
    have hd: "time_of (hd chain')
        = (case (if cont then since else None) of None \<Rightarrow> obs | Some s \<Rightarrow> s)"
      using times obs by (auto simp: chain'_def chain_times_def)
    have len: "int (length chain') = (if cont then int (length chain) else 0) + 1"
      by (simp add: chain'_def)
    obtain code why where code: "code \<notin> {''duplicate_evidence_window'', ''stale_evidence_window''}"
      and dd: "d = counted_decision
        (if stable_enough (w_minimum_seconds w) c (obs - time_of (hd chain')) (int (length chain'))
         then ''completed''
         else if expired (w_deadline_at w) (w_now w) then ''failed'' else ''pending'') code why
        (stable_after (w_after w) (time_of (hd chain'))
           (max_zero (total_seconds (obs - time_of (hd chain')))) (int (length chain')))
        (time_of (hd chain')) obs (int (length chain'))
        (next_key (w_key w) (text_at v ''last_evidence_key''))"
      using stable_decision_Inr [OF measured(4) m measured(2)] unfolding c cnt_eq hd len by blast
    show thesis
      using code by (intro that [OF stable]) (auto simp: dd decision_counters_def counted_decision_def obs
          chain'_def counted_def split: if_splits)
  qed
qed

text \<open>What a run keeps: the contract of the verification, and a chain for its counters.\<close>

definition run_invariant ::
  "int \<Rightarrow> pdict \<Rightarrow> pdict \<Rightarrow> (window \<times> VerificationDecision) list \<Rightarrow> window list \<Rightarrow> bool" where
  "run_invariant c start lifecycle seen chain \<longleftrightarrow>
    pget (verification_of lifecycle) ''started_at'' = pget (verification_of start) ''started_at''
    \<and> expected_of lifecycle = expected_of start
    \<and> stable_chain c chain \<and> counters_of (verification_of lifecycle) chain
    \<and> suffix chain (map fst (filter counted seen))
    \<and> (seen \<noteq> [] \<and> vd_status (snd (last seen)) = ''completed'' \<longrightarrow>
         chain \<noteq> [] \<and> last chain = fst (last seen)
         \<and> stable_enough (w_minimum_seconds (last chain)) c
             (time_of (last chain) - time_of (hd chain)) (int (length chain)))"

lemma run_invariant_start:
  "just_started start \<Longrightarrow> run_invariant c start start [] []"
  by (auto simp: just_started_def run_invariant_def counters_of_def stable_chain_def opt_str_def
      Let_def)

lemma run_invariant_step:
  assumes "run_invariant c start lifecycle seen chain" and "just_started start"
    and cadence: "nonnegative_int (pget (expected_of start) ''evidence_cadence_seconds'')
      = Inr (Some c)" "c \<le> 1000000000"
    and now: "0 \<le> now" "now < max_utc"
    and w: "read_window plan_payload (verification_of lifecycle) evidence alerts (Dtime now (Some 0))
      = Inr w" and d: "decide_window (verification_of lifecycle) w = Inr d"
  shows "\<exists>chain'. run_invariant c start (next_lifecycle show_reason r lifecycle d) (seen @ [(w, d)])
    chain'"
proof -
  from assms(1) have inv: "stable_chain c chain" "counters_of (verification_of lifecycle) chain"
      "suffix chain (map fst (filter counted seen))" "expected_of lifecycle = expected_of start"
      "pget (verification_of lifecycle) ''started_at'' = pget (verification_of start) ''started_at''"
    by (simp_all add: run_invariant_def)
  from w have r: "300 \<le> w_minimum_seconds w" "w_minimum_seconds w \<le> 600"
      "parse_datetime (pget (verification_of lifecycle) ''started_at'') = Inr (w_started_at w)"
      "normalized_utc (Dtime now (Some 0)) = Inr (w_now w)"
    by (auto elim: read_windowE)
  have "0 \<le> s" if "w_started_at w = Some s" for s
    using assms(2) r(3) inv(5) that by (auto simp: just_started_def Let_def)
  moreover have "w_now w < max_utc"
    using r(4) now by (simp add: normalized_utc_def dtime_utc_def)
  ultimately obtain chain' where c': "stable_chain c chain'" "decision_counters d chain'"
      "if counted (w, d) then chain' \<in> {[], [w], chain @ [w]} else chain' = chain"
      "vd_status d = ''completed'' \<Longrightarrow> chain' \<noteq> [] \<and> last chain' = w
       \<and> stable_enough (w_minimum_seconds w) c (time_of w - time_of (hd chain')) (int (length chain'))"
    using decide_keeps_chain [OF inv(2,1) d r(1,2) _ cadence(2)] cadence(1) inv(4) by metis
  have "suffix chain' (map fst (filter counted (seen @ [(w, d)])))"
    using c'(3) inv(3) by (cases "counted (w, d)") (auto simp: suffix_def)
  then show ?thesis
    using inv(4,5) c' decision_counters_stored [OF c'(2)]
    by (intro exI [of _ chain']) (simp add: run_invariant_def next_fields)
qed

lemma run_has_invariant:
  assumes "verification_run show_reason plan_payload start lifecycle seen" and "just_started start"
    and "nonnegative_int (pget (expected_of start) ''evidence_cadence_seconds'') = Inr (Some c)"
    and "c \<le> 1000000000"
  shows "\<exists>chain. run_invariant c start lifecycle seen chain"
  using assms
proof (induction rule: verification_run.induct)
  case run_start
  then show ?case using run_invariant_start by blast
next
  case (run_window lifecycle seen now evidence alerts w d evidence_ref)
  then show ?case using run_invariant_step by meson
qed

text \<open>
  C1. The durable meaning of completion. Over any sequence of windows that the handler evaluates
  and stores after a verification has started, completion implies a chain of windows ending in
  the completing one: every window that counted since the chain began is healthy and in the
  chain, each is later than the one before by at most one and a half cadences, the chain spans
  at least the minimum (300 to 600 seconds), and it has at least the required number of windows.
  A restart of the worker, a redelivery and an out-of-order window cannot shorten it, since the
  counters are read back from the stored ISO texts.
\<close>

theorem completed_run_has_stable_chain:
  assumes "verification_run show_reason plan_payload start lifecycle (seen @ [(w, d)])"
    and "just_started start"
    and "nonnegative_int (pget (expected_of start) ''evidence_cadence_seconds'') = Inr (Some c)"
    and "c \<le> 1000000000" and "vd_status d = ''completed''"
  shows "\<exists>chain. suffix chain (map fst (filter counted (seen @ [(w, d)])))
    \<and> chain \<noteq> [] \<and> last chain = w
    \<and> (\<forall>x \<in> set chain. healthy_window x)
    \<and> successively (\<lambda>a b. time_of a < time_of b
        \<and> 2 * (time_of b - time_of a) \<le> 3 * c * 1000000) chain
    \<and> w_minimum_seconds w * 1000000 \<le> time_of w - time_of (hd chain)
    \<and> max 2 (\<lceil>(of_int (w_minimum_seconds w) / of_int c :: rat)\<rceil> + 1) \<le> int (length chain)"
proof -
  obtain chain where "run_invariant c start lifecycle (seen @ [(w, d)]) chain"
    using run_has_invariant [OF assms(1-4)] by blast
  then show ?thesis
    using assms(5)
    by (intro exI [of _ chain]) (auto simp: run_invariant_def stable_chain_def stable_enough_def)
qed

subsection \<open>The compare-and-set transition\<close>

lemma cas_None:
  "update_recovery_plan_lifecycle_if_status plan_id ws expected st lc clear rows = (None, rows') \<Longrightarrow>
    rows' = rows \<and> (\<forall>row \<in> set rows. \<not> row_matches plan_id ws expected row)"
  by (induction rows arbitrary: rows') (auto simp: Let_def split: if_splits prod.splits)

lemma cas_Some:
  assumes "update_recovery_plan_lifecycle_if_status plan_id ws expected st lc clear rows
    = (Some row', rows')"
  obtains before_rows row after_rows where
    "rows = before_rows @ row # after_rows" "row_matches plan_id ws expected row"
    "\<forall>r \<in> set before_rows. \<not> row_matches plan_id ws expected r"
    "row' = row_update st lc clear row" "rows' = before_rows @ row' # after_rows"
  using assms
proof (induction rows arbitrary: rows' thesis)
  case (Cons r rows)
  show ?case
  proof (cases "row_matches plan_id ws expected r")
    case True
    then show ?thesis using Cons.prems(2) by (intro Cons.prems(1) [of "[]" r rows]) (auto simp: Let_def)
  next
    case False
    then obtain rows'' where *: "update_recovery_plan_lifecycle_if_status plan_id ws expected st lc
        clear rows = (Some row', rows'')" "rows' = r # rows''"
      using Cons.prems(2) by (auto simp: Let_def split: prod.splits)
    from *(1) obtain xs row ys where "rows = xs @ row # ys" "row_matches plan_id ws expected row"
        "\<forall>r \<in> set xs. \<not> row_matches plan_id ws expected r"
        "row' = row_update st lc clear row" "rows'' = xs @ row' # ys"
      by (rule Cons.IH [rotated])
    with False *(2) show ?thesis by (intro Cons.prems(1) [of "r # xs" row ys]) auto
  qed
qed simp

text \<open>
  Two stores agree outside the rows in a given status: row by row, a row in another status is
  the same, and no row changes its identity.
\<close>

definition same_except :: "string \<Rightarrow> plan_row list \<Rightarrow> plan_row list \<Rightarrow> bool" where
  "same_except st rows rows' \<longleftrightarrow>
    list_all2 (\<lambda>r r'. pr_plan_id r' = pr_plan_id r \<and> pr_workspace_id r' = pr_workspace_id r
      \<and> (pr_status r \<noteq> st \<longrightarrow> r' = r)) rows rows'"

lemma same_except_refl [simp]: "same_except st rows rows"
  by (simp add: same_except_def list_all2_same)

lemma same_except_trans:
  "same_except st a b \<Longrightarrow> same_except st b c \<Longrightarrow> same_except st a c"
  unfolding same_except_def by (rule list_all2_trans) auto

lemma row_update_id [simp]:
  "pr_plan_id (row_update st lc clear row) = pr_plan_id row"
  "pr_workspace_id (row_update st lc clear row) = pr_workspace_id row"
  "pr_status (row_update st lc clear row) = st"
  by (simp_all add: row_update_def Let_def)

lemma cas_same_except:
  assumes "update_recovery_plan_lifecycle_if_status plan_id ws [st] st' lc clear rows = (saved, rows')"
  shows "same_except st rows rows'"
proof (cases saved)
  case None
  then show ?thesis using cas_None assms by fastforce
next
  case (Some row')
  from assms [unfolded Some] obtain xs row ys where *: "rows = xs @ row # ys"
      "row_matches plan_id ws [st] row" "row' = row_update st' lc clear row" "rows' = xs @ row' # ys"
    by (rule cas_Some)
  then have "pr_status row = st" by (simp add: row_matches_def)
  with * show ?thesis
    by (auto simp: same_except_def list_all2_same intro!: list_all2_appendI)
qed

lemma evidence_stepE:
  assumes "evidence_step show_reason oa ra payload key ws now st row = Inr st'"
  obtains alerts d saved rows' where
    "verification_alerts oa ra (verification_of (lifecycle_of row)) = Inr alerts"
    "evaluate_recovery_evidence (pr_payload row) (lifecycle_of row) payload alerts
       (Dtime now (Some 0)) = Inr d"
    "update_recovery_plan_lifecycle_if_status (pr_plan_id row) ws
       [RECOVERY_STATUS_VERIFICATION_PENDING] (decision_status d)
       (next_lifecycle show_reason key (lifecycle_of row) d) False (fst st) = (saved, rows')"
    "fst st' = rows'"
    "saved = None \<longrightarrow> snd st' = snd st"
    "saved \<noteq> None \<longrightarrow> (\<exists>events. snd st' = snd st @ events \<and>
       decision_events row (apply_decision show_reason d (verification_of (lifecycle_of row)))
         d key ws = Inr events)"
proof -
  from assms obtain alerts d where a: "verification_alerts oa ra (verification_of (lifecycle_of row)) = Inr alerts"
    and d: "evaluate_recovery_evidence (pr_payload row) (lifecycle_of row) payload alerts
       (Dtime now (Some 0)) = Inr d"
    by (auto simp: evidence_step_def Let_def elim!: rbind_InrE)
  obtain saved rows' where u: "update_recovery_plan_lifecycle_if_status (pr_plan_id row) ws
       [RECOVERY_STATUS_VERIFICATION_PENDING] (decision_status d)
       (next_lifecycle show_reason key (lifecycle_of row) d) False (fst st) = (saved, rows')"
    by (rule prod.exhaust)
  show thesis
    using assms by (intro that [OF a d u]) (auto simp: evidence_step_def a d u rmap_Inr_iff split: option.splits)
qed

lemma evidence_step_same_except:
  assumes "evidence_step show_reason oa ra payload key ws now st row = Inr st'"
  shows "same_except RECOVERY_STATUS_VERIFICATION_PENDING (fst st) (fst st')"
  using assms by (rule evidence_stepE) (simp add: cas_same_except)

lemma evidence_handler_same_except:
  assumes "on_recovery_verification_evidence show_reason oa ra evidence key ws now records rows
    = Inr (rows', events)"
  shows "same_except RECOVERY_STATUS_VERIFICATION_PENDING rows rows'"
proof -
  have fold: "same_except RECOVERY_STATUS_VERIFICATION_PENDING (fst st) (fst st')"
    if "rfold (evidence_step show_reason oa ra payload key ws now) st records = Inr st'"
    for payload st st'
    using that
  proof (induction records arbitrary: st)
    case (Cons row records)
    then show ?case
      by (auto simp: rbind_Inr_iff dest!: evidence_step_same_except intro: same_except_trans)
  qed simp
  show ?thesis
    using assms fold
    by (auto simp: on_recovery_verification_evidence_def split: if_splits py.splits)
qed

text \<open>
  C24. Terminal recovery states are final. Whatever rows an evidence event was read for (stale
  copies included), handling it leaves every plan that is not under verification exactly as it
  is, and never changes which plan a row belongs to.
\<close>

theorem evidence_keeps_other_plans:
  assumes "on_recovery_verification_evidence show_reason original_alerts refire_alerts evidence
      evidence_key workspace_id now records rows = Inr (rows', events)"
    and "i < length rows" and "pr_status (rows ! i) \<noteq> RECOVERY_STATUS_VERIFICATION_PENDING"
  shows "length rows' = length rows \<and> rows' ! i = rows ! i"
  using evidence_handler_same_except [OF assms(1)] assms(2,3)
  by (auto simp: same_except_def list_all2_conv_all_nth)

subsection \<open>What an event announces\<close>

definition is_resolved :: "recovery_event \<Rightarrow> bool" where
  "is_resolved e = (case e of IncidentResolved _ _ _ _ _ _ _ _ \<Rightarrow> True | _ \<Rightarrow> False)"

text \<open>
  Between two stores: every announced resolution is of a plan that was under verification in the
  first one and is completed in the second.
\<close>

definition resolutions_backed :: "plan_row list \<Rightarrow> plan_row list \<times> recovery_event list \<Rightarrow> bool" where
  "resolutions_backed rows st \<longleftrightarrow>
    same_except RECOVERY_STATUS_VERIFICATION_PENDING rows (fst st)
    \<and> (\<forall>e \<in> set (snd st). is_resolved e \<longrightarrow>
        (\<exists>i < length rows. pr_plan_id (rows ! i) = re_plan e
          \<and> pr_status (rows ! i) = RECOVERY_STATUS_VERIFICATION_PENDING
          \<and> pr_status (fst st ! i) = RECOVERY_STATUS_COMPLETED))"

lemmas recovery_status_defs = RECOVERY_STATUS_DEPLOY_PENDING_def
  RECOVERY_STATUS_VERIFICATION_PENDING_def RECOVERY_STATUS_COMPLETED_def RECOVERY_STATUS_FAILED_def

lemma decision_events_resolved:
  assumes "decision_events row v d key ws = Inr events" and "e \<in> set events" and "is_resolved e"
  shows "re_plan e = pr_plan_id row \<and> decision_status d = RECOVERY_STATUS_COMPLETED"
  using assms
  by (auto simp: decision_events_def Let_def is_resolved_def decision_status_def
      split: if_splits option.splits)

lemma cas_Some_nth:
  assumes "update_recovery_plan_lifecycle_if_status plan_id ws expected st lc clear rows
    = (Some row', rows')"
  shows "\<exists>i < length rows. row_matches plan_id ws expected (rows ! i) \<and> pr_status (rows' ! i) = st"
  using assms by (rule cas_Some) (auto intro!: exI [of _ "length _"] simp: nth_append)

lemma evidence_step_backed:
  assumes "evidence_step show_reason oa ra payload key ws now st row = Inr st'"
    and "resolutions_backed rows st"
  shows "resolutions_backed rows st'"
proof -
  let ?P = RECOVERY_STATUS_VERIFICATION_PENDING
  have before_st: "same_except ?P rows (fst st)" and len: "length (fst st) = length rows"
    using assms(2) by (auto simp: resolutions_backed_def same_except_def list_all2_lengthD)
  have step: "same_except ?P (fst st) (fst st')" using assms(1) by (rule evidence_step_same_except)
  have kept: "pr_status (fst st' ! i) = RECOVERY_STATUS_COMPLETED"
    if "i < length rows" "pr_status (fst st ! i) = RECOVERY_STATUS_COMPLETED" for i
    using step that len
    by (auto simp: same_except_def list_all2_conv_all_nth recovery_status_defs)
  have was_pending: "pr_plan_id (rows ! i) = p \<and> pr_status (rows ! i) = ?P"
    if "i < length rows" "row_matches p ws [?P] (fst st ! i)" for i p
    using before_st that by (auto simp: same_except_def list_all2_conv_all_nth row_matches_def)
  from assms(1) obtain alerts d saved rows' where
      "verification_alerts oa ra (verification_of (lifecycle_of row)) = Inr alerts"
      "evaluate_recovery_evidence (pr_payload row) (lifecycle_of row) payload alerts
         (Dtime now (Some 0)) = Inr d"
    and u: "update_recovery_plan_lifecycle_if_status (pr_plan_id row) ws [?P] (decision_status d)
        (next_lifecycle show_reason key (lifecycle_of row) d) False (fst st) = (saved, rows')"
      "fst st' = rows'" "saved = None \<longrightarrow> snd st' = snd st"
      "saved \<noteq> None \<longrightarrow> (\<exists>events. snd st' = snd st @ events \<and>
         decision_events row (apply_decision show_reason d (verification_of (lifecycle_of row)))
           d key ws = Inr events)"
    by (rule evidence_stepE)
  have "\<exists>i < length rows. pr_plan_id (rows ! i) = re_plan e \<and> pr_status (rows ! i) = ?P
        \<and> pr_status (fst st' ! i) = RECOVERY_STATUS_COMPLETED"
    if e: "e \<in> set (snd st')" "is_resolved e" for e
  proof (cases "e \<in> set (snd st)")
    case True
    then show ?thesis using assms(2) kept e(2) unfolding resolutions_backed_def by blast
  next
    case False
    then obtain saved_row events where s: "saved = Some saved_row" "e \<in> set events"
        "decision_events row (apply_decision show_reason d (verification_of (lifecycle_of row)))
           d key ws = Inr events"
      using e(1) u(3,4) by (cases saved) fastforce+
    from cas_Some_nth [OF u(1) [unfolded s(1)]] decision_events_resolved [OF s(3,2) e(2)]
    show ?thesis using was_pending len u(2) by fastforce
  qed
  then show ?thesis
    using same_except_trans [OF before_st step] by (simp add: resolutions_backed_def)
qed

text \<open>
  C22. An incident is announced as resolved only with a durable completion: for every
  \<open>IncidentResolved\<close> event of an evidence window there is a plan row that was under verification
  when the window arrived and is completed in the store afterwards.
\<close>

theorem resolved_only_for_completed:
  assumes "on_recovery_verification_evidence show_reason original_alerts refire_alerts evidence
      evidence_key workspace_id now records rows = Inr (rows', events)"
    and "e \<in> set events" and "is_resolved e"
  shows "\<exists>i < length rows. pr_plan_id (rows ! i) = re_plan e
    \<and> pr_status (rows ! i) = RECOVERY_STATUS_VERIFICATION_PENDING
    \<and> pr_status (rows' ! i) = RECOVERY_STATUS_COMPLETED"
proof -
  have "resolutions_backed rows st'"
    if "rfold (evidence_step show_reason original_alerts refire_alerts payload evidence_key
          workspace_id now) st records = Inr st'" "resolutions_backed rows st" for payload st st'
    using that
    by (induction records arbitrary: st) (auto simp: rbind_Inr_iff intro: evidence_step_backed)
  moreover have "resolutions_backed rows (rows, [])" by (simp add: resolutions_backed_def)
  ultimately have "resolutions_backed rows (rows', events)"
    using assms(1)
    by (auto simp: on_recovery_verification_evidence_def split: if_splits py.splits)
  then show ?thesis using assms(2,3) by (simp add: resolutions_backed_def)
qed

text \<open>
  C25. Starting a verification. When the start is announced, exactly one plan row changed: it was
  waiting for its deployment and is now under verification, with the clock set to the database
  time, the deadline at the contract's maximum after it, and the healthy mark cleared. A second
  start for the same plan (the other webhook, or a redelivery) finds no row waiting.
\<close>

theorem start_sets_the_clock:
  assumes "start_recovery_verification show_reason (Some row) workflow now workspace_id
      workflow_run_id binding_id application_id rows = Inr (Some e, rows')"
    and "0 \<le> now" and "now < max_utc"
  shows "\<exists>before_rows old row' after_rows maximum.
    rows = before_rows @ old # after_rows \<and> rows' = before_rows @ row' # after_rows
    \<and> row_matches (pr_plan_id row) workspace_id [RECOVERY_STATUS_DEPLOY_PENDING] old
    \<and> pr_status row' = RECOVERY_STATUS_VERIFICATION_PENDING \<and> pr_plan_id row' = re_plan e
    \<and> py_int (py_or (pget (verification_of (lifecycle_of row)) ''maximum_seconds'')
        (PInt DEFAULT_MAXIMUM_SECONDS)) = Inr maximum
    \<and> (let v = verification_of (lifecycle_of row') in
        parse_datetime (pget v ''started_at'') = Inr (Some now)
        \<and> parse_datetime (pget v ''deadline_at'') = Inr (Some (now + maximum * 1000000))
        \<and> pget v ''healthy_since'' = PNone)"
proof -
  let ?v = "mapping (pget (lifecycle_of row) ''verification'')"
  obtain maximum deadline where m: "py_int (py_or (pget ?v ''maximum_seconds'')
        (PInt DEFAULT_MAXIMUM_SECONDS)) = Inr maximum"
      "verification_deadline now maximum = Inr deadline"
    using assms(1)
    by (auto simp: start_recovery_verification_def Let_def rbind_Inr_iff rmap_Inr_iff split: if_splits)
  then have d: "deadline = now + maximum * 1000000" "0 \<le> deadline" "deadline < max_utc"
    by (auto simp: verification_deadline_def Let_def split: if_splits)
  let ?w = "started_verification show_reason ?v now deadline"
  let ?lc = "dict_update (lifecycle_of row)
    [(''phase'', PStr RECOVERY_STATUS_VERIFICATION_PENDING), (''verification'', PDict ?w)]"
  obtain row' where saved: "update_recovery_plan_lifecycle_if_status (pr_plan_id row) workspace_id
        [RECOVERY_STATUS_DEPLOY_PENDING] RECOVERY_STATUS_VERIFICATION_PENDING ?lc False rows
        = (Some row', rows')" "re_plan e = pr_plan_id row"
    using assms(1) m
    by (auto simp: start_recovery_verification_def Let_def split: if_splits prod.splits option.splits)
  from saved(1) obtain xs old ys where rows: "rows = xs @ old # ys" "rows' = xs @ row' # ys"
      "row_matches (pr_plan_id row) workspace_id [RECOVERY_STATUS_DEPLOY_PENDING] old"
      "row' = row_update RECOVERY_STATUS_VERIFICATION_PENDING ?lc False old"
    by (rule cas_Some)
  then have v: "verification_of (lifecycle_of row') = ?w"
    by (simp add: row_update_def lifecycle_of_def)
  have "parse_datetime (pget ?w ''started_at'') = Inr (Some now)"
      "parse_datetime (pget ?w ''deadline_at'') = Inr (Some (now + maximum * 1000000))"
      "pget ?w ''healthy_since'' = PNone"
    using assms(2,3) d by (simp_all add: started_verification_def parse_isoformat)
  with rows v m(1) saved(2) show ?thesis
    by (intro exI [of _ xs] exI [of _ old] exI [of _ row'] exI [of _ ys] exI [of _ maximum])
      (simp add: row_matches_def)
qed

end
