(* ===== verification/Recovery_Example.thy ===== *)
theory Recovery_Example
  imports Recovery_Lifecycle
begin

text \<open>
  A concrete recovery: the Deployment \<open>shop/checkout\<close> with two replicas, its SLI series, the
  alert occurrence it started from, and the evidence windows that follow. The theorems on the
  evaluation are applied to it.
\<close>

subsection \<open>The data\<close>

definition sli_labels :: pdict where
  "sli_labels =
    [(''namespace'', PStr ''shop''), (''resource_kind'', PStr ''Deployment''),
     (''resource_name'', PStr ''checkout''), (''service'', PStr ''checkout''),
     (''sli'', PStr ''admission''), (''symptom'', PStr ''errors'')]"

definition demo_target :: pdict where
  "demo_target =
    [(''cluster_id'', PStr ''c1''), (''namespace'', PStr ''shop''),
     (''resource_kind'', PStr ''Deployment''), (''resource_name'', PStr ''checkout'')]"

definition demo_before :: pdict where
  "demo_before =
    [(''alert_event_id'', PStr ''a1''), (''rule_id'', PStr ''r1''),
     (''rule_name'', PStr STANDARD_SLI_ALERT_NAME), (''source'', PStr ''alertmanager''),
     (''subject_key'', PStr ''k1''), (''series_identity'', PDict sli_labels)]"

definition demo_alert :: "string \<Rightarrow> string \<Rightarrow> pdict" where
  "demo_alert event_id st =
    [(''event_id'', PStr event_id), (''rule_id'', PStr ''r1''),
     (''rule_name'', PStr STANDARD_SLI_ALERT_NAME), (''source'', PStr ''alertmanager''),
     (''subject_key'', PStr ''k1''), (''series_identity'', PDict sli_labels),
     (''status'', PStr st), (''fired_at'', PUtc 900000000), (''resolved_at'', PUtc 950000000),
     (''incident_id'', PStr ''i1''),
     (''observed_value'', PFloat (Fin (1 / 2))), (''threshold'', PFloat (Fin (1 / 32))),
     (''subject'', PDict [(''cluster'', PStr ''c1''), (''namespace'', PStr ''shop''),
                          (''kind'', PStr ''Deployment''), (''name'', PStr ''checkout'')])]"

definition demo_expected :: "int \<Rightarrow> pdict" where
  "demo_expected cadence =
    [(''failure_ratio_max'', PFloat (Fin (1 / 32))), (''request_rate_baseline'', PFloat (Fin 10)),
     (''request_rate_tolerance_ratio'', PFloat (Fin 0)), (''replicas'', PInt 2),
     (''evidence_cadence_seconds'', PInt cadence), (''protected_workloads'', PInt 0)]"

text \<open>Times are microseconds; the verification starts at 1000 s and expires at 1600 s.\<close>

definition demo_lifecycle :: "int \<Rightarrow> py \<Rightarrow> py \<Rightarrow> int \<Rightarrow> string \<Rightarrow> pdict" where
  "demo_lifecycle cadence since previous n key =
    [(''verification'', PDict
       [(''minimum_seconds'', PInt 300), (''expected'', PDict (demo_expected cadence)),
        (''before'', PDict demo_before), (''target'', PDict demo_target),
        (''started_at'', PUtc 1000000000), (''deadline_at'', PUtc 1600000000),
        (''healthy_since'', since), (''last_healthy_observed_at'', previous),
        (''distinct_evidence_count'', PInt n), (''last_evidence_key'', PStr key)])]"

definition sli_result :: "rat \<Rightarrow> py" where
  "sli_result v =
    PDict [(''samples'', PList [PDict [(''metric'', PDict sli_labels), (''value'', PFloat (Fin v))]])]"

definition demo_evidence :: "string \<Rightarrow> utc \<Rightarrow> rat \<Rightarrow> pdict" where
  "demo_evidence key window_start ratio =
    [(''evidence_key'', PStr key), (''window_start'', PUtc window_start),
     (''metrics'', PDict [(''results'', PDict
        [(STANDARD_FAILURE_RATIO_METRIC, sli_result ratio),
         (STANDARD_REQUEST_RATE_METRIC, sli_result 10)])]),
     (''metadata'', PDict [(''current_workload_snapshots'', PList [PDict
        [(''workload'', PDict [(''kind'', PStr ''Deployment''), (''namespace'', PStr ''shop''),
            (''name'', PStr ''checkout''), (''generation'', PInt 7)]),
         (''deployment_status'', PDict [(''observed_generation'', PInt 7),
            (''desired_replicas'', PInt 2), (''ready_replicas'', PInt 2),
            (''updated_replicas'', PInt 2), (''available_replicas'', PInt 2)])]])])]"

lemmas demo_defs = sli_labels_def demo_target_def demo_before_def demo_alert_def
  demo_expected_def demo_lifecycle_def sli_result_def demo_evidence_def

lemmas evidence_defs = metric_sample_def metric_sample_with_identity_def metric_match_def
  exact_standard_sli_label_set_def STANDARD_SLI_IDENTITY_LABELS_def
  STANDARD_FAILURE_RATIO_METRIC_def STANDARD_REQUEST_RATE_METRIC_def STANDARD_SLI_ALERT_NAME_def
  metric_identity_def metric_labels_match_target_def deployment_replicas_def
  current_workload_snapshots_def deployment_match_def deployment_status_of_def

lemma demo_failure_ratio:
  "metric_sample (demo_evidence key t r) STANDARD_FAILURE_RATIO_METRIC demo_target []
    = Inr (Some (Fin r))"
  by code_simp

lemma demo_request_rate:
  "metric_sample (demo_evidence key t r) STANDARD_REQUEST_RATE_METRIC demo_target []
    = Inr (Some (Fin 10))"
  by code_simp

lemma demo_deployment:
  "deployment_replicas (demo_evidence key t r) demo_target =
    Inr (Some [(''generation'', PInt 7), (''observed_generation'', PInt 7),
       (''desired_replicas'', PInt 2), (''ready_replicas'', PInt 2), (''updated_replicas'', PInt 2),
       (''available_replicas'', PInt 2), (''unavailable_replicas'', PNone),
       (''unavailable_replicas_omitted'', PBool True)])"
  by code_simp

lemma demo_protected:
  "protected_workloads (demo_evidence key t r) demo_target PNone = Inr (Some [])"
  by code_simp

lemma demo_sessions:
  "protected_active_session_series (demo_evidence key t r) PNone PNone PNone obs age = Inr None"
  by code_simp

lemma demo_alert_checks:
  "alert_checks [demo_alert ''a1'' ''resolved''] demo_before demo_target (Some 1000000000)
    = Inr (Some True, Some True)"
  by code_simp

lemma parse_utc:
  "0 \<le> u \<Longrightarrow> u < max_utc \<Longrightarrow> parse_datetime (PUtc u) = Inr (Some u)"
  by (simp add: parse_datetime_def normalized_utc_def dtime_utc_def)

definition demo_observed :: "rat \<Rightarrow> pdict" where
  "demo_observed r =
    [(''failure_ratio'', PFloat (Fin r)), (''request_rate'', PFloat (Fin 10)),
     (''deployment'', PDict [(''generation'', PInt 7), (''observed_generation'', PInt 7),
       (''desired_replicas'', PInt 2), (''ready_replicas'', PInt 2), (''updated_replicas'', PInt 2),
       (''available_replicas'', PInt 2), (''unavailable_replicas'', PNone),
       (''unavailable_replicas_omitted'', PBool True)]),
     (''protected_workloads'', PList []), (''protected_active_sessions'', PNone)]"

lemma demo_observed_after:
  assumes "0 \<le> t" and "t < max_utc"
  shows "observed_after (demo_evidence key t r) demo_target (demo_expected cadence) PNone PNone PNone
    = Inr (demo_observed r)"
proof -
  have "parse_datetime (pget (demo_evidence key t r) ''window_start'') = Inr (Some t)"
    using parse_utc [OF assms] by (simp add: demo_evidence_def)
  then show ?thesis
    unfolding observed_after_def py_or_def
    by (simp add: demo_expected_def demo_failure_ratio demo_request_rate demo_deployment
        demo_protected demo_sessions opt_float_def demo_observed_def)
qed

lemma fl_of_rat_0: "fl_of_rat 0 = Fin 0"
  by (simp add: fl_of_rat_def rnd_pos_def)

lemma demo_replica_status:
  "replica_status_of (mapping (pget (demo_observed r) ''deployment'')) =
    Inr \<lparr>rs_desired = Some 2, rs_ready = Some 2, rs_updated = Some 2, rs_available = Some 2,
         rs_unavailable = None, rs_unavailable_omitted = True, rs_generation = Some 7,
         rs_observed_generation = Some 7\<rparr>"
  by code_simp

lemmas check_defs = failure_ratio_check_def request_rate_check_def both_equal_def
  unavailable_check_def omitted_unavailable_means_zero_def protected_all_healthy_def
  protected_active_sessions_maintained_def finite_float_def nonnegative_int_def py_float_def
  py_int_def

lemma demo_checks:
  "verification_checks (demo_observed r) [demo_alert ''a1'' ''resolved''] demo_before
     demo_target (demo_expected cadence) PNone PNone (Some 1000000000)
    = Inr ((''failure_ratio_below_threshold'', Some (r \<le> 1 / 32))
           # map (\<lambda>name. (name, Some True)) (tl check_names))"
  unfolding verification_checks_def demo_replica_status demo_alert_checks
  by (simp add: demo_observed_def demo_expected_def check_defs check_names_def fl_sub_def
      fl_mul_def fl_of_rat_0 fl_lt_Fin)

definition demo_window :: "string \<Rightarrow> utc \<Rightarrow> rat \<Rightarrow> utc \<Rightarrow> window" where
  "demo_window key t r now =
    (let checks = (''failure_ratio_below_threshold'', Some (r \<le> 1 / 32))
           # map (\<lambda>name. (name, Some True)) (tl check_names)
     in \<lparr>w_started_at = Some 1000000000, w_deadline_at = Some 1600000000,
         w_minimum_seconds = 300, w_observed_at = Some t, w_key = key, w_now = now,
         w_checks = checks,
         w_after = recorded_after (demo_observed r) checks now (Some t) key\<rparr>)"

lemma demo_window_fields [simp]:
  "w_started_at (demo_window key t r now) = Some 1000000000"
  "w_deadline_at (demo_window key t r now) = Some 1600000000"
  "w_minimum_seconds (demo_window key t r now) = 300"
  "w_observed_at (demo_window key t r now) = Some t"
  "w_key (demo_window key t r now) = key"
  "w_now (demo_window key t r now) = now"
  by (simp_all add: demo_window_def Let_def)

lemma demo_window_checks:
  "failed_checks (w_checks (demo_window key t r now))
    = (if r \<le> 1 / 32 then [] else [''failure_ratio_below_threshold''])"
  "missing_checks (w_checks (demo_window key t r now)) = []"
  by (simp_all add: demo_window_def Let_def check_names_def failed_checks_def missing_checks_def)

lemma demo_read_window:
  assumes "0 \<le> t" and "t < max_utc" and "0 \<le> now" and "now < max_utc" and "py_strip key = key"
  shows "read_window p (verification_of (demo_lifecycle cadence since previous n key'))
      (demo_evidence key t r) [demo_alert ''a1'' ''resolved''] (Dtime now (Some 0))
    = Inr (demo_window key t r now)"
proof -
  let ?v = "verification_of (demo_lifecycle cadence since previous n key')"
  have v: "pget ?v ''started_at'' = PUtc 1000000000" "pget ?v ''deadline_at'' = PUtc 1600000000"
      "pget ?v ''minimum_seconds'' = PInt 300" "pget ?v ''expected'' = PDict (demo_expected cadence)"
      "pget ?v ''before'' = PDict demo_before" "pget ?v ''protected_baseline'' = PNone"
      "pget ?v ''protected_session_baseline'' = PNone" "pget ?v ''last_session_samples'' = PNone"
      "verification_target ?v p = demo_target"
    by (simp_all add: demo_lifecycle_def verification_target_def demo_target_def)
  have "pget (demo_evidence key t r) ''window_start'' = PUtc t"
      "text_at (demo_evidence key t r) ''evidence_key'' = key"
    using assms(5) by (simp_all add: demo_evidence_def)
  moreover have "parse_datetime (PUtc 1000000000) = Inr (Some 1000000000)"
      "parse_datetime (PUtc 1600000000) = Inr (Some 1600000000)"
    by (simp_all add: parse_utc max_utc_def)
  moreover have "bounded_seconds (PInt 300) 300 300 600 = Inr 300"
    by (simp add: bounded_seconds_def nonnegative_int_def py_int_def)
  ultimately show ?thesis
    using assms
    by (simp add: read_window_def v Let_def parse_utc demo_observed_after demo_checks
        DEFAULT_MINIMUM_SECONDS_def DEFAULT_MAXIMUM_SECONDS_def normalized_utc_def dtime_utc_def
        demo_window_def)
qed

lemma demo_evaluate:
  assumes "0 \<le> t" and "t < max_utc" and "0 \<le> now" and "now < max_utc" and "py_strip key = key"
  shows "evaluate_recovery_evidence p (demo_lifecycle cadence since previous n key')
      (demo_evidence key t r) [demo_alert ''a1'' ''resolved''] (Dtime now (Some 0))
    = decide_window (verification_of (demo_lifecycle cadence since previous n key')) (demo_window key t r now)"
  using demo_read_window [OF assms, of p cadence since previous n key' r]
  by (simp add: evaluate_recovery_evidence_def Let_def)

lemma demo_verification:
  "pget (verification_of (demo_lifecycle cadence since previous n key)) ''last_healthy_observed_at'' = previous"
  "pget (verification_of (demo_lifecycle cadence since previous n key)) ''healthy_since'' = since"
  "pget (verification_of (demo_lifecycle cadence since previous n key)) ''distinct_evidence_count'' = PInt n"
  "pget (verification_of (demo_lifecycle cadence since previous n key)) ''last_evidence_key'' = PStr key"
  "pget (verification_of (demo_lifecycle cadence since previous n key)) ''expected'' = PDict (demo_expected cadence)"
  by (simp_all add: demo_lifecycle_def)

lemma demo_numbers:
  "0 \<le> n \<Longrightarrow> nonnegative_int (PInt n) = Inr (Some n)"
  "0 \<le> cadence \<Longrightarrow> nonnegative_int (pget (demo_expected cadence) ''evidence_cadence_seconds'')
     = Inr (Some cadence)"
  "minimum_distinct 300 60 = Inr 6"
  "minimum_distinct 300 300 = Inr 2"
  using minimum_distinct_exact [of 300 60] minimum_distinct_exact [of 300 300]
  by (simp_all add: nonnegative_int_def py_int_def demo_expected_def)

lemma parse_none: "parse_datetime PNone = Inr None"
  by (simp add: parse_datetime_def)

lemma strip_key: "py_strip [CHR ''e'', c] = (if is_py_space c then ''e'' else [CHR ''e'', c])"
  by (simp add: py_strip_def is_py_space_def)

lemmas demo_eval = demo_evaluate demo_verification demo_numbers parse_none parse_utc demo_window_checks
  strip_key is_py_space_def max_utc_def decide_window_def Let_def

text \<open>The sixth healthy window, 310 seconds after the first, completes the recovery.\<close>

lemma demo_completed:
  "\<exists>d. evaluate_recovery_evidence p (demo_lifecycle 60 (PUtc 1010000000) (PUtc 1260000000) 5 ''e5'')
      (demo_evidence ''e6'' 1320000000 (1 / 64)) [demo_alert ''a1'' ''resolved'']
      (Dtime 1330000000 (Some 0)) = Inr d \<and> vd_status d = ''completed''"
proof -
  have low: "\<not> fl_lt (max_zero (total_seconds 310000000)) (Fin 300)"
    using stable_below_minimum [of 300 310000000] by simp
  then show ?thesis
    by (simp add: demo_eval healthy_decision_def stable_decision_def gap_ok_exact
        counted_decision_def)
qed

text \<open>The same window delivered again, and a regression before and after the deadline.\<close>

lemma demo_duplicate:
  "\<exists>d. evaluate_recovery_evidence [] (demo_lifecycle 60 (PUtc 1010000000) (PUtc 1260000000) 5 ''e5'')
      (demo_evidence ''e5'' 1260000000 (1 / 64)) [demo_alert ''a1'' ''resolved'']
      (Dtime 1330000000 (Some 0)) = Inr d"
  by (simp add: demo_eval)

lemma demo_regressed:
  "\<exists>d. evaluate_recovery_evidence [] (demo_lifecycle 60 (PUtc 1010000000) (PUtc 1260000000) 5 ''e5'')
      (demo_evidence ''e6'' 1320000000 (1 / 8)) [demo_alert ''a1'' ''resolved'']
      (Dtime now (Some 0)) = Inr d
     \<and> vd_status d = (if now < 1600000000 then ''pending'' else ''failed'')
     \<and> vd_reason_code d = (if now < 1600000000 then ''verification_regressed''
                           else ''verification_window_expired'')
     \<and> vd_after d = w_after (demo_window ''e6'' 1320000000 (1 / 8) now)"
  if "1320000000 \<le> now" and "now < max_utc"
  using that
  by (simp add: demo_eval unhealthy_decision_def reset_decision_def expired_def)

subsection \<open>The theorems at this recovery\<close>

theorem completed_only_if_all_checks_true_witness:
  "\<exists>d. evaluate_recovery_evidence [] (demo_lifecycle 60 (PUtc 1010000000) (PUtc 1260000000) 5 ''e5'')
      (demo_evidence ''e6'' 1320000000 (1 / 64)) [demo_alert ''a1'' ''resolved'']
      (Dtime 1330000000 (Some 0)) = Inr d \<and> vd_status d = ''completed''
    \<and> pget (vd_after d) ''checks'' = PDict (map (\<lambda>name. (name, PBool True)) check_names)"
  using demo_completed completed_only_if_all_checks_true by blast

theorem completed_only_if_stable_witness:
  "\<exists>d. evaluate_recovery_evidence [] (demo_lifecycle 60 (PUtc 1010000000) (PUtc 1260000000) 5 ''e5'')
      (demo_evidence ''e6'' 1320000000 (1 / 64)) [demo_alert ''a1'' ''resolved'']
      (Dtime 1330000000 (Some 0)) = Inr d \<and> vd_status d = ''completed''
    \<and> (\<exists>since. 300 * 1000000 \<le> 1320000000 - since
         \<and> vd_healthy_since d = Some (utc_isoformat since))"
proof -
  obtain d where d: "evaluate_recovery_evidence []
      (demo_lifecycle 60 (PUtc 1010000000) (PUtc 1260000000) 5 ''e5'')
      (demo_evidence ''e6'' 1320000000 (1 / 64)) [demo_alert ''a1'' ''resolved'']
      (Dtime 1330000000 (Some 0)) = Inr d" "vd_status d = ''completed''"
    using demo_completed by blast
  have "parse_datetime (pget (demo_evidence ''e6'' 1320000000 (1 / 64)) ''window_start'')
      = Inr (Some 1320000000)"
    by (simp add: demo_evidence_def parse_utc max_utc_def)
  moreover have "nonnegative_int (pget (verification_of
      (demo_lifecycle 60 (PUtc 1010000000) (PUtc 1260000000) 5 ''e5'')) ''minimum_seconds'')
      = Inr (Some 300)" by code_simp
  ultimately show ?thesis
    using d completed_only_if_stable [OF d] by auto
qed

theorem completed_means_recovered_witness:
  "\<exists>d. evaluate_recovery_evidence [] (demo_lifecycle 60 (PUtc 1010000000) (PUtc 1260000000) 5 ''e5'')
      (demo_evidence ''e6'' 1320000000 (1 / 64)) [demo_alert ''a1'' ''resolved'']
      (Dtime 1330000000 (Some 0)) = Inr d \<and> vd_status d = ''completed''
    \<and> (\<exists>deployment. deployment_replicas (demo_evidence ''e6'' 1320000000 (1 / 64))
         (verification_target (verification_of
            (demo_lifecycle 60 (PUtc 1010000000) (PUtc 1260000000) 5 ''e5'')) [])
         = Inr (Some deployment))"
  using demo_completed completed_means_recovered by blast

theorem duplicate_window_changes_nothing_witness:
  "\<exists>d. evaluate_recovery_evidence [] (demo_lifecycle 60 (PUtc 1010000000) (PUtc 1260000000) 5 ''e5'')
      (demo_evidence ''e5'' 1260000000 (1 / 64)) [demo_alert ''a1'' ''resolved'']
      (Dtime 1330000000 (Some 0)) = Inr d \<and> vd_reason_code d = ''duplicate_evidence_window''"
proof -
  have "text_at (demo_evidence ''e5'' 1260000000 (1 / 64)) ''evidence_key'' = ''e5''"
      "text_at (verification_of (demo_lifecycle 60 (PUtc 1010000000) (PUtc 1260000000) 5 ''e5''))
         ''last_evidence_key'' = ''e5''"
    by (simp_all add: demo_evidence_def demo_verification strip_key is_py_space_def)
  then show ?thesis
    using demo_duplicate duplicate_window_changes_nothing by fastforce
qed

theorem failed_only_after_deadline_witness:
  "\<exists>d deadline. evaluate_recovery_evidence []
      (demo_lifecycle 60 (PUtc 1010000000) (PUtc 1260000000) 5 ''e5'')
      (demo_evidence ''e6'' 1320000000 (1 / 8)) [demo_alert ''a1'' ''resolved'']
      (Dtime 1700000000 (Some 0)) = Inr d \<and> vd_status d = ''failed'' \<and> deadline \<le> 1700000000
    \<and> parse_datetime (pget (verification_of
        (demo_lifecycle 60 (PUtc 1010000000) (PUtc 1260000000) 5 ''e5'')) ''deadline_at'')
        = Inr (Some deadline)"
proof -
  obtain d where d: "evaluate_recovery_evidence []
      (demo_lifecycle 60 (PUtc 1010000000) (PUtc 1260000000) 5 ''e5'')
      (demo_evidence ''e6'' 1320000000 (1 / 8)) [demo_alert ''a1'' ''resolved'']
      (Dtime 1700000000 (Some 0)) = Inr d" "vd_status d = ''failed''"
    using demo_regressed [of 1700000000] by (auto simp: max_utc_def)
  show ?thesis
    using d failed_only_after_deadline [OF d(1)]
    by (auto simp: normalized_utc_def dtime_utc_def max_utc_def)
qed

theorem unhealthy_window_resets_witness:
  "\<exists>d. evaluate_recovery_evidence [] (demo_lifecycle 60 (PUtc 1010000000) (PUtc 1260000000) 5 ''e5'')
      (demo_evidence ''e6'' 1320000000 (1 / 8)) [demo_alert ''a1'' ''resolved'']
      (Dtime 1330000000 (Some 0)) = Inr d
    \<and> vd_healthy_since d = None \<and> vd_distinct_evidence_count d = 0"
proof -
  obtain d where d: "evaluate_recovery_evidence []
      (demo_lifecycle 60 (PUtc 1010000000) (PUtc 1260000000) 5 ''e5'')
      (demo_evidence ''e6'' 1320000000 (1 / 8)) [demo_alert ''a1'' ''resolved'']
      (Dtime 1330000000 (Some 0)) = Inr d" "vd_reason_code d = ''verification_regressed''"
      "vd_after d = w_after (demo_window ''e6'' 1320000000 (1 / 8) 1330000000)"
    using demo_regressed [of 1330000000] by (auto simp: max_utc_def)
  have "pget (vd_after d) ''checks'' \<noteq> PDict (map (\<lambda>name. (name, PBool True)) check_names)"
    by (simp add: d(3) demo_window_def Let_def recorded_checks checks_value_def check_names_def
        opt_bool_def)
  then show ?thesis
    using d(1,2) unhealthy_window_resets [OF d(1)] by simp
qed

subsection \<open>Two windows in sequence\<close>

text \<open>
  With a cadence of 300 seconds two windows, 310 seconds apart, complete the verification: the
  second is evaluated against what the first one stored.
\<close>

abbreviation demo_start :: pdict where
  "demo_start \<equiv> demo_lifecycle 300 PNone PNone 0 []"

lemma demo_first_window:
  "\<exists>d. decide_window (verification_of demo_start) (demo_window ''e1'' 1010000000 (1 / 64) 1020000000)
      = Inr d
    \<and> d = counted_decision ''pending'' (vd_reason_code d) (vd_reason d) (vd_after d) 1010000000
        1010000000 1 (Some ''e1'')
    \<and> pget (vd_after d) ''protected_active_sessions'' = PNone"
proof -
  have ts: "max_zero (total_seconds 0) = Fin 0"
    by (simp add: total_seconds_def fl_of_rat_0 max_zero_def fl_lt_Fin)
  show ?thesis
    by (simp add: demo_eval ts healthy_decision_def stable_decision_def gap_ok_exact fl_lt_Fin
        int_of_fl_def next_key_def expired_def counted_decision_def)
      (simp add: demo_window_def Let_def stable_after_def recorded_after_def demo_observed_def)
qed

lemma demo_second_window:
  fixes d :: VerificationDecision
  assumes "d = counted_decision ''pending'' (vd_reason_code d) (vd_reason d) (vd_after d) 1010000000
        1010000000 1 (Some ''e1'')"
  shows "\<exists>d'. decide_window (apply_decision show_reason d (verification_of demo_start))
      (demo_window ''e2'' 1320000000 (1 / 64) 1330000000) = Inr d' \<and> vd_status d' = ''completed''"
proof -
  let ?v = "apply_decision show_reason d (verification_of demo_start)"
  have "vd_healthy_since d = Some (utc_isoformat 1010000000)"
      "vd_last_healthy_observed_at d = Some (utc_isoformat 1010000000)"
      "vd_distinct_evidence_count d = 1" "vd_last_evidence_key d = Some ''e1''"
    by (subst assms, simp add: counted_decision_def)+
  then have v: "pget ?v ''healthy_since'' = PStr (utc_isoformat 1010000000)"
      "pget ?v ''last_healthy_observed_at'' = PStr (utc_isoformat 1010000000)"
      "pget ?v ''distinct_evidence_count'' = PInt 1" "pget ?v ''last_evidence_key'' = PStr ''e1''"
      "pget ?v ''expected'' = PDict (demo_expected 300)"
    by (simp_all add: apply_decision_fields apply_decision_contract opt_str_def demo_verification)
  have p: "parse_datetime (PStr (utc_isoformat 1010000000)) = Inr (Some 1010000000)"
    by (rule parse_isoformat) (simp_all add: max_utc_def)
  have low: "\<not> fl_lt (max_zero (total_seconds 310000000)) (Fin 300)"
    using stable_below_minimum [of 300 310000000] by simp
  then show ?thesis
    by (simp add: decide_window_def v p demo_eval healthy_decision_def stable_decision_def
        gap_ok_exact counted_decision_def)
qed

lemma demo_run:
  "\<exists>w d seen lifecycle. verification_run show_reason [] demo_start lifecycle (seen @ [(w, d)])
    \<and> vd_status d = ''completed''"
proof -
  let ?w1 = "demo_window ''e1'' 1010000000 (1 / 64) 1020000000"
  let ?w2 = "demo_window ''e2'' 1320000000 (1 / 64) 1330000000"
  obtain d1 where d1: "decide_window (verification_of demo_start) ?w1 = Inr d1"
      "d1 = counted_decision ''pending'' (vd_reason_code d1) (vd_reason d1) (vd_after d1) 1010000000
        1010000000 1 (Some ''e1'')" "pget (vd_after d1) ''protected_active_sessions'' = PNone"
    using demo_first_window by blast
  let ?lc = "next_lifecycle show_reason ''e1'' demo_start d1"
  obtain d2 where d2: "decide_window (verification_of ?lc) ?w2 = Inr d2" "vd_status d2 = ''completed''"
    using demo_second_window [OF d1(2)] by (auto simp: verification_next_lifecycle)
  have r1: "read_window [] (verification_of demo_start) (demo_evidence ''e1'' 1010000000 (1 / 64))
      [demo_alert ''a1'' ''resolved''] (Dtime 1020000000 (Some 0)) = Inr ?w1"
    by (rule demo_read_window) (simp_all add: max_utc_def strip_key is_py_space_def)
  have "read_window [] (verification_of ?lc) (demo_evidence ''e2'' 1320000000 (1 / 64))
      [demo_alert ''a1'' ''resolved''] (Dtime 1330000000 (Some 0))
    = read_window [] (verification_of demo_start) (demo_evidence ''e2'' 1320000000 (1 / 64))
      [demo_alert ''a1'' ''resolved''] (Dtime 1330000000 (Some 0))"
    by (rule read_window_fields)
      (simp add: verification_next_lifecycle apply_decision_contract apply_decision_no_samples d1(3))
  also have "\<dots> = Inr ?w2"
    by (rule demo_read_window) (simp_all add: max_utc_def strip_key is_py_space_def)
  finally have r2: "read_window [] (verification_of ?lc) (demo_evidence ''e2'' 1320000000 (1 / 64))
      [demo_alert ''a1'' ''resolved''] (Dtime 1330000000 (Some 0)) = Inr ?w2" .
  have "verification_run show_reason [] demo_start ?lc ([] @ [(?w1, d1)])"
    by (rule run_window [OF run_start _ _ _ r1 d1(1)]) (simp_all add: max_utc_def)
  moreover have "vd_status d1 = ''pending''" by (subst d1(2)) (simp add: counted_decision_def)
  ultimately have "verification_run show_reason [] demo_start
      (next_lifecycle show_reason ''e2'' ?lc d2) (([] @ [(?w1, d1)]) @ [(?w2, d2)])"
    by (intro run_window [OF _ _ _ _ r2 d2(1)]) (simp_all add: max_utc_def)
  with d2(2) show ?thesis by blast
qed

theorem completed_run_has_stable_chain_witness:
  "\<exists>chain w. chain \<noteq> [] \<and> last chain = w \<and> (\<forall>x \<in> set chain. healthy_window x)
    \<and> w_minimum_seconds w * 1000000 \<le> time_of w - time_of (hd chain)"
proof -
  obtain w d seen lifecycle where run:
    "verification_run (\<lambda>_. []) [] demo_start lifecycle (seen @ [(w, d)])" "vd_status d = ''completed''"
    using demo_run by blast
  have start: "just_started demo_start"
    by (simp add: just_started_def demo_lifecycle_def parse_utc max_utc_def demo_numbers)
  have cadence: "nonnegative_int (pget (expected_of demo_start) ''evidence_cadence_seconds'')
      = Inr (Some 300)"
    by (simp add: demo_verification demo_numbers)
  have "(300 :: int) \<le> 1000000000" by simp
  from completed_run_has_stable_chain [OF run(1) start cadence this run(2)] show ?thesis by blast
qed

theorem deadline_ends_verification_witness:
  "\<exists>d. decide_window (verification_of (demo_lifecycle 60 (PUtc 1010000000) (PUtc 1260000000) 5 ''e5''))
      (demo_window ''e6'' 1320000000 (1 / 8) 1700000000) = Inr d \<and> vd_status d = ''failed''"
proof -
  let ?v = "verification_of (demo_lifecycle 60 (PUtc 1010000000) (PUtc 1260000000) 5 ''e5'')"
  let ?w = "demo_window ''e6'' 1320000000 (1 / 8) 1700000000"
  obtain d where d: "decide_window ?v ?w = Inr d"
    by (simp add: demo_eval)
  have r: "read_window [] ?v (demo_evidence ''e6'' 1320000000 (1 / 8))
      [demo_alert ''a1'' ''resolved''] (Dtime 1700000000 (Some 0)) = Inr ?w"
    by (rule demo_read_window) (simp_all add: max_utc_def strip_key is_py_space_def)
  have f: "fresh_window ?v ?w" "expired (w_deadline_at ?w) (w_now ?w)" "\<not> healthy_window ?w"
      "nonnegative_int (pget (mapping (pget ?v ''expected'')) ''evidence_cadence_seconds'')
        = Inr (Some 60)"
    by (simp_all add: fresh_window_def demo_verification strip_key is_py_space_def expired_def
        healthy_window_def demo_window_checks demo_numbers)
  have "vd_status d = ''failed''"
    using deadline_ends_verification [OF r d f(1,2,4)] f(3) by simp
  with d show ?thesis by blast
qed

theorem unknown_cadence_ignores_deadline_witness:
  "\<exists>d. decide_window (verification_of (demo_lifecycle 0 (PUtc 1010000000) (PUtc 1260000000) 5 ''e5''))
      (demo_window ''e6'' 1320000000 (1 / 64) 1700000000) = Inr d \<and> vd_status d = ''pending''"
proof -
  let ?v = "verification_of (demo_lifecycle 0 (PUtc 1010000000) (PUtc 1260000000) 5 ''e5'')"
  let ?w = "demo_window ''e6'' 1320000000 (1 / 64) 1700000000"
  obtain d where d: "decide_window ?v ?w = Inr d"
    by (simp add: demo_eval healthy_decision_def)
  have f: "fresh_window ?v ?w" "healthy_window ?w"
      "nonnegative_int (pget (mapping (pget ?v ''expected'')) ''evidence_cadence_seconds'')
        \<in> {Inr None, Inr (Some 0)}"
    by (simp_all add: fresh_window_def demo_verification strip_key is_py_space_def
        healthy_window_def demo_window_checks demo_numbers)
  show ?thesis using d unknown_cadence_ignores_deadline [OF d f] by blast
qed

subsection \<open>The handlers on a store\<close>

definition demo_row :: "string \<Rightarrow> string \<Rightarrow> pdict \<Rightarrow> plan_row" where
  "demo_row plan_id st lifecycle =
    \<lparr>pr_plan_id = plan_id, pr_workspace_id = ''ws'', pr_incident_id = ''i1'',
     pr_evidence_ref = PStr ''e0'', pr_status = st, pr_selected_action_id = PStr ''act'',
     pr_selected_by = PStr ''op'', pr_payload = [(''lifecycle'', PDict lifecycle)]\<rparr>"

definition demo_store :: "plan_row list" where
  "demo_store =
    [demo_row ''p0'' RECOVERY_STATUS_FAILED [],
     demo_row ''p1'' RECOVERY_STATUS_VERIFICATION_PENDING
       (demo_lifecycle 60 (PUtc 1010000000) (PUtc 1260000000) 5 ''e5'')]"

definition demo_handled :: "(plan_row list \<times> recovery_event list) res" where
  "demo_handled =
    on_recovery_verification_evidence (\<lambda>_. []) (\<lambda>_. [demo_alert ''a1'' ''resolved'']) (\<lambda>_ _. [])
      (PDict (demo_evidence ''e6'' 1320000000 (1 / 64))) ''e6'' ''ws'' 1330000000
      (tl demo_store) demo_store"

lemma demo_alerts:
  "verification_alerts (\<lambda>_. [demo_alert ''a1'' ''resolved'']) (\<lambda>_ _. [])
      (verification_of (demo_lifecycle c since previous n key)) = Inr [demo_alert ''a1'' ''resolved'']"
  by (simp add: verification_alerts_def demo_lifecycle_def demo_before_def parse_utc max_utc_def
      demo_alert_def Let_def)

lemma demo_handled:
  "\<exists>rows' events. demo_handled = Inr (rows', events) \<and> (\<exists>e \<in> set events. is_resolved e)"
proof -
  let ?lc = "demo_lifecycle 60 (PUtc 1010000000) (PUtc 1260000000) 5 ''e5''"
  let ?row = "demo_row ''p1'' RECOVERY_STATUS_VERIFICATION_PENDING ?lc"
  obtain d where d: "evaluate_recovery_evidence (pr_payload ?row) ?lc
      (demo_evidence ''e6'' 1320000000 (1 / 64)) [demo_alert ''a1'' ''resolved'']
      (Dtime 1330000000 (Some 0)) = Inr d" "vd_status d = ''completed''"
    using demo_completed by blast
  have lc: "lifecycle_of ?row = ?lc" by (simp add: lifecycle_of_def demo_row_def)
  have target: "verification_target (apply_decision f d (verification_of ?lc)) (pr_payload ?row)
      = demo_target" for f
    by (simp add: verification_target_def apply_decision_contract)
      (simp add: demo_lifecycle_def demo_target_def)
  have "\<exists>events. decision_events ?row (apply_decision (\<lambda>_. []) d (verification_of ?lc)) d ''e6'' ''ws''
      = Inr events \<and> (\<exists>e \<in> set events. is_resolved e)"
    by (simp add: decision_events_def d(2) target Let_def demo_target_def is_resolved_def)
  then obtain events where ev: "decision_events ?row (apply_decision (\<lambda>_. []) d (verification_of ?lc))
      d ''e6'' ''ws'' = Inr events" "\<exists>e \<in> set events. is_resolved e" by blast
  show ?thesis
    using ev(2)
    by (simp add: demo_handled_def on_recovery_verification_evidence_def demo_store_def
        evidence_step_def lc demo_alerts d(1) Let_def row_matches_def)
      (simp add: demo_row_def row_matches_def ev(1) [unfolded demo_row_def])
qed

theorem evidence_keeps_other_plans_witness:
  "\<exists>rows' events. demo_handled = Inr (rows', events)
    \<and> length rows' = 2 \<and> rows' ! 0 = demo_row ''p0'' RECOVERY_STATUS_FAILED []"
proof -
  obtain rows' events where h: "demo_handled = Inr (rows', events)" using demo_handled by blast
  have "length rows' = length demo_store \<and> rows' ! 0 = demo_store ! 0"
    by (rule evidence_keeps_other_plans [OF h [unfolded demo_handled_def]])
      (simp_all add: demo_store_def demo_row_def recovery_status_defs)
  with h show ?thesis by (auto simp: demo_store_def)
qed

theorem resolved_only_for_completed_witness:
  "\<exists>rows' events i. demo_handled = Inr (rows', events) \<and> i < length demo_store
    \<and> pr_status (rows' ! i) = RECOVERY_STATUS_COMPLETED"
proof -
  obtain rows' events e where h: "demo_handled = Inr (rows', events)" "e \<in> set events" "is_resolved e"
    using demo_handled by blast
  from resolved_only_for_completed [OF h(1) [unfolded demo_handled_def] h(2,3)] h(1)
  show ?thesis by blast
qed

definition demo_deploying :: plan_row where
  "demo_deploying = demo_row ''p1'' RECOVERY_STATUS_DEPLOY_PENDING
    [(''merge'', PDict [(''workflow_run_id'', PStr ''run''), (''binding_id'', PStr ''b''),
       (''application_id'', PStr ''app''), (''merge_commit_sha'', PStr ''sha''),
       (''cluster_id'', PStr ''c1'')]),
     (''verification'', PDict [(''maximum_seconds'', PInt 600)])]"

definition demo_workflow :: py where
  "demo_workflow = PDict [(''commit_sha'', PStr ''sha''), (''cluster_id'', PStr ''c1''),
    (''workspace_id'', PStr ''ws''), (''binding_id'', PStr ''b''),
    (''application_id'', PStr ''app''), (''status'', PStr ''succeeded'')]"

lemma demo_workflow_matches:
  "workflow_matches (mapping (pget (lifecycle_of demo_deploying) ''merge'')) demo_workflow
     ''ws'' ''run'' ''b'' ''app''"
  by code_simp

theorem start_sets_the_clock_witness:
  "\<exists>e rows'. start_recovery_verification (\<lambda>_. []) (Some demo_deploying) demo_workflow 1000000000
      ''ws'' ''run'' ''b'' ''app'' [demo_deploying] = Inr (Some e, rows')
    \<and> (\<exists>row' \<in> set rows'. pr_status row' = RECOVERY_STATUS_VERIFICATION_PENDING
        \<and> parse_datetime (pget (verification_of (lifecycle_of row')) ''started_at'')
            = Inr (Some 1000000000))"
proof -
  have "\<exists>e rows'. start_recovery_verification (\<lambda>_. []) (Some demo_deploying) demo_workflow 1000000000
      ''ws'' ''run'' ''b'' ''app'' [demo_deploying] = Inr (Some e, rows')"
    using demo_workflow_matches
    by (simp add: start_recovery_verification_def Let_def)
      (simp add: demo_deploying_def demo_row_def lifecycle_of_def py_or_def py_int_def
        verification_deadline_def max_utc_def row_matches_def Let_def)
  then obtain e rows' where s: "start_recovery_verification (\<lambda>_. []) (Some demo_deploying)
      demo_workflow 1000000000 ''ws'' ''run'' ''b'' ''app'' [demo_deploying] = Inr (Some e, rows')"
    by blast
  from start_sets_the_clock [OF s] show ?thesis
    using s by (auto simp: max_utc_def Let_def)
qed

end
