(* ===== verification/Managed_Diff.thy ===== *)
theory Managed_Diff
  imports Py_Value
begin

text \<open>
  The managed-field comparison of GitOps, \<open>src/src/domains/gitops/diffing.py\<close>: which fields of a
  Kubernetes object the service manages, how a desired value is matched against the value the
  API server reports, and the three-way classification of every field against the previous
  desired state, the live state and the new desired state. Objects are JSON values; a field set
  is a dictionary from field paths to values.
\<close>

subsection \<open>Snapshots\<close>

definition MANAGED_FIELD_SOURCE :: string where
  "MANAGED_FIELD_SOURCE = ''managed-field-3way''"

definition MISSING :: string where
  "MISSING = ''<missing>''"

record ManagedFieldSnapshot =
  mf_resource :: string
  mf_namespace :: string
  mf_fields :: pdict
  mf_source :: string

text \<open>The attributes of a rendered manifest; \<open>None\<close> stands for an attribute that is absent.\<close>

record RenderedManifest =
  rm_manifest :: py
  rm_rendered_object :: py
  rm_api_version :: string
  rm_kind :: string
  rm_name :: string
  rm_namespace :: string
  rm_replicas :: int
  rm_image :: string

definition resource_ref :: "string \<Rightarrow> string \<Rightarrow> string" where
  "resource_ref kind name = py_casefold kind @ ''/'' @ name"

definition rendered_manifest_to_object :: "RenderedManifest \<Rightarrow> pdict" where
  "rendered_manifest_to_object rendered =
    (if mapping (rm_manifest rendered) \<noteq> [] then mapping (rm_manifest rendered)
     else if mapping (rm_rendered_object rendered) \<noteq> []
     then mapping (rm_rendered_object rendered)
     else
       [(''apiVersion'', PStr (rm_api_version rendered)),
        (''kind'', PStr (rm_kind rendered)),
        (''metadata'', PDict [(''name'', PStr (rm_name rendered)),
                              (''namespace'', PStr (rm_namespace rendered))]),
        (''spec'', PDict
          [(''replicas'', PInt (rm_replicas rendered)),
           (''template'', PDict
             [(''spec'', PDict
               [(''containers'', PList
                 [PDict [(''name'', PStr (rm_name rendered)),
                         (''image'', PStr (rm_image rendered))]])])])])])"

subsection \<open>The managed fields of an object\<close>

text \<open>\<open>if key in src: fields[path] = src[key]\<close>.\<close>

definition copy_field :: "pdict \<Rightarrow> string \<Rightarrow> pdict \<Rightarrow> string \<Rightarrow> pdict" where
  "copy_field src key fs path =
    (case dict_get src key of None \<Rightarrow> fs | Some v \<Rightarrow> dict_set fs path v)"

definition copy_fields :: "pdict \<Rightarrow> (string \<Rightarrow> string) \<Rightarrow> string list \<Rightarrow> pdict \<Rightarrow> pdict" where
  "copy_fields src path keys fs =
    foldl (\<lambda>fs key. copy_field src key fs (path key)) fs keys"

definition container_fields :: "pdict \<Rightarrow> py \<Rightarrow> pdict" where
  "container_fields fs item =
    (let container = mapping item;
         name = py_str (pget_default container ''name'' (PStr ''unnamed''));
         prefix = ''spec.template.spec.containers[name='' @ name @ '']''
     in copy_fields container (\<lambda>key. prefix @ ''.'' @ key)
          [''image'', ''env'', ''envFrom'', ''resources'', ''readinessProbe'', ''livenessProbe'',
           ''startupProbe''] fs)"

definition volume_fields :: "pdict \<Rightarrow> py \<Rightarrow> pdict" where
  "volume_fields fs item =
    (let volume = mapping item;
         name = py_str (pget_default volume ''name'' (PStr ''unnamed''));
         prefix = ''spec.template.spec.volumes[name='' @ name @ '']''
     in copy_fields volume (\<lambda>key. prefix @ ''.'' @ key) [''configMap'', ''secret''] fs)"

text \<open>\<open>for item in items\<close> when \<open>items\<close> is a list.\<close>

definition each_item :: "(pdict \<Rightarrow> py \<Rightarrow> pdict) \<Rightarrow> py \<Rightarrow> pdict \<Rightarrow> pdict" where
  "each_item step items fs =
    (case items of PList xs \<Rightarrow> foldl step fs xs | _ \<Rightarrow> fs)"

definition deployment_fields :: "pdict \<Rightarrow> pdict" where
  "deployment_fields obj =
    (let spec = mapping (pget obj ''spec'');
         fs = copy_field spec ''replicas'' [] ''spec.replicas'';
         pod_spec = mapping (pget (mapping (pget spec ''template'')) ''spec'');
         fs = each_item container_fields (pget_default pod_spec ''containers'' (PList [])) fs
     in each_item volume_fields (pget_default pod_spec ''volumes'' (PList [])) fs)"

definition service_fields :: "pdict \<Rightarrow> pdict" where
  "service_fields obj =
    copy_fields (mapping (pget obj ''spec'')) (\<lambda>key. ''spec.'' @ key)
      [''type'', ''selector'', ''ports''] []"

definition configmap_fields :: "pdict \<Rightarrow> pdict" where
  "configmap_fields obj = copy_fields obj (\<lambda>key. key) [''data'', ''binaryData''] []"

definition extract_managed_fields :: "pdict \<Rightarrow> pdict" where
  "extract_managed_fields obj =
    (let kind = py_str (pget_default obj ''kind'' (PStr []))
     in if kind = ''Deployment'' then deployment_fields obj
        else if kind = ''Service'' then service_fields obj
        else if kind = ''ConfigMap'' then configmap_fields obj
        else [])"

definition snapshot_from_kubernetes_object :: "pdict \<Rightarrow> string \<Rightarrow> ManagedFieldSnapshot" where
  "snapshot_from_kubernetes_object obj source =
    (let metadata = mapping (pget obj ''metadata'');
         kind = py_str (pget_default obj ''kind'' (PStr ''Unknown''));
         name = py_str (pget_default metadata ''name'' (PStr ''unknown''));
         namespace = py_str (pget_default metadata ''namespace'' (PStr ''default''))
     in \<lparr>mf_resource = resource_ref kind name, mf_namespace = namespace,
         mf_fields = extract_managed_fields obj, mf_source = source\<rparr>)"

definition snapshot_from_rendered_manifest :: "RenderedManifest \<Rightarrow> string \<Rightarrow> ManagedFieldSnapshot" where
  "snapshot_from_rendered_manifest rendered source =
    snapshot_from_kubernetes_object (rendered_manifest_to_object rendered) source"

definition extract_declared_field_paths :: "pdict \<Rightarrow> string list" where
  "extract_declared_field_paths obj = sort (map fst (extract_managed_fields obj))"

subsection \<open>Comparison\<close>

text \<open>
  Whether the observed value satisfies the declared one: mappings may have more keys than were
  declared, lists have exactly the declared members, everything else is equal.
\<close>

fun declared_value_matches_live :: "py \<Rightarrow> py \<Rightarrow> bool"
  and declared_items_match :: "pdict \<Rightarrow> pdict \<Rightarrow> bool"
  and declared_members_match :: "py list \<Rightarrow> py list \<Rightarrow> bool"
where
  "declared_value_matches_live (PDict declared) live =
    (case live of PDict l \<Rightarrow> declared_items_match declared l | _ \<Rightarrow> False)"
| "declared_value_matches_live (PList declared) live =
    (case live of
       PList l \<Rightarrow> length declared = length l \<and> declared_members_match declared l
     | _ \<Rightarrow> False)"
| "declared_value_matches_live declared live = py_eq declared live"
| "declared_items_match [] live = True"
| "declared_items_match ((key, v) # declared) live =
    ((case dict_get live key of None \<Rightarrow> False | Some w \<Rightarrow> declared_value_matches_live v w)
     \<and> declared_items_match declared live)"
| "declared_members_match (x # xs) (y # ys) =
    (declared_value_matches_live x y \<and> declared_members_match xs ys)"
| "declared_members_match _ _ = True"

definition value_or_missing :: "pdict option \<Rightarrow> string \<Rightarrow> py" where
  "value_or_missing values field_path =
    (case values of
       None \<Rightarrow> PStr MISSING
     | Some d \<Rightarrow> (case dict_get d field_path of None \<Rightarrow> PStr MISSING | Some v \<Rightarrow> v))"

definition field_allowed :: "string list option \<Rightarrow> string list option \<Rightarrow> string \<Rightarrow> bool" where
  "field_allowed managed_fields ignored_fields path \<longleftrightarrow>
    (case managed_fields of None \<Rightarrow> True | Some managed \<Rightarrow> path \<in> set managed)
    \<and> path \<notin> set (case ignored_fields of None \<Rightarrow> [] | Some ignored \<Rightarrow> ignored)"

definition apply_field_policy ::
  "pdict option \<Rightarrow> string list option \<Rightarrow> string list option \<Rightarrow> pdict option" where
  "apply_field_policy fs managed_fields ignored_fields =
    map_option (filter (\<lambda>(path, _). field_allowed managed_fields ignored_fields path)) fs"

definition classify_field_change :: "py \<Rightarrow> py \<Rightarrow> py \<Rightarrow> string" where
  "classify_field_change old_desired live new_desired =
    (if py_eq old_desired (PStr MISSING)
     then if declared_value_matches_live new_desired live
          then ''already_converged'' else ''adoption_required''
     else
       (let old_matches_live = declared_value_matches_live old_desired live;
            new_matches_live = declared_value_matches_live new_desired live;
            desired_unchanged = py_eq old_desired new_desired
        in if old_matches_live \<and> new_matches_live \<and> desired_unchanged then ''no_change''
           else if new_matches_live then ''already_converged''
           else if old_matches_live then ''intended_change''
           else if desired_unchanged then ''drift''
           else ''conflict_or_manual_change''))"

definition change_entry :: "string \<Rightarrow> string \<Rightarrow> py \<Rightarrow> py \<Rightarrow> py \<Rightarrow> pdict" where
  "change_entry field_path classification old_value live_value new_value =
    [(''field_path'', PStr field_path), (''classification'', PStr classification),
     (''old_desired'', old_value), (''live'', live_value), (''new_desired'', new_value),
     (''before'', live_value), (''after'', new_value)]"

definition fields_of :: "pdict option \<Rightarrow> string list" where
  "fields_of fs = (case fs of None \<Rightarrow> [] | Some d \<Rightarrow> map fst d)"

fun field_changes ::
  "pdict option \<Rightarrow> pdict option \<Rightarrow> pdict option \<Rightarrow> string list \<Rightarrow> pdict list" where
  "field_changes old_desired live new_desired [] = []"
| "field_changes old_desired live new_desired (field_path # paths) =
    (let old_value = value_or_missing old_desired field_path;
         live_value = value_or_missing live field_path;
         new_value = value_or_missing new_desired field_path;
         classification = classify_field_change old_value live_value new_value
     in if classification = ''no_change'' then field_changes old_desired live new_desired paths
        else change_entry field_path classification old_value live_value new_value
               # field_changes old_desired live new_desired paths)"

definition compare_managed_fields ::
  "pdict option \<Rightarrow> pdict \<Rightarrow> pdict \<Rightarrow> string list option \<Rightarrow> string list option \<Rightarrow> pdict list" where
  "compare_managed_fields old_desired live new_desired managed_fields ignored_fields =
    (let old_desired = apply_field_policy old_desired managed_fields ignored_fields;
         live = apply_field_policy (Some live) managed_fields ignored_fields;
         new_desired = apply_field_policy (Some new_desired) managed_fields ignored_fields;
         fs = sorted_set (fields_of old_desired @ fields_of live @ fields_of new_desired)
     in field_changes old_desired live new_desired fs)"

fun adoption_changes :: "pdict \<Rightarrow> pdict \<Rightarrow> string list \<Rightarrow> pdict list" where
  "adoption_changes live new_desired [] = []"
| "adoption_changes live new_desired (field_path # paths) =
    (let live_value = value_or_missing (Some live) field_path;
         new_value = value_or_missing (Some new_desired) field_path
     in if py_eq live_value (PStr MISSING) \<and> py_eq new_value (PStr MISSING)
        then adoption_changes live new_desired paths
        else change_entry field_path ''adoption_required'' (PStr MISSING) live_value new_value
               # adoption_changes live new_desired paths)"

definition build_adoption_required_changes :: "pdict \<Rightarrow> pdict \<Rightarrow> string list \<Rightarrow> pdict list" where
  "build_adoption_required_changes live new_desired unknown_fields =
    adoption_changes live new_desired (sorted_set unknown_fields)"

definition worst_class :: "string list \<Rightarrow> string" where
  "worst_class classes =
    (if ''conflict_or_manual_change'' \<in> set classes then ''review_required''
     else if ''adoption_required'' \<in> set classes then ''adoption_required''
     else if ''intended_change'' \<in> set classes then ''intended_change''
     else if ''drift'' \<in> set classes then ''drift''
     else if ''already_converged'' \<in> set classes then ''already_converged''
     else ''no_change'')"

definition summarize_status :: "pdict list \<Rightarrow> string res" where
  "summarize_status changes =
    rmap worst_class
      (rtraverse (\<lambda>change.
         case dict_get change ''classification'' of
           None \<Rightarrow> Inl KeyError | Some c \<Rightarrow> Inr (py_str c)) changes)"

definition str_list :: "string list \<Rightarrow> py" where
  "str_list xs = PList (map PStr xs)"

definition build_diff_basis ::
  "ManagedFieldSnapshot option \<Rightarrow> ManagedFieldSnapshot \<Rightarrow> ManagedFieldSnapshot \<Rightarrow> string list
    \<Rightarrow> string list \<Rightarrow> string list \<Rightarrow> string list \<Rightarrow> string \<Rightarrow> pdict" where
  "build_diff_basis old_desired live new_desired declared_fields policy_managed_fields
     ignored_fields unknown_fields policy_source =
    [(''comparison'', PStr MANAGED_FIELD_SOURCE),
     (''old_desired_source'',
        PStr (case old_desired of None \<Rightarrow> ''missing'' | Some s \<Rightarrow> mf_source s)),
     (''live_source'', PStr (mf_source live)),
     (''new_desired_source'', PStr (mf_source new_desired)),
     (''observed_fields'',
        str_list (sorted_set (map fst (mf_fields live) @ map fst (mf_fields new_desired)))),
     (''declared_fields'', str_list (sorted_set declared_fields)),
     (''policy_managed_fields'', str_list (sorted_set policy_managed_fields)),
     (''ignored_fields'', str_list (sorted_set ignored_fields)),
     (''unknown_fields'', str_list (sorted_set unknown_fields)),
     (''policy_source'', PStr policy_source)]"

subsection \<open>Matching is a preorder\<close>

lemma py_eq_str [simp]: "py_eq v (PStr s) \<longleftrightarrow> v = PStr s"
  by (cases v) auto

lemma fl_eq_trans: "fl_eq a b \<Longrightarrow> fl_eq b c \<Longrightarrow> fl_eq a c"
  by (auto simp: fl_eq_def)

lemma num_eq_trans:
  "(case (num_val x, num_val y) of (Some a, Some b) \<Rightarrow> fl_eq a b | _ \<Rightarrow> False) \<Longrightarrow>
   (case (num_val y, num_val z) of (Some a, Some b) \<Rightarrow> fl_eq a b | _ \<Rightarrow> False) \<Longrightarrow>
   (case (num_val x, num_val z) of (Some a, Some b) \<Rightarrow> fl_eq a b | _ \<Rightarrow> False)"
  by (auto split: option.splits intro: fl_eq_trans)

text \<open>Values that are neither a mapping nor a list are matched by equality.\<close>

definition scalar_py :: "py \<Rightarrow> bool" where
  "scalar_py x \<longleftrightarrow> \<not> is_mapping x \<and> \<not> is_list x"

lemma matches_scalar: "scalar_py x \<Longrightarrow> declared_value_matches_live x y = py_eq x y"
  by (cases x) (auto simp: scalar_py_def)

lemma py_eq_scalar: "scalar_py x \<Longrightarrow> py_eq x y \<Longrightarrow> scalar_py y"
  by (cases x; cases y) (auto simp: scalar_py_def)

lemma dtime_eq_trans: "dtime_eq a b \<Longrightarrow> dtime_eq b c \<Longrightarrow> dtime_eq a c"
  by (cases "(a, b)" rule: dtime_eq.cases; cases "(b, c)" rule: dtime_eq.cases) auto

lemma scalar_eq_trans:
  assumes "scalar_py x" and "py_eq x y" and "py_eq y z"
  shows "py_eq x z"
proof -
  have "scalar_py y" using assms(1,2) by (rule py_eq_scalar)
  then show ?thesis
    using assms
    by (cases x; cases y; cases z)
      (auto simp: scalar_py_def intro: dtime_eq_trans fl_eq_trans)
qed

lemma items_match_iff:
  "declared_items_match d e \<longleftrightarrow>
    (\<forall>(k, v) \<in> set d. \<exists>w. dict_get e k = Some w \<and> declared_value_matches_live v w)"
  by (induction d) (auto split: option.splits)

lemma members_match_iff:
  "length xs = length ys \<Longrightarrow>
    declared_members_match xs ys \<longleftrightarrow> list_all2 declared_value_matches_live xs ys"
  by (induction xs ys rule: list_induct2) auto

lemma matches_dict:
  "declared_value_matches_live (PDict d) live \<longleftrightarrow>
    (\<exists>e. live = PDict e \<and>
      (\<forall>(k, v) \<in> set d. \<exists>w. dict_get e k = Some w \<and> declared_value_matches_live v w))"
  by (cases live) (auto simp: items_match_iff)

lemma matches_list:
  "declared_value_matches_live (PList xs) live \<longleftrightarrow>
    (\<exists>ys. live = PList ys \<and> list_all2 declared_value_matches_live xs ys)"
  by (cases live) (auto simp: members_match_iff list_all2_lengthD)

declare declared_value_matches_live.simps(1,2) [simp del]

lemma matches_trans:
  "declared_value_matches_live x y \<Longrightarrow> declared_value_matches_live y z \<Longrightarrow>
     declared_value_matches_live x z"
proof (induction x arbitrary: y z)
  case (PList xs)
  then obtain ys zs where l: "y = PList ys" "z = PList zs"
      "list_all2 declared_value_matches_live xs ys" "list_all2 declared_value_matches_live ys zs"
    by (auto simp: matches_list)
  then have "list_all2 declared_value_matches_live xs zs"
    using PList.IH by (auto simp: list_all2_conv_all_nth)
  with l show ?case by (simp add: matches_list)
next
  case (PDict d)
  then obtain e f where m: "y = PDict e" "z = PDict f"
      "\<And>k v. (k, v) \<in> set d \<Longrightarrow> \<exists>w. dict_get e k = Some w \<and> declared_value_matches_live v w"
      "\<And>k v. (k, v) \<in> set e \<Longrightarrow> \<exists>w. dict_get f k = Some w \<and> declared_value_matches_live v w"
    by (fastforce simp: matches_dict)
  have "\<exists>w. dict_get f k = Some w \<and> declared_value_matches_live v w" if "(k, v) \<in> set d" for k v
    using m(3) [OF that] m(4) [OF map_of_SomeD] PDict.IH [OF that, of v] by (fastforce simp: snds.simps)
  with m(2) show ?case by (auto simp: matches_dict)
qed (use scalar_eq_trans matches_scalar py_eq_scalar in
      \<open>(metis is_list.simps is_mapping.simps scalar_py_def)+\<close>)

text \<open>
  Values as JSON has them: no repeated key in a mapping, and no float that differs from itself.
\<close>

fun json_value :: "py \<Rightarrow> bool" where
  "json_value (PDict d) = (dict_ok d \<and> list_all (\<lambda>(k, v). json_value v) d)"
| "json_value (PList xs) = list_all json_value xs"
| "json_value (PFloat f) = (f \<noteq> NaN)"
| "json_value _ = True"

lemma matches_refl: "json_value x \<Longrightarrow> declared_value_matches_live x x"
proof (induction x)
  case (PList xs)
  then show ?case by (auto simp: matches_list list_all2_same list_all_iff)
next
  case (PDict d)
  then show ?case
    by (auto simp: matches_dict list_all_iff map_of_is_SomeI split: prod.splits)
next
  case (PDatetime t)
  then show ?case by (cases "(t, t)" rule: dtime_eq.cases) auto
qed (auto simp: fl_eq_def)

lemma py_list_eq_iff: "py_list_eq xs ys \<longleftrightarrow> list_all2 py_eq xs ys"
  by (induction xs arbitrary: ys) (auto split: list.splits simp: list_all2_Cons1)

lemma py_dict_sub_iff:
  "py_dict_sub d e \<longleftrightarrow> (\<forall>(k, v) \<in> set d. \<exists>w. dict_get e k = Some w \<and> py_eq v w)"
  by (induction d) (auto split: option.splits)

lemma py_eq_refl: "json_value x \<Longrightarrow> py_eq x x"
proof (induction x)
  case (PList xs)
  then show ?case by (auto simp: py_list_eq_iff list_all2_same list_all_iff)
next
  case (PDict d)
  then show ?case
    by (auto simp: py_dict_sub_iff list_all_iff map_of_is_SomeI split: prod.splits)
next
  case (PDatetime t)
  then show ?case by (cases "(t, t)" rule: dtime_eq.cases) auto
qed (auto simp: fl_eq_def)

text \<open>
  A place inside a value, and what the value holds there. Two values agree at a node when both are
  mappings, both are lists of the same length, or they are equal.
\<close>

datatype place_step = Key string | Index nat

fun read_at :: "place_step list \<Rightarrow> py \<Rightarrow> py option" where
  "read_at [] v = Some v"
| "read_at (Key k # p) (PDict d) = (case dict_get d k of None \<Rightarrow> None | Some v \<Rightarrow> read_at p v)"
| "read_at (Index i # p) (PList xs) = (if i < length xs then read_at p (xs ! i) else None)"
| "read_at _ _ = None"

fun same_node :: "py \<Rightarrow> py \<Rightarrow> bool" where
  "same_node (PDict d) w = (case w of PDict _ \<Rightarrow> True | _ \<Rightarrow> False)"
| "same_node (PList xs) w = (case w of PList ys \<Rightarrow> length xs = length ys | _ \<Rightarrow> False)"
| "same_node v w = py_eq v w"

text \<open>What is declared at the place is what is live there; an undeclared place is not looked at.\<close>

definition live_as_declared :: "py \<Rightarrow> py \<Rightarrow> place_step list \<Rightarrow> bool" where
  "live_as_declared declared live p \<longleftrightarrow>
    (case read_at p declared of
       None \<Rightarrow> True
     | Some v \<Rightarrow> (case read_at p live of None \<Rightarrow> False | Some w \<Rightarrow> same_node v w))"

lemma all_places:
  "(\<forall>p. P p) \<longleftrightarrow> P [] \<and> (\<forall>k p. P (Key k # p)) \<and> (\<forall>i p. P (Index i # p))"
  by (metis list.exhaust place_step.exhaust)

lemma live_as_declared_nil: "live_as_declared v w [] \<longleftrightarrow> same_node v w"
  by (simp add: live_as_declared_def)

lemma places_same_node: "\<forall>p. live_as_declared v w p \<Longrightarrow> same_node v w"
  by (drule spec [of _ "[]"]) (simp add: live_as_declared_nil)

lemma places_scalar:
  assumes "\<And>d. v \<noteq> PDict d" "\<And>xs. v \<noteq> PList xs"
  shows "(\<forall>p. live_as_declared v w p) \<longleftrightarrow> py_eq v w"
proof -
  have "live_as_declared v w (s # p)" for s p
    using assms by (cases v; cases s) (auto simp: live_as_declared_def)
  moreover have "same_node v w \<longleftrightarrow> py_eq v w" using assms by (cases v) auto
  ultimately show ?thesis unfolding all_places [of "live_as_declared v w"] live_as_declared_nil by simp
qed

lemma live_as_declared_key:
  "live_as_declared (PDict d) (PDict e) (Key k # p) \<longleftrightarrow>
    (case dict_get d k of None \<Rightarrow> True
     | Some v \<Rightarrow> (case dict_get e k of None \<Rightarrow> read_at p v = None | Some w \<Rightarrow> live_as_declared v w p))"
  by (auto simp: live_as_declared_def split: option.splits)

lemma live_as_declared_index:
  "length xs = length ys \<Longrightarrow> live_as_declared (PList xs) (PList ys) (Index i # p) \<longleftrightarrow>
    (i < length xs \<longrightarrow> live_as_declared (xs ! i) (ys ! i) p)"
  by (auto simp: live_as_declared_def split: option.splits)

lemma live_as_declared_mixed:
  "live_as_declared (PDict d) w (Index i # p)" "live_as_declared (PList xs) w (Key k # p)"
  by (simp_all add: live_as_declared_def)

lemma matches_iff_places:
  "json_value v \<Longrightarrow> declared_value_matches_live v w \<longleftrightarrow> (\<forall>p. live_as_declared v w p)"
proof (induction v arbitrary: w)
  case (PDict d)
  show ?case
  proof (cases w)
    case [simp]: (PDict e)
    have item: "dict_get d k = Some x \<longleftrightarrow> (k, x) \<in> set d" for k x
      using PDict.prems by auto
    have "(\<forall>k p. live_as_declared (PDict d) (PDict e) (Key k # p)) \<longleftrightarrow>
        (\<forall>(k, x) \<in> set d. \<exists>y. dict_get e k = Some y \<and> (\<forall>p. live_as_declared x y p))"
    proof (intro iffI ballI allI, clarify)
      fix k x
      assume a: "\<forall>k p. live_as_declared (PDict d) (PDict e) (Key k # p)" and "(k, x) \<in> set d"
      then have "dict_get d k = Some x" using item by blast
      with a have r: "case dict_get e k of None \<Rightarrow> read_at p x = None | Some w \<Rightarrow> live_as_declared x w p" for p
        unfolding live_as_declared_key by (elim allE [of _ k] allE [of _ p]) simp
      from r [of "[]"] r show "\<exists>y. dict_get e k = Some y \<and> (\<forall>p. live_as_declared x y p)"
        by (cases "dict_get e k") auto
    next
      fix k p
      assume "\<forall>(k, x) \<in> set d. \<exists>y. dict_get e k = Some y \<and> (\<forall>p. live_as_declared x y p)"
      then show "live_as_declared (PDict d) (PDict e) (Key k # p)"
        using item [of k] by (auto simp: live_as_declared_key split: option.splits)
    qed
    moreover have "declared_value_matches_live x y \<longleftrightarrow> (\<forall>p. live_as_declared x y p)"
      if "(k, x) \<in> set d" for k x y
      using PDict.IH that PDict.prems by (auto simp: list_all_iff)
    ultimately show ?thesis
      unfolding all_places [of "live_as_declared (PDict d) w"]
      by (auto simp: matches_dict live_as_declared_nil live_as_declared_mixed)
  qed (use places_same_node [of "PDict d" w] in \<open>auto simp: matches_dict matches_list\<close>)
next
  case (PList xs)
  show ?case
  proof (cases w)
    case [simp]: (PList ys)
    have "declared_value_matches_live (xs ! i) y \<longleftrightarrow> (\<forall>p. live_as_declared (xs ! i) y p)"
      if "i < length xs" for i y
      using PList.IH that PList.prems by (auto simp: list_all_iff)
    then show ?thesis
      unfolding all_places [of "live_as_declared (PList xs) w"]
      by (auto simp: matches_list live_as_declared_nil live_as_declared_mixed live_as_declared_index
          list_all2_conv_all_nth)
  qed (use places_same_node [of "PList xs" w] in \<open>auto simp: matches_dict matches_list\<close>)
qed (simp_all add: places_scalar)

text \<open>
  C28. Drift is a difference in what was declared, and in nothing else. Let the desired JSON value
  of a field be unchanged since the last deployment. The field is without change when at every
  place inside the value the live object holds the declared mapping, a list of the declared
  length or an equal scalar, and it drifted when some declared place is missing or different.
  What the API server or a controller adds at undeclared keys, at any depth, is no drift.
\<close>

theorem drift_is_a_declared_difference:
  assumes "json_value v" and "v \<noteq> PStr MISSING"
  shows "classify_field_change v live v
    = (if \<forall>p. live_as_declared v live p then ''no_change'' else ''drift'')"
  using assms matches_iff_places [OF assms(1)]
  by (simp add: classify_field_change_def py_eq_refl Let_def)

theorem drift_is_a_declared_difference_witness:
  "(\<forall>p. live_as_declared (PDict [(''port'', PInt 80)])
      (PDict [(''protocol'', PStr ''TCP''), (''port'', PInt 80)]) p)
    \<and> \<not> (\<forall>p. live_as_declared (PDict [(''port'', PInt 80)]) (PDict [(''port'', PInt 81)]) p)"
proof -
  have v: "json_value (PDict [(''port'', PInt 80)])" "PDict [(''port'', PInt 80)] \<noteq> PStr MISSING"
    by simp_all
  have "classify_field_change (PDict [(''port'', PInt 80)])
      (PDict [(''protocol'', PStr ''TCP''), (''port'', PInt 80)]) (PDict [(''port'', PInt 80)])
        = ''no_change''"
    "classify_field_change (PDict [(''port'', PInt 80)]) (PDict [(''port'', PInt 81)])
      (PDict [(''port'', PInt 80)]) = ''drift''"
    by code_simp+
  then show ?thesis
    unfolding drift_is_a_declared_difference [OF v] by (simp split: if_splits)
qed

subsection \<open>What is reported\<close>

definition field_class :: "pdict option \<Rightarrow> pdict option \<Rightarrow> pdict option \<Rightarrow> string \<Rightarrow> string" where
  "field_class old_desired live new_desired f =
    classify_field_change (value_or_missing old_desired f) (value_or_missing live f)
      (value_or_missing new_desired f)"

definition field_entry :: "pdict option \<Rightarrow> pdict option \<Rightarrow> pdict option \<Rightarrow> string \<Rightarrow> pdict" where
  "field_entry old_desired live new_desired f =
    change_entry f (field_class old_desired live new_desired f) (value_or_missing old_desired f)
      (value_or_missing live f) (value_or_missing new_desired f)"

lemma field_changes_conv:
  "field_changes o' l n paths =
    map (field_entry o' l n) (filter (\<lambda>f. field_class o' l n f \<noteq> ''no_change'') paths)"
  by (induction paths) (auto simp: field_entry_def field_class_def Let_def)

lemma dict_get_filter:
  "dict_get (filter (\<lambda>(k, _). P k) d) k = (if P k then dict_get d k else None)"
  by (induction d) auto

lemma value_under_policy:
  "field_allowed m i f \<Longrightarrow> value_or_missing (apply_field_policy d m i) f = value_or_missing d f"
  by (cases d) (simp_all add: apply_field_policy_def value_or_missing_def dict_get_filter)

lemma fields_under_policy: "fields_of (apply_field_policy d m i) = filter (field_allowed m i) (fields_of d)"
  by (cases d) (auto simp: fields_of_def apply_field_policy_def filter_map comp_def split_def)

lemma sorted_set_filter: "sorted_set (filter P xs) = filter P (sorted_set xs)"
  by (simp add: sorted_set_def remdups_filter filter_sort)

definition compared_fields :: "pdict option \<Rightarrow> pdict \<Rightarrow> pdict \<Rightarrow> string list" where
  "compared_fields old_desired live new_desired =
    sorted_set (fields_of old_desired @ map fst live @ map fst new_desired)"

lemma compare_conv:
  "compare_managed_fields o' l n m i =
    map (field_entry o' (Some l) (Some n))
      (filter (\<lambda>f. field_allowed m i f \<and> field_class o' (Some l) (Some n) f \<noteq> ''no_change'')
        (compared_fields o' l n))"
proof -
  have paths: "sorted_set (fields_of (apply_field_policy o' m i)
      @ fields_of (apply_field_policy (Some l) m i) @ fields_of (apply_field_policy (Some n) m i))
    = filter (field_allowed m i) (compared_fields o' l n)"
    by (simp add: fields_under_policy compared_fields_def fields_of_def [of "Some _"]
        flip: sorted_set_filter)
  have "filter (\<lambda>f. field_class (apply_field_policy o' m i) (apply_field_policy (Some l) m i)
        (apply_field_policy (Some n) m i) f \<noteq> ''no_change'')
        (filter (field_allowed m i) (compared_fields o' l n))
    = filter (\<lambda>f. field_allowed m i f \<and> field_class o' (Some l) (Some n) f \<noteq> ''no_change'')
        (compared_fields o' l n)"
    by (auto simp: field_class_def value_under_policy intro!: filter_cong)
  then show ?thesis
    by (auto simp: compare_managed_fields_def paths field_changes_conv field_entry_def
        field_class_def value_under_policy Let_def)
qed

definition change_path :: "pdict \<Rightarrow> string" where
  "change_path c = py_str (pget c ''field_path'')"

lemma change_path_entry [simp]: "change_path (field_entry o' l n f) = f"
  by (simp add: change_path_def field_entry_def change_entry_def py_str_def)

text \<open>
  C29. The comparison is complete and ordered: the reported paths are exactly the managed, not
  ignored fields of the three states whose classification is not \<open>no_change\<close>, each reported once,
  in increasing order, with the three values of the field.
\<close>

theorem compare_reports_exactly:
  "map change_path (compare_managed_fields old_desired live new_desired managed ignored)
     = filter (\<lambda>f. field_allowed managed ignored f
                  \<and> field_class old_desired (Some live) (Some new_desired) f \<noteq> ''no_change'')
         (compared_fields old_desired live new_desired)
   \<and> sorted (map change_path (compare_managed_fields old_desired live new_desired managed ignored))
   \<and> distinct (map change_path (compare_managed_fields old_desired live new_desired managed ignored))
   \<and> set (compared_fields old_desired live new_desired)
     = set (fields_of old_desired) \<union> fst ` set live \<union> fst ` set new_desired
   \<and> (\<forall>c. c \<in> set (compare_managed_fields old_desired live new_desired managed ignored)
       = (\<exists>f \<in> set (compared_fields old_desired live new_desired). field_allowed managed ignored f
           \<and> field_class old_desired (Some live) (Some new_desired) f \<noteq> ''no_change''
           \<and> c = field_entry old_desired (Some live) (Some new_desired) f))"
  unfolding compare_conv
  by (auto simp: comp_def compared_fields_def sorted_filter [of "\<lambda>x. x", simplified])

text \<open>
  C31. The field policy is a view of the comparison: comparing under a policy is comparing
  everything and keeping the entries of the allowed fields, so ignoring a field can neither hide
  nor alter what is reported of another.
\<close>

theorem policy_filters_changes:
  "compare_managed_fields old_desired live new_desired managed ignored
    = filter (\<lambda>c. field_allowed managed ignored (change_path c))
        (compare_managed_fields old_desired live new_desired None None)"
  unfolding compare_conv
  by (simp add: filter_map comp_def field_allowed_def [of None None] conj_commute)

subsection \<open>Convergence and safety\<close>

lemma field_class_no_change:
  assumes "dict_get desired f = Some v" and "json_value v" and "v \<noteq> PStr MISSING"
    and "dict_get live f = Some w" and "declared_value_matches_live v w"
  shows "field_class (Some desired) (Some live) (Some desired) f = ''no_change''"
  using assms by (simp add: field_class_def value_or_missing_def classify_field_change_def py_eq_refl)

text \<open>
  C32. A deployed desired state is stable: when the previous and the new desired fields are the
  same JSON values, none of them the placeholder of an absent field, and the live object has
  exactly these fields with values that satisfy them, nothing is reported under any policy.
\<close>

theorem converged_has_no_changes:
  assumes "json_value (PDict desired)" and "PStr MISSING \<notin> snd ` set desired"
    and "fst ` set live = fst ` set desired"
    and "\<forall>(f, v) \<in> set desired. declared_value_matches_live v (value_or_missing (Some live) f)"
  shows "compare_managed_fields (Some desired) live desired managed ignored = []"
proof -
  have "field_class (Some desired) (Some live) (Some desired) f = ''no_change''"
    if f: "f \<in> fst ` set desired" for f
  proof -
    obtain v where v: "(f, v) \<in> set desired" using f by auto
    have d: "dict_get desired f = Some v" "json_value v" "v \<noteq> PStr MISSING"
      using assms(1,2) v by (auto simp: list_all_iff map_of_is_SomeI rev_image_eqI)
    obtain w where w: "dict_get live f = Some w"
      using f assms(3) by (cases "dict_get live f") (simp_all add: map_of_eq_None_iff)
    have "declared_value_matches_live v w"
      using assms(4) v w by (auto simp: value_or_missing_def)
    with d w show ?thesis by (intro field_class_no_change)
  qed
  then show ?thesis
    using assms(3) by (auto simp: compare_conv compared_fields_def fields_of_def filter_empty_conv)
qed

theorem converged_has_no_changes_witness:
  "compare_managed_fields (Some [(''spec.replicas'', PInt 2), (''spec.ports'',
        PList [PDict [(''port'', PInt 80)]])])
     [(''spec.ports'', PList [PDict [(''port'', PInt 80), (''protocol'', PStr ''TCP'')]]),
      (''spec.replicas'', PInt 2)]
     [(''spec.replicas'', PInt 2), (''spec.ports'', PList [PDict [(''port'', PInt 80)]])]
     None (Some [''data'']) = []"
  by (rule converged_has_no_changes) code_simp+

lemma classification_entry: "dict_get (field_entry o' l n f) ''classification''
    = Some (PStr (field_class o' l n f))"
  by (simp add: field_entry_def change_entry_def)

lemma classes_of_compare:
  "rtraverse (\<lambda>change. case dict_get change ''classification'' of
       None \<Rightarrow> Inl KeyError | Some c \<Rightarrow> Inr (py_str c)) (map (field_entry o' l n) fs)
    = Inr (map (field_class o' l n) fs)"
  by (induction fs) (simp_all add: classification_entry py_str_def)

definition change_classes :: "string set" where
  "change_classes = {''already_converged'', ''adoption_required'', ''intended_change'', ''drift'',
     ''conflict_or_manual_change''}"

lemma classify_values: "classify_field_change a b c \<in> insert ''no_change'' change_classes"
  by (simp add: classify_field_change_def change_classes_def Let_def)

text \<open>A summary announces the gravest class of the comparison.\<close>

lemma worst_class_announces:
  assumes "c \<in> set classes"
    and "c = (if unknown then ''adoption_required'' else if deployed then ''intended_change''
      else if unchanged then ''drift'' else ''conflict_or_manual_change'')"
  shows "if unknown then PStr c = PStr ''adoption_required''
        \<and> worst_class classes \<in> {''review_required'', ''adoption_required''}
      else if deployed then PStr c = PStr ''intended_change'' \<and> worst_class classes
        \<in> {''review_required'', ''adoption_required'', ''intended_change'', ''drift''}
      else if unchanged then PStr c = PStr ''drift'' \<and> worst_class classes
        \<in> {''review_required'', ''adoption_required'', ''intended_change'', ''drift''}
      else PStr c = PStr ''conflict_or_manual_change'' \<and> worst_class classes = ''review_required''"
  using assms by (cases unknown; cases deployed; cases unchanged) (simp_all add: worst_class_def)

lemma worst_class_quiet:
  assumes "set classes \<subseteq> change_classes"
  shows "worst_class classes \<in> {''no_change'', ''already_converged''}
    \<longleftrightarrow> set classes \<subseteq> {''already_converged''}"
  using assms by (auto simp: worst_class_def change_classes_def split: if_splits)

lemma classify_converged:
  "classify_field_change a b c \<in> {''no_change'', ''already_converged''}
    \<longleftrightarrow> declared_value_matches_live c b"
  by (auto simp: classify_field_change_def Let_def)

lemma classify_overwrite:
  assumes "\<not> declared_value_matches_live c b"
  shows "classify_field_change a b c =
    (if a = PStr MISSING then ''adoption_required''
     else if declared_value_matches_live a b then ''intended_change''
     else if py_eq a c then ''drift'' else ''conflict_or_manual_change'')"
proof -
  have "py_eq a (PStr MISSING) \<longleftrightarrow> a = PStr MISSING" by (cases a) auto
  then show ?thesis using assms by (simp add: classify_field_change_def Let_def)
qed

lemma summarize_compare:
  "summarize_status (compare_managed_fields old_desired live new_desired managed ignored)
    = Inr (worst_class (map (field_class old_desired (Some live) (Some new_desired))
        (filter (\<lambda>f. field_allowed managed ignored f
            \<and> field_class old_desired (Some live) (Some new_desired) f \<noteq> ''no_change'')
          (compared_fields old_desired live new_desired))))"
  by (simp add: summarize_status_def compare_conv classes_of_compare)

text \<open>
  C30. Nothing is overwritten unannounced. Summarising a comparison never fails. The summary is
  \<open>no_change\<close> or \<open>already_converged\<close> exactly when every managed, not ignored field of the three
  states already satisfies the new desired value, so that a deployment would change nothing. Any
  other field is reported with its live value as \<open>before\<close> and its desired value as \<open>after\<close>, and
  its class and the summary tell what would be overwritten: a value of unknown origin asks for
  adoption (or review); a live value that somebody edited, so that it satisfies neither the
  previous nor the new desired value, is reported as a conflict that asks for review when the
  desired value changed, and as drift when it did not; in the remaining case the live value is
  the previously deployed one. Only the class of the entry shows a drift when another field has
  an intended change, because the summary names the intended change then.
\<close>

theorem overwrite_is_announced:
  "\<exists>s. summarize_status (compare_managed_fields old_desired live new_desired managed ignored) = Inr s
    \<and> (s \<in> {''no_change'', ''already_converged''} \<longleftrightarrow>
        (\<forall>f \<in> set (compared_fields old_desired live new_desired). field_allowed managed ignored f \<longrightarrow>
          declared_value_matches_live (value_or_missing (Some new_desired) f)
            (value_or_missing (Some live) f)))
    \<and> (\<forall>f \<in> set (compared_fields old_desired live new_desired). field_allowed managed ignored f
        \<and> \<not> declared_value_matches_live (value_or_missing (Some new_desired) f)
              (value_or_missing (Some live) f) \<longrightarrow>
        (\<exists>change \<in> set (compare_managed_fields old_desired live new_desired managed ignored).
          change_path change = f
          \<and> pget change ''before'' = value_or_missing (Some live) f
          \<and> pget change ''after'' = value_or_missing (Some new_desired) f
          \<and> (if value_or_missing old_desired f = PStr MISSING
             then pget change ''classification'' = PStr ''adoption_required''
               \<and> s \<in> {''review_required'', ''adoption_required''}
             else if declared_value_matches_live (value_or_missing old_desired f)
                       (value_or_missing (Some live) f)
             then pget change ''classification'' = PStr ''intended_change''
               \<and> s \<in> {''review_required'', ''adoption_required'', ''intended_change'', ''drift''}
             else if py_eq (value_or_missing old_desired f) (value_or_missing (Some new_desired) f)
             then pget change ''classification'' = PStr ''drift''
               \<and> s \<in> {''review_required'', ''adoption_required'', ''intended_change'', ''drift''}
             else pget change ''classification'' = PStr ''conflict_or_manual_change''
               \<and> s = ''review_required'')))"
proof -
  let ?c = "field_class old_desired (Some live) (Some new_desired)"
  let ?fs = "filter (\<lambda>f. field_allowed managed ignored f \<and> ?c f \<noteq> ''no_change'')
    (compared_fields old_desired live new_desired)"
  let ?s = "worst_class (map ?c ?fs)"
  let ?new = "value_or_missing (Some new_desired)" and ?live = "value_or_missing (Some live)"
  have "set (map ?c ?fs) \<subseteq> change_classes"
    using classify_values by (auto simp: field_class_def change_classes_def)
  then have "?s \<in> {''no_change'', ''already_converged''} \<longleftrightarrow> set (map ?c ?fs) \<subseteq> {''already_converged''}"
    by (rule worst_class_quiet)
  also have "\<dots> \<longleftrightarrow> (\<forall>f \<in> set (compared_fields old_desired live new_desired).
      field_allowed managed ignored f \<longrightarrow> ?c f \<in> {''no_change'', ''already_converged''})"
    by auto
  finally have quiet: "?s \<in> {''no_change'', ''already_converged''} \<longleftrightarrow>
      (\<forall>f \<in> set (compared_fields old_desired live new_desired). field_allowed managed ignored f \<longrightarrow>
        declared_value_matches_live (?new f) (?live f))"
    unfolding field_class_def classify_converged .
  show ?thesis
  proof (intro exI [of _ ?s] conjI ballI impI quiet summarize_compare)
    fix f
    assume f: "f \<in> set (compared_fields old_desired live new_desired)"
      and n: "field_allowed managed ignored f \<and> \<not> declared_value_matches_live (?new f) (?live f)"
    then have c: "?c f = (if value_or_missing old_desired f = PStr MISSING then ''adoption_required''
       else if declared_value_matches_live (value_or_missing old_desired f) (?live f)
       then ''intended_change''
       else if py_eq (value_or_missing old_desired f) (?new f) then ''drift''
       else ''conflict_or_manual_change'')"
      unfolding field_class_def by (intro classify_overwrite) simp
    then have "?c f \<noteq> ''no_change''" by simp
    with f n have fs: "f \<in> set ?fs" by simp
    then have "?c f \<in> set (map ?c ?fs)" unfolding set_map by (rule imageI)
    note announced = worst_class_announces [OF this c]
    let ?e = "field_entry old_desired (Some live) (Some new_desired) f"
    have e: "pget ?e ''before'' = ?live f" "pget ?e ''after'' = ?new f"
        "pget ?e ''classification'' = PStr (?c f)"
      by (simp_all add: field_entry_def change_entry_def pget_def)
    have "?e \<in> set (compare_managed_fields old_desired live new_desired managed ignored)"
      unfolding compare_conv set_map using fs by (rule imageI)
    then show "\<exists>change \<in> set (compare_managed_fields old_desired live new_desired managed ignored).
          change_path change = f
          \<and> pget change ''before'' = ?live f \<and> pget change ''after'' = ?new f
          \<and> (if value_or_missing old_desired f = PStr MISSING
             then pget change ''classification'' = PStr ''adoption_required''
               \<and> ?s \<in> {''review_required'', ''adoption_required''}
             else if declared_value_matches_live (value_or_missing old_desired f) (?live f)
             then pget change ''classification'' = PStr ''intended_change''
               \<and> ?s \<in> {''review_required'', ''adoption_required'', ''intended_change'', ''drift''}
             else if py_eq (value_or_missing old_desired f) (?new f)
             then pget change ''classification'' = PStr ''drift''
               \<and> ?s \<in> {''review_required'', ''adoption_required'', ''intended_change'', ''drift''}
             else pget change ''classification'' = PStr ''conflict_or_manual_change''
               \<and> ?s = ''review_required'')"
      by (rule bexI [rotated]) (unfold e, intro conjI change_path_entry refl announced)
  qed
qed

theorem overwrite_is_announced_witness:
  "(\<exists>s. summarize_status (compare_managed_fields (Some [(''spec.replicas'', PInt 2)])
        [(''spec.replicas'', PInt 5)] [(''spec.replicas'', PInt 3)] None None) = Inr s
      \<and> s = ''review_required'')
    \<and> (\<exists>change \<in> set (compare_managed_fields (Some [(''spec.replicas'', PInt 2)])
        [(''spec.replicas'', PInt 5)] [(''spec.replicas'', PInt 3)] None None).
      pget change ''before'' = PInt 5)"
proof -
  have f: "''spec.replicas'' \<in> set (compared_fields (Some [(''spec.replicas'', PInt 2)])
        [(''spec.replicas'', PInt 5)] [(''spec.replicas'', PInt 3)])"
      "field_allowed None None ''spec.replicas''"
      "\<not> declared_value_matches_live (value_or_missing (Some [(''spec.replicas'', PInt 3)]) ''spec.replicas'')
        (value_or_missing (Some [(''spec.replicas'', PInt 5)]) ''spec.replicas'')"
    by code_simp+
  have v: "value_or_missing (Some [(''spec.replicas'', x)]) ''spec.replicas'' = x" for x
    by (simp add: value_or_missing_def)
  from overwrite_is_announced [of "Some [(''spec.replicas'', PInt 2)]" "[(''spec.replicas'', PInt 5)]"
      "[(''spec.replicas'', PInt 3)]" None None]
  obtain s change where "summarize_status (compare_managed_fields (Some [(''spec.replicas'', PInt 2)])
        [(''spec.replicas'', PInt 5)] [(''spec.replicas'', PInt 3)] None None) = Inr s"
      "change \<in> set (compare_managed_fields (Some [(''spec.replicas'', PInt 2)])
        [(''spec.replicas'', PInt 5)] [(''spec.replicas'', PInt 3)] None None)"
      "pget change ''before'' = value_or_missing (Some [(''spec.replicas'', PInt 5)]) ''spec.replicas''"
    using f by blast
  moreover have "summarize_status (compare_managed_fields (Some [(''spec.replicas'', PInt 2)])
        [(''spec.replicas'', PInt 5)] [(''spec.replicas'', PInt 3)] None None) = Inr ''review_required''"
    by code_simp
  ultimately show ?thesis unfolding v by auto
qed

end
