(* ===== verification/Event_Store.thy ===== *)
theory Event_Store
  imports Py_Value
begin

text \<open>
  The durable side of the event runtime: the processing ledger and the consumer metrics
  (\<open>src/src/packages/storage/repositories/event.py\<close>), the transactional outbox
  (\<open>outbox.py\<close>) and the dead letters (\<open>dead_letter.py\<close>), with the envelope of
  \<open>src/src/packages/contracts/event_bus/interfaces.py\<close> and \<open>src/src/packages/events/envelope.py\<close>.
  A table is a list of rows in insertion order, or a dictionary where it has a primary key that
  statements refer to; one statement is one function from tables to tables. The database clock
  (\<open>func.now()\<close>), the application clock and fresh identifiers are arguments.
\<close>

subsection \<open>Envelopes\<close>

record EventEnvelope =
  ev_event_id :: string
  ev_subject :: string
  ev_source :: string
  ev_correlation_id :: py
  ev_causation_id :: "string option"
  ev_created_at :: string
  ev_payload :: pdict
  ev_schema_version :: int
  ev_workspace_id :: "string option"

definition ENVELOPE_SCHEMA_VERSION :: int where
  "ENVELOPE_SCHEMA_VERSION = 1"

definition normalized_workspace_id :: "string option \<Rightarrow> string option" where
  "normalized_workspace_id value =
    (case value of
       None \<Rightarrow> None
     | Some s \<Rightarrow> (let normalized = py_strip s in if normalized = [] then None else Some normalized))"

text \<open>\<open>x or y\<close> on optional strings whose empty string is false.\<close>

definition opt_or :: "string option \<Rightarrow> string option \<Rightarrow> string option" where
  "opt_or x y = (case x of None \<Rightarrow> y | Some s \<Rightarrow> if s = [] then y else x)"

definition event ::
  "string \<Rightarrow> string \<Rightarrow> string option \<Rightarrow> string \<Rightarrow> string \<Rightarrow> pdict \<Rightarrow> py \<Rightarrow> string option
    \<Rightarrow> string option \<Rightarrow> EventEnvelope" where
  "event event_id now_iso current_workspace subject source payload correlation_id causation_id
     workspace_id =
    \<lparr>ev_event_id = event_id, ev_subject = subject, ev_source = source,
     ev_correlation_id =
       py_or (py_or correlation_id (pget payload ''correlation_id'')) (PStr event_id),
     ev_causation_id = causation_id, ev_created_at = now_iso, ev_payload = payload,
     ev_schema_version = ENVELOPE_SCHEMA_VERSION,
     ev_workspace_id =
       opt_or (normalized_workspace_id workspace_id) (normalized_workspace_id current_workspace)\<rparr>"

subsection \<open>Tables\<close>

definition PROCESSING :: string where "PROCESSING = ''processing''"
definition PROCESSED :: string where "PROCESSED = ''processed''"
definition RETRYING :: string where "RETRYING = ''retrying''"
definition DEAD_LETTERED :: string where "DEAD_LETTERED = ''dead_lettered''"
definition CLAIM_BLOCKED :: string where "CLAIM_BLOCKED = ''claim_blocked''"

definition TERMINAL_STATUSES :: "string list" where
  "TERMINAL_STATUSES = [PROCESSED, DEAD_LETTERED]"

lemmas status_defs = PROCESSING_def PROCESSED_def RETRYING_def DEAD_LETTERED_def CLAIM_BLOCKED_def
  TERMINAL_STATUSES_def

definition DEAD_LETTER_STATUS_OPEN :: string where "DEAD_LETTER_STATUS_OPEN = ''open''"
definition DEAD_LETTER_STATUS_REPLAYED :: string where "DEAD_LETTER_STATUS_REPLAYED = ''replayed''"
definition RAW_DEAD_LETTER_SUBJECT :: string where
  "RAW_DEAD_LETTER_SUBJECT = ''__decode_failed__''"

record processing_row =
  pw_subject :: string
  pw_correlation_id :: py
  pw_status :: string
  pw_attempts :: int
  pw_last_error :: "string option"
  pw_duration_ms :: "int option"
  pw_updated_at :: utc

record outbox_row =
  ob_id :: int
  ob_event :: EventEnvelope
  ob_lease_id :: "string option"
  ob_leased_until :: "utc option"
  ob_sent_at :: "utc option"

record dead_letter_row =
  dl_id :: int
  dl_original_event_id :: string
  dl_original_subject :: string
  dl_consumer :: string
  dl_correlation_id :: py
  dl_attempts :: int
  dl_error :: string
  dl_payload :: pdict
  dl_status :: string
  dl_created_at :: utc
  dl_replayed_at :: "utc option"
  dl_replay_event_id :: "string option"

type_synonym processing_key = "string \<times> string"

record event_store =
  es_events :: "(string \<times> EventEnvelope) list"
  es_processing :: "(processing_key \<times> processing_row) list"
  es_outbox :: "outbox_row list"
  es_outbox_next :: int
  es_dead_letters :: "dead_letter_row list"
  es_dead_letter_next :: int

definition ERROR_MESSAGE_LIMIT :: nat where
  "ERROR_MESSAGE_LIMIT = 2000"

text \<open>
  \<open>s[:n]\<close> of a string held as UTF-8 bytes: \<open>n\<close> characters, a byte \<open>10xxxxxx\<close> belonging to the
  character before it.
\<close>

fun py_take :: "nat \<Rightarrow> string \<Rightarrow> string" where
  "py_take n [] = []"
| "py_take n (c # s) =
    (if (of_char c :: nat) div 64 = 2 then c # py_take n s
     else (case n of 0 \<Rightarrow> [] | Suc m \<Rightarrow> c # py_take m s))"

definition compact_error :: "string \<Rightarrow> string" where
  "compact_error error = py_take ERROR_MESSAGE_LIMIT error"

subsection \<open>The processing ledger\<close>

text \<open>\<open>insert ... on conflict (event_id) do nothing\<close>.\<close>

definition record_event :: "EventEnvelope \<Rightarrow> event_store \<Rightarrow> event_store" where
  "record_event evt es =
    (if dict_has (es_events es) (ev_event_id evt) then es
     else es\<lparr>es_events := es_events es @ [(ev_event_id evt, evt)]\<rparr>)"

definition claimable :: "int \<Rightarrow> utc \<Rightarrow> processing_row \<Rightarrow> bool" where
  "claimable stale_seconds now row \<longleftrightarrow>
    pw_status row \<notin> set TERMINAL_STATUSES
    \<and> (pw_status row \<noteq> PROCESSING \<or> pw_updated_at row < now - stale_seconds * 1000000)"

definition claim_event_processing ::
  "int \<Rightarrow> utc \<Rightarrow> EventEnvelope \<Rightarrow> string \<Rightarrow> event_store \<Rightarrow> (string \<times> int) option \<times> event_store" where
  "claim_event_processing stale_seconds now evt consumer es =
    (let key = (ev_event_id evt, consumer)
     in case dict_get (es_processing es) key of
          None \<Rightarrow>
            (Some (PROCESSING, 1),
             es\<lparr>es_processing := dict_set (es_processing es) key
                \<lparr>pw_subject = ev_subject evt, pw_correlation_id = ev_correlation_id evt,
                 pw_status = PROCESSING, pw_attempts = 1, pw_last_error = None,
                 pw_duration_ms = None, pw_updated_at = now\<rparr>\<rparr>)
        | Some row \<Rightarrow>
            if claimable stale_seconds now row
            then
              (let row' = row\<lparr>pw_attempts := pw_attempts row + 1, pw_status := PROCESSING,
                              pw_last_error := None, pw_updated_at := now\<rparr>
               in (Some (PROCESSING, pw_attempts row'),
                   es\<lparr>es_processing := dict_set (es_processing es) key row'\<rparr>))
            else (None, es))"

definition get_event_processing ::
  "EventEnvelope \<Rightarrow> string \<Rightarrow> event_store \<Rightarrow> (string \<times> int) option" where
  "get_event_processing evt consumer es =
    map_option (\<lambda>row. (pw_status row, pw_attempts row))
      (dict_get (es_processing es) (ev_event_id evt, consumer))"

record EventProcessingRecord =
  ep_status :: string
  ep_attempts :: int

definition begin_event_processing ::
  "int \<Rightarrow> utc \<Rightarrow> EventEnvelope \<Rightarrow> string \<Rightarrow> event_store \<Rightarrow> EventProcessingRecord \<times> event_store" where
  "begin_event_processing stale_seconds now evt consumer es =
    (case claim_event_processing stale_seconds now evt consumer es of
       (Some (st, attempts), es') \<Rightarrow> (\<lparr>ep_status = st, ep_attempts = attempts\<rparr>, es')
     | (None, es') \<Rightarrow>
         (case get_event_processing evt consumer es' of
            Some (st, attempts) \<Rightarrow>
              (\<lparr>ep_status = (if st = PROCESSING then CLAIM_BLOCKED else st),
                ep_attempts = attempts\<rparr>, es')
          | None \<Rightarrow> (\<lparr>ep_status = ''unknown'', ep_attempts = 0\<rparr>, es')))"

text \<open>\<open>update event_processing set ... where event_id = ... and consumer = ...\<close>.\<close>

definition update_processing ::
  "EventEnvelope \<Rightarrow> string \<Rightarrow> (processing_row \<Rightarrow> processing_row) \<Rightarrow> event_store \<Rightarrow> event_store" where
  "update_processing evt consumer f es =
    (case dict_get (es_processing es) (ev_event_id evt, consumer) of
       None \<Rightarrow> es
     | Some row \<Rightarrow>
         es\<lparr>es_processing := dict_set (es_processing es) (ev_event_id evt, consumer) (f row)\<rparr>)"

definition stored_duration :: "int option \<Rightarrow> processing_row \<Rightarrow> processing_row" where
  "stored_duration duration_ms row =
    (case duration_ms of None \<Rightarrow> row | Some d \<Rightarrow> row\<lparr>pw_duration_ms := Some (max 0 d)\<rparr>)"

definition finish_event_processing ::
  "utc \<Rightarrow> EventEnvelope \<Rightarrow> string \<Rightarrow> int option \<Rightarrow> event_store \<Rightarrow> event_store" where
  "finish_event_processing now evt consumer duration_ms =
    update_processing evt consumer (\<lambda>row. stored_duration duration_ms
      (row\<lparr>pw_status := PROCESSED, pw_last_error := None, pw_updated_at := now\<rparr>))"

definition fail_event_processing ::
  "utc \<Rightarrow> EventEnvelope \<Rightarrow> string \<Rightarrow> string \<Rightarrow> string \<Rightarrow> int option \<Rightarrow> event_store \<Rightarrow> event_store" where
  "fail_event_processing now evt consumer error st duration_ms =
    update_processing evt consumer (\<lambda>row. stored_duration duration_ms
      (row\<lparr>pw_status := st, pw_last_error := Some (compact_error error), pw_updated_at := now\<rparr>))"

definition event_processing_status_counts :: "event_store \<Rightarrow> (string \<times> int) list" where
  "event_processing_status_counts es =
    map (\<lambda>st. (st, int (length (filter (\<lambda>(_, row). pw_status row = st) (es_processing es)))))
      (remdups (map (\<lambda>(_, row). pw_status row) (es_processing es)))"

subsection \<open>The outbox\<close>

fun stage_events :: "EventEnvelope list \<Rightarrow> event_store \<Rightarrow> event_store" where
  "stage_events [] es = es"
| "stage_events (evt # events) es =
    stage_events events
      (if ev_event_id evt \<in> set (map (\<lambda>row. ev_event_id (ob_event row)) (es_outbox es))
       then es\<lparr>es_outbox_next := es_outbox_next es + 1\<rparr>
       else es\<lparr>es_outbox := es_outbox es @
                 [\<lparr>ob_id = es_outbox_next es, ob_event = evt, ob_lease_id = None,
                   ob_leased_until = None, ob_sent_at = None\<rparr>],
               es_outbox_next := es_outbox_next es + 1\<rparr>)"

definition outbox_available :: "utc \<Rightarrow> string option \<Rightarrow> outbox_row \<Rightarrow> bool" where
  "outbox_available now source row \<longleftrightarrow>
    ob_sent_at row = None
    \<and> (ob_lease_id row = None \<or> (case ob_leased_until row of None \<Rightarrow> False | Some t \<Rightarrow> t < now))
    \<and> (case source of None \<Rightarrow> True | Some s \<Rightarrow> ev_source (ob_event row) = s)"

definition DEFAULT_OUTBOX_LEASE_SECONDS :: int where
  "DEFAULT_OUTBOX_LEASE_SECONDS = 60"

definition unsent_events ::
  "utc \<Rightarrow> utc \<Rightarrow> string \<Rightarrow> nat \<Rightarrow> string option \<Rightarrow> event_store \<Rightarrow> EventEnvelope list \<times> event_store" where
  "unsent_events now app_now lease_id limit source es =
    (let claimed = take limit (sort_key ob_id (filter (outbox_available now source) (es_outbox es)));
         ids = map ob_id claimed;
         leased_until = app_now + DEFAULT_OUTBOX_LEASE_SECONDS * 1000000
     in (map ob_event (filter (\<lambda>row. ob_id row \<in> set ids) (es_outbox es)),
         es\<lparr>es_outbox := map (\<lambda>row. if ob_id row \<in> set ids
                then row\<lparr>ob_lease_id := Some lease_id, ob_leased_until := Some leased_until\<rparr>
                else row) (es_outbox es)\<rparr>))"

definition mark_sent :: "utc \<Rightarrow> string list \<Rightarrow> outbox_row \<Rightarrow> outbox_row" where
  "mark_sent now event_ids row =
    (if ev_event_id (ob_event row) \<in> set event_ids
     then row\<lparr>ob_sent_at := Some now, ob_lease_id := None, ob_leased_until := None\<rparr>
     else row)"

definition mark_events_sent :: "utc \<Rightarrow> string list \<Rightarrow> event_store \<Rightarrow> event_store" where
  "mark_events_sent now event_ids es =
    es\<lparr>es_outbox := map (mark_sent now event_ids) (es_outbox es)\<rparr>"

definition outbox_pending_count :: "event_store \<Rightarrow> int" where
  "outbox_pending_count es = int (length (filter (\<lambda>row. ob_sent_at row = None) (es_outbox es)))"

subsection \<open>Dead letters\<close>

definition insert_dead_letter ::
  "utc \<Rightarrow> string \<Rightarrow> string \<Rightarrow> string \<Rightarrow> py \<Rightarrow> int \<Rightarrow> string \<Rightarrow> pdict \<Rightarrow> event_store \<Rightarrow> event_store" where
  "insert_dead_letter now event_id subject consumer correlation_id attempts error payload es =
    es\<lparr>es_dead_letters := es_dead_letters es @
         [\<lparr>dl_id = es_dead_letter_next es, dl_original_event_id = event_id,
           dl_original_subject = subject, dl_consumer = consumer,
           dl_correlation_id = correlation_id, dl_attempts = attempts,
           dl_error = compact_error error, dl_payload = payload,
           dl_status = DEAD_LETTER_STATUS_OPEN, dl_created_at = now,
           dl_replayed_at = None, dl_replay_event_id = None\<rparr>],
       es_dead_letter_next := es_dead_letter_next es + 1\<rparr>"

definition record_dead_letter ::
  "utc \<Rightarrow> EventEnvelope \<Rightarrow> string \<Rightarrow> string \<Rightarrow> int \<Rightarrow> event_store \<Rightarrow> event_store" where
  "record_dead_letter now evt consumer error attempts =
    insert_dead_letter now (ev_event_id evt) (ev_subject evt) consumer (ev_correlation_id evt)
      attempts error (ev_payload evt)"

text \<open>\<open>raw\<close> is the replacement-decoded message; \<open>fresh\<close> the identifier drawn for it.\<close>

definition record_raw_dead_letter ::
  "utc \<Rightarrow> string \<Rightarrow> string \<Rightarrow> string \<Rightarrow> string \<Rightarrow> event_store \<Rightarrow> event_store" where
  "record_raw_dead_letter now fresh raw consumer error =
    (let original_event_id = ''decode-failure:'' @ fresh
     in insert_dead_letter now original_event_id RAW_DEAD_LETTER_SUBJECT consumer
          (PStr original_event_id) 1 error [(''raw'', PStr raw)])"

fun mark_events_dead_lettered ::
  "utc \<Rightarrow> EventEnvelope list \<Rightarrow> string \<Rightarrow> string \<Rightarrow> event_store \<Rightarrow> event_store" where
  "mark_events_dead_lettered now [] consumer error es = es"
| "mark_events_dead_lettered now (evt # events) consumer error es =
    mark_events_sent now (map ev_event_id (evt # events))
      (foldl (\<lambda>es e. record_dead_letter now e consumer error 1 es) es (evt # events))"

definition mark_dead_letter_replayed :: "utc \<Rightarrow> int \<Rightarrow> string \<Rightarrow> event_store \<Rightarrow> bool \<times> event_store" where
  "mark_dead_letter_replayed now dead_letter_id replay_event_id es =
    (let matches = (\<lambda>row. dl_id row = dead_letter_id \<and> dl_status row = DEAD_LETTER_STATUS_OPEN)
     in (list_ex matches (es_dead_letters es),
         es\<lparr>es_dead_letters := map (\<lambda>row. if matches row
              then row\<lparr>dl_status := DEAD_LETTER_STATUS_REPLAYED, dl_replayed_at := Some now,
                       dl_replay_event_id := Some replay_event_id\<rparr>
              else row) (es_dead_letters es)\<rparr>))"

definition get_dead_letter :: "int \<Rightarrow> event_store \<Rightarrow> dead_letter_row option" where
  "get_dead_letter dead_letter_id es =
    find (\<lambda>row. dl_id row = dead_letter_id) (es_dead_letters es)"

definition open_dead_letter_count :: "event_store \<Rightarrow> int" where
  "open_dead_letter_count es =
    int (length (filter (\<lambda>row. dl_status row = DEAD_LETTER_STATUS_OPEN) (es_dead_letters es)))"

end
