(* ===== verification/Event_Ledger.thy ===== *)
theory Event_Ledger
  imports Event_Store
begin

text \<open>
  The contract of the processing store, the part of \<open>EventProcessingStore\<close>
  (\<open>src/src/packages/contracts/interfaces.py\<close>) that the worker relies on: an event is claimed, a
  claim is refused while another one is fresh or the event is settled, and completing or failing
  an event changes its row only. The repository of \<open>event.py\<close> fulfils it.
\<close>

subsection \<open>What a statement changes\<close>

abbreviation processing_of :: "event_store \<Rightarrow> processing_key \<Rightarrow> processing_row option" where
  "processing_of es k \<equiv> dict_get (es_processing es) k"

named_theorems store_simps \<open>effect of a statement on the tables\<close>

lemma processing_unaffected [store_simps]:
  "es_processing (record_event evt es) = es_processing es"
  "es_processing (stage_events events es) = es_processing es"
  "es_processing (mark_events_sent now ids es) = es_processing es"
  "es_processing (record_dead_letter now evt c err n es) = es_processing es"
  "es_processing (record_raw_dead_letter now fresh raw c err es) = es_processing es"
  by (induction events arbitrary: es)
    (simp_all add: record_event_def mark_events_sent_def record_dead_letter_def
      record_raw_dead_letter_def insert_dead_letter_def Let_def)

lemma outbox_unaffected [store_simps]:
  "es_outbox (record_event evt es) = es_outbox es"
  "es_outbox (record_dead_letter now evt c err n es) = es_outbox es"
  "es_outbox (update_processing evt c f es) = es_outbox es"
  by (simp_all add: record_event_def record_dead_letter_def insert_dead_letter_def
      update_processing_def split: option.split)

lemma update_processing_get [store_simps]:
  "processing_of (update_processing evt c f es) k =
    (if k = (ev_event_id evt, c) then map_option f (processing_of es k) else processing_of es k)"
  by (simp add: update_processing_def split: option.split)

lemma stored_duration_fields [simp]:
  "pw_status (stored_duration d row) = pw_status row"
  "pw_updated_at (stored_duration d row) = pw_updated_at row"
  "pw_attempts (stored_duration d row) = pw_attempts row"
  by (simp_all add: stored_duration_def split: option.split)

text \<open>The two outcomes of asking for an event: it is claimed, or nothing in the ledger changes.\<close>

lemma begin_cases:
  assumes "begin_event_processing stale now evt c es = (r, es')"
  obtains
    (claimed) row where
      "ep_status r = PROCESSING"
      "processing_of es (ev_event_id evt, c) = None \<and> ep_attempts r = 1
       \<or> (\<exists>old. processing_of es (ev_event_id evt, c) = Some old \<and> claimable stale now old
             \<and> ep_attempts r = pw_attempts old + 1)"
      "processing_of es' (ev_event_id evt, c) = Some row" "pw_status row = PROCESSING"
      "pw_updated_at row = now" "pw_attempts row = ep_attempts r"
      "\<forall>k. k \<noteq> (ev_event_id evt, c) \<longrightarrow> processing_of es' k = processing_of es k"
  | (refused) row where
      "ep_status r \<noteq> PROCESSING" "es_processing es' = es_processing es"
      "processing_of es (ev_event_id evt, c) = Some row" "\<not> claimable stale now row"
      "ep_status r = (if pw_status row = PROCESSING then CLAIM_BLOCKED else pw_status row)"
proof (cases "processing_of es (ev_event_id evt, c)")
  case None
  then show thesis
    using assms
    by (intro claimed) (auto simp: begin_event_processing_def claim_event_processing_def Let_def
        split: if_splits)
next
  case (Some row)
  then show thesis
  proof (cases "claimable stale now row")
    case True
    with Some assms show thesis
      by (intro claimed) (auto simp: begin_event_processing_def claim_event_processing_def Let_def
          split: if_splits)
  next
    case False
    with Some assms show thesis
      by (intro refused) (auto simp: begin_event_processing_def claim_event_processing_def
          get_event_processing_def Let_def status_defs split: if_splits)
  qed
qed

subsection \<open>The contract\<close>

locale processing_store =
  fixes event_id :: "'e \<Rightarrow> string"
    and begin_processing :: "int \<Rightarrow> utc \<Rightarrow> 'e \<Rightarrow> string \<Rightarrow> 's \<Rightarrow> EventProcessingRecord \<times> 's"
    and finish_processing :: "utc \<Rightarrow> 'e \<Rightarrow> string \<Rightarrow> int option \<Rightarrow> 's \<Rightarrow> 's"
    and fail_processing :: "utc \<Rightarrow> 'e \<Rightarrow> string \<Rightarrow> string \<Rightarrow> string \<Rightarrow> int option \<Rightarrow> 's \<Rightarrow> 's"
    and row_of :: "'s \<Rightarrow> processing_key \<Rightarrow> processing_row option"
  assumes claim_granted:
      "begin_processing stale now e c s = (r, s') \<Longrightarrow>
        (\<And>row. row_of s (event_id e, c) = Some row \<Longrightarrow> claimable stale now row) \<Longrightarrow>
        ep_status r = PROCESSING
        \<and> ep_attempts r = (case row_of s (event_id e, c) of None \<Rightarrow> 1 | Some old \<Rightarrow> pw_attempts old + 1)
        \<and> (\<exists>row. row_of s' (event_id e, c) = Some row \<and> pw_status row = PROCESSING
             \<and> pw_updated_at row = now \<and> pw_attempts row = ep_attempts r)"
    and claim_refused:
      "begin_processing stale now e c s = (r, s') \<Longrightarrow> row_of s (event_id e, c) = Some row \<Longrightarrow>
        \<not> claimable stale now row \<Longrightarrow>
        ep_status r = (if pw_status row = PROCESSING then CLAIM_BLOCKED else pw_status row)
        \<and> row_of s' = row_of s"
    and finish_row:
      "row_of s (event_id e, c) = Some row \<Longrightarrow>
        \<exists>row'. row_of (finish_processing now e c d s) (event_id e, c) = Some row'
          \<and> pw_status row' = PROCESSED"
    and fail_row:
      "row_of s (event_id e, c) = Some row \<Longrightarrow>
        \<exists>row'. row_of (fail_processing now e c err st d s) (event_id e, c) = Some row'
          \<and> pw_status row' = st \<and> pw_attempts row' = pw_attempts row"
    and other_rows:
      "k \<noteq> (event_id e, c) \<Longrightarrow> row_of (snd (begin_processing stale now e c s)) k = row_of s k"
      "k \<noteq> (event_id e, c) \<Longrightarrow> row_of (finish_processing now e c d s) k = row_of s k"
      "k \<noteq> (event_id e, c) \<Longrightarrow> row_of (fail_processing now e c err st d s) k = row_of s k"
begin

lemma refused_claim:
  assumes "row_of s (event_id e, c) = Some row" and "\<not> claimable stale now row"
  shows "ep_status (fst (begin_processing stale now e c s))
      = (if pw_status row = PROCESSING then CLAIM_BLOCKED else pw_status row)
    \<and> row_of (snd (begin_processing stale now e c s)) = row_of s"
  using claim_refused [OF _ assms] by (metis prod.collapse)

text \<open>A row that cannot be claimed survives every claim of its own event and of all others.\<close>

lemma begin_keeps_row:
  assumes "row_of s k = Some row" and "k = (event_id e, c) \<Longrightarrow> \<not> claimable stale now row"
  shows "row_of (snd (begin_processing stale now e c s)) k = Some row"
  using assms refused_claim [of s e c row stale now] other_rows(1) [of k e c stale now s]
  by (cases "k = (event_id e, c)") auto

lemma finish_keeps_processed:
  assumes "row_of s k = Some row" and "pw_status row = PROCESSED"
  shows "\<exists>row'. row_of (finish_processing now e c d s) k = Some row' \<and> pw_status row' = PROCESSED"
  using assms finish_row [of s e c row now d] other_rows(2) [of k e c now d s]
  by (cases "k = (event_id e, c)") auto

lemma retry_counts:
  assumes "row_of s (event_id e, c) = Some row"
    and "begin_processing stale now' e c (fail_processing now e c err RETRYING d s) = (r, s')"
  shows "ep_status r = PROCESSING \<and> ep_attempts r = pw_attempts row + 1"
proof -
  obtain row' where row': "row_of (fail_processing now e c err RETRYING d s) (event_id e, c) = Some row'"
      "pw_status row' = RETRYING" "pw_attempts row' = pw_attempts row"
    using assms(1) fail_row by blast
  then have "claimable stale now' row'" by (simp add: claimable_def status_defs)
  with claim_granted [OF assms(2)] row' show ?thesis by simp
qed

end

interpretation event_ledger: processing_store ev_event_id begin_event_processing
  finish_event_processing fail_event_processing processing_of
proof
  fix stale now e c s r s'
  assume b: "begin_event_processing stale now e c s = (r, s')"
    and "\<And>row. processing_of s (ev_event_id e, c) = Some row \<Longrightarrow> claimable stale now row"
  then show "ep_status r = PROCESSING
      \<and> ep_attempts r = (case processing_of s (ev_event_id e, c) of None \<Rightarrow> 1 | Some old \<Rightarrow> pw_attempts old + 1)
      \<and> (\<exists>row. processing_of s' (ev_event_id e, c) = Some row \<and> pw_status row = PROCESSING
           \<and> pw_updated_at row = now \<and> pw_attempts row = ep_attempts r)"
    using b by (cases rule: begin_cases) auto
next
  fix stale now e c s r s' row
  assume b: "begin_event_processing stale now e c s = (r, s')"
    and "processing_of s (ev_event_id e, c) = Some row" and "\<not> claimable stale now row"
  then show "ep_status r = (if pw_status row = PROCESSING then CLAIM_BLOCKED else pw_status row)
      \<and> processing_of s' = processing_of s"
    using b by (cases rule: begin_cases) auto
next
  fix k and e :: EventEnvelope and c :: string and stale now s
  assume k: "k \<noteq> (ev_event_id e, c)"
  obtain r s' where b: "begin_event_processing stale now e c s = (r, s')" by (rule prod.exhaust)
  then have "processing_of s' k = processing_of s k"
  proof (cases rule: begin_cases)
    case (claimed row)
    from claimed(7) k show ?thesis by blast
  qed simp
  then show "processing_of (snd (begin_event_processing stale now e c s)) k = processing_of s k"
    by (simp add: b)
qed (auto simp: finish_event_processing_def fail_event_processing_def store_simps)

subsection \<open>Any number of statements\<close>

text \<open>
  What the instances of all workers do to the ledger, one statement after the other: claims,
  completions and failures of any events by any consumers at any times.
\<close>

datatype ledger_op =
    Begin_Op utc EventEnvelope string
  | Finish_Op utc EventEnvelope string "int option"
  | Fail_Op utc EventEnvelope string string string "int option"

primrec ledger_run :: "int \<Rightarrow> ledger_op list \<Rightarrow> event_store \<Rightarrow> event_store" where
  "ledger_run stale [] es = es"
| "ledger_run stale (op # ops) es = ledger_run stale ops
    (case op of
       Begin_Op now evt consumer \<Rightarrow> snd (begin_event_processing stale now evt consumer es)
     | Finish_Op now evt consumer duration_ms \<Rightarrow>
         finish_event_processing now evt consumer duration_ms es
     | Fail_Op now evt consumer error status duration_ms \<Rightarrow>
         fail_event_processing now evt consumer error status duration_ms es)"

text \<open>Nobody settles the event, and nobody asks for it after the limit.\<close>

definition leaves_claim :: "processing_key \<Rightarrow> utc \<Rightarrow> ledger_op \<Rightarrow> bool" where
  "leaves_claim k limit op \<longleftrightarrow>
    (case op of
       Begin_Op now evt consumer \<Rightarrow> (ev_event_id evt, consumer) = k \<longrightarrow> now \<le> limit
     | Finish_Op now evt consumer _ \<Rightarrow> (ev_event_id evt, consumer) \<noteq> k
     | Fail_Op now evt consumer _ _ _ \<Rightarrow> (ev_event_id evt, consumer) \<noteq> k)"

text \<open>Nobody records a failure of the event.\<close>

definition no_failure :: "processing_key \<Rightarrow> ledger_op \<Rightarrow> bool" where
  "no_failure k op \<longleftrightarrow>
    (case op of Fail_Op now evt consumer _ _ _ \<Rightarrow> (ev_event_id evt, consumer) \<noteq> k | _ \<Rightarrow> True)"

lemma run_keeps_claim:
  assumes "processing_of es k = Some row" and "pw_status row = PROCESSING"
    and "\<forall>op \<in> set ops. leaves_claim k (pw_updated_at row + stale * 1000000) op"
  shows "processing_of (ledger_run stale ops es) k = Some row"
  using assms(1,3)
proof (induction ops arbitrary: es)
  case (Cons op ops)
  have "leaves_claim k (pw_updated_at row + stale * 1000000) op" using Cons.prems(2) by simp
  then have "processing_of (case op of
       Begin_Op now evt consumer \<Rightarrow> snd (begin_event_processing stale now evt consumer es)
     | Finish_Op now evt consumer duration_ms \<Rightarrow>
         finish_event_processing now evt consumer duration_ms es
     | Fail_Op now evt consumer error status duration_ms \<Rightarrow>
         fail_event_processing now evt consumer error status duration_ms es) k = Some row"
    using Cons.prems(1) assms(2)
    by (cases op) (auto simp: leaves_claim_def claimable_def event_ledger.other_rows
        intro!: event_ledger.begin_keeps_row)
  then show ?case using Cons.IH Cons.prems(2) by simp
qed simp

lemma run_keeps_processed:
  assumes "processing_of es k = Some row" and "pw_status row = PROCESSED"
    and "\<forall>op \<in> set ops. no_failure k op"
  shows "\<exists>row. processing_of (ledger_run stale ops es) k = Some row \<and> pw_status row = PROCESSED"
  using assms
proof (induction ops arbitrary: es row)
  case (Cons op ops)
  have "\<not> claimable stale now row" for now
    using Cons.prems(2) by (simp add: claimable_def status_defs)
  note begin_step = event_ledger.begin_keeps_row [OF Cons.prems(1) this]
  have "no_failure k op" using Cons.prems(3) by simp
  then obtain row' where "processing_of (case op of
       Begin_Op now evt consumer \<Rightarrow> snd (begin_event_processing stale now evt consumer es)
     | Finish_Op now evt consumer duration_ms \<Rightarrow>
         finish_event_processing now evt consumer duration_ms es
     | Fail_Op now evt consumer error status duration_ms \<Rightarrow>
         fail_event_processing now evt consumer error status duration_ms es) k = Some row'"
      "pw_status row' = PROCESSED"
  proof (cases op)
    case (Finish_Op now evt consumer d)
    then show thesis
      using event_ledger.finish_keeps_processed [OF Cons.prems(1,2), of now evt consumer d] that by auto
  qed (use Cons.prems(1,2) begin_step that in \<open>auto simp: no_failure_def event_ledger.other_rows\<close>)
  then show ?case using Cons.IH Cons.prems(3) by simp
qed simp

text \<open>
  C26. Claims exclude each other. After an instance has claimed an event for a consumer, every
  further claim of that event by that consumer inside the freshness window is refused and leaves
  the row as it is, whatever other instances do meanwhile, as long as nobody settles the event:
  any claims of it inside the window and any statements on other rows. Once the event is finished,
  every claim at any time finds it processed, whatever statements come between, as long as none
  of them records a failure of this event.
\<close>

theorem claims_exclude_each_other:
  assumes "begin_event_processing stale now evt consumer es = (r, es1)" and "ep_status r = PROCESSING"
    and "k = (ev_event_id evt, consumer)"
  shows "(\<forall>ops now'. now' \<le> now + stale * 1000000
        \<and> (\<forall>op \<in> set ops. leaves_claim k (now + stale * 1000000) op) \<longrightarrow>
      (let (r', es2) = begin_event_processing stale now' evt consumer (ledger_run stale ops es1)
       in ep_status r' = CLAIM_BLOCKED \<and> processing_of es2 k = processing_of es1 k))
    \<and> (\<forall>ops now'. (\<forall>op \<in> set ops. no_failure k op) \<longrightarrow>
      ep_status (fst (begin_event_processing stale now' evt consumer
        (ledger_run stale ops (finish_event_processing t evt consumer d es1)))) = PROCESSED)"
proof (intro conjI allI impI)
  obtain row where row: "processing_of es1 k = Some row" "pw_status row = PROCESSING"
      "pw_updated_at row = now"
    using assms by (auto elim!: begin_cases)
  fix ops now'
  show "let (r', es2) = begin_event_processing stale now' evt consumer (ledger_run stale ops es1)
       in ep_status r' = CLAIM_BLOCKED \<and> processing_of es2 k = processing_of es1 k"
    if "now' \<le> now + stale * 1000000
        \<and> (\<forall>op \<in> set ops. leaves_claim k (now + stale * 1000000) op)"
  proof -
    have "processing_of (ledger_run stale ops es1) k = Some row"
      using run_keeps_claim [OF row(1,2)] row(3) that by simp
    moreover have "\<not> claimable stale now' row" using that row(2,3) by (simp add: claimable_def)
    ultimately show ?thesis
      using event_ledger.refused_claim [of "ledger_run stale ops es1" evt consumer row stale now']
        row assms(3) by (simp add: case_prod_beta Let_def)
  qed
  show "ep_status (fst (begin_event_processing stale now' evt consumer
        (ledger_run stale ops (finish_event_processing t evt consumer d es1)))) = PROCESSED"
    if "\<forall>op \<in> set ops. no_failure k op"
  proof -
    obtain row' where "processing_of (finish_event_processing t evt consumer d es1) k = Some row'"
        "pw_status row' = PROCESSED"
      using event_ledger.finish_row row(1) assms(3) by blast
    from run_keeps_processed [OF this that, of stale] obtain row'' where
        row'': "processing_of (ledger_run stale ops (finish_event_processing t evt consumer d es1)) k
          = Some row''" "pw_status row'' = PROCESSED" by blast
    then have "\<not> claimable stale now' row''" by (simp add: claimable_def status_defs)
    with row'' event_ledger.refused_claim [of _ evt consumer row'' stale now'] assms(3) show ?thesis
      by (simp add: status_defs)
  qed
qed

end
