(* ===== verification/Event_Worker.thy ===== *)
theory Event_Worker
  imports Event_Ledger
begin

text \<open>
  The event runtime on top of the store: the ledger facade
  (\<open>src/src/packages/runtime/ledger.py\<close>), the processor that claims an event, runs its handler
  in one transaction with the outbox and the ledger, and retries or dead-letters a failure
  (\<open>src/src/packages/runtime/worker.py\<close>), and the outbox relay (\<open>relay.py\<close>). A handler is a
  function from the event and the application tables \<open>'a\<close> to the exception or the follow-up events
  it ends with and the tables as it has written them so far; the unit of work around it commits or
  rolls back. What the broker, the clocks, the database and the dead-letter publication answer
  are arguments.
\<close>

subsection \<open>Settings\<close>

definition PROCESSING_STALE_SECONDS :: int where
  "PROCESSING_STALE_SECONDS = 90"

definition validate_event_timing_contract :: "int \<Rightarrow> int \<Rightarrow> int \<Rightarrow> unit res" where
  "validate_event_timing_contract handler_timeout_seconds ack_wait stale_seconds =
    (if handler_timeout_seconds < ack_wait \<and> ack_wait < stale_seconds then Inr ()
     else Inl (ValueError ''unsafe event timing contract''))"

record EventRetryPolicy =
  rp_max_attempts :: int
  rp_retry_delay_seconds :: int
  rp_handler_timeout_seconds :: int
  rp_dead_letter_timeout_seconds :: int

definition durable_name :: "string \<Rightarrow> string option \<Rightarrow> string" where
  "durable_name service_name name =
    (case name of None \<Rightarrow> service_name | Some n \<Rightarrow> service_name @ ''-'' @ n)"

definition durable_for :: "string \<Rightarrow> string option \<Rightarrow> string list \<Rightarrow> string \<Rightarrow> string" where
  "durable_for service_name name subjects subject =
    (if length subjects \<le> 1 then durable_name service_name name
     else durable_name service_name name @ ''-''
       @ py_replace_char (CHR ''*'') ''any''
           (py_replace_char (CHR ''>'') ''all'' (py_replace_char (CHR ''.'') ''-'' subject)))"

subsection \<open>The ledger facade\<close>

definition ledger_begin ::
  "int \<Rightarrow> utc \<Rightarrow> string \<Rightarrow> EventEnvelope \<Rightarrow> event_store \<Rightarrow> EventProcessingRecord \<times> event_store" where
  "ledger_begin stale_seconds now consumer evt es =
    begin_event_processing stale_seconds now evt consumer (record_event evt es)"

definition ledger_finish ::
  "utc \<Rightarrow> string \<Rightarrow> EventEnvelope \<Rightarrow> int option \<Rightarrow> event_store \<Rightarrow> event_store" where
  "ledger_finish now consumer evt duration_ms = finish_event_processing now evt consumer duration_ms"

definition ledger_retry ::
  "utc \<Rightarrow> string \<Rightarrow> EventEnvelope \<Rightarrow> string \<Rightarrow> int option \<Rightarrow> event_store \<Rightarrow> event_store" where
  "ledger_retry now consumer evt error duration_ms =
    fail_event_processing now evt consumer error RETRYING duration_ms"

definition ledger_dead_letter ::
  "utc \<Rightarrow> string \<Rightarrow> EventEnvelope \<Rightarrow> string \<Rightarrow> int option \<Rightarrow> event_store \<Rightarrow> event_store" where
  "ledger_dead_letter now consumer evt error duration_ms =
    fail_event_processing now evt consumer error DEAD_LETTERED duration_ms"

subsection \<open>Processing one message\<close>

datatype settlement = Ack | Nak int

type_synonym 'a handler = "EventEnvelope \<Rightarrow> 'a \<Rightarrow> EventEnvelope list res \<times> 'a"

text \<open>
  One transaction: what the body has written is kept when it returns and the commit succeeds;
  when either raises, the state is the one before.
\<close>

definition unit_of_work :: "exn option \<Rightarrow> ('s \<Rightarrow> 'r res \<times> 's) \<Rightarrow> 's \<Rightarrow> 'r res \<times> 's" where
  "unit_of_work commit_error body st =
    (case body st of
       (Inl e, _) \<Rightarrow> (Inl e, st)
     | (Inr r, st') \<Rightarrow> (case commit_error of None \<Rightarrow> (Inr r, st') | Some e \<Rightarrow> (Inl e, st)))"

text \<open>
  The database may refuse the outbox rows, the completion or the commit itself; each statement
  that was executed before the refusal has written.
\<close>

datatype write_fault = No_Fault | Stage_Fault exn | Finish_Fault exn | Commit_Fault exn

definition commit_error_of :: "write_fault \<Rightarrow> exn option" where
  "commit_error_of fault = (case fault of Commit_Fault e \<Rightarrow> Some e | _ \<Rightarrow> None)"

definition handle_body ::
  "'a handler \<Rightarrow> write_fault \<Rightarrow> utc \<Rightarrow> string \<Rightarrow> EventEnvelope \<Rightarrow> int option \<Rightarrow> event_store \<times> 'a
    \<Rightarrow> unit res \<times> event_store \<times> 'a" where
  "handle_body handler fault now consumer evt duration_ms st =
    (case handler evt (snd st) of
       (Inl e, app) \<Rightarrow> (Inl e, fst st, app)
     | (Inr outbox_events, app) \<Rightarrow>
         (case fault of
            Stage_Fault e \<Rightarrow> (Inl e, fst st, app)
          | Finish_Fault e \<Rightarrow> (Inl e, stage_events outbox_events (fst st), app)
          | _ \<Rightarrow> (Inr (), ledger_finish now consumer evt duration_ms
                           (stage_events outbox_events (fst st)), app)))"

definition handle_transaction ::
  "'a handler \<Rightarrow> write_fault \<Rightarrow> utc \<Rightarrow> string \<Rightarrow> EventEnvelope \<Rightarrow> int option \<Rightarrow> event_store \<times> 'a
    \<Rightarrow> unit res \<times> event_store \<times> 'a" where
  "handle_transaction handler fault now consumer evt duration_ms =
    unit_of_work (commit_error_of fault) (handle_body handler fault now consumer evt duration_ms)"

text \<open>
  Capturing a dead letter: the row is committed first, the announcement is published and recorded
  after it. Either may fail, the second leaving the row behind.
\<close>

datatype capture_outcome = Captured EventEnvelope | Record_Only | Not_Recorded

definition is_captured :: "capture_outcome \<Rightarrow> bool" where
  "is_captured outcome = (case outcome of Captured _ \<Rightarrow> True | _ \<Rightarrow> False)"

definition capture ::
  "capture_outcome \<Rightarrow> utc \<Rightarrow> EventEnvelope \<Rightarrow> string \<Rightarrow> string \<Rightarrow> int \<Rightarrow> event_store \<Rightarrow> event_store" where
  "capture outcome now evt consumer error attempts es =
    (case outcome of
       Captured announced \<Rightarrow>
         record_event announced (record_dead_letter now evt consumer error attempts es)
     | Record_Only \<Rightarrow> record_dead_letter now evt consumer error attempts es
     | Not_Recorded \<Rightarrow> es)"

definition capture_raw ::
  "capture_outcome \<Rightarrow> utc \<Rightarrow> string \<Rightarrow> string \<Rightarrow> string \<Rightarrow> string \<Rightarrow> event_store \<Rightarrow> event_store" where
  "capture_raw outcome now fresh raw consumer error es =
    (case outcome of
       Captured announced \<Rightarrow>
         record_event announced (record_raw_dead_letter now fresh raw consumer error es)
     | Record_Only \<Rightarrow> record_raw_dead_letter now fresh raw consumer error es
     | Not_Recorded \<Rightarrow> es)"

definition fail_event ::
  "EventRetryPolicy \<Rightarrow> capture_outcome \<Rightarrow> utc \<Rightarrow> string \<Rightarrow> EventEnvelope \<Rightarrow> string \<Rightarrow> int \<Rightarrow> int option
    \<Rightarrow> event_store \<Rightarrow> settlement \<times> event_store" where
  "fail_event retry_policy outcome now consumer evt error attempts duration_ms es =
    (if rp_max_attempts retry_policy \<le> attempts
     then
       (let es = capture outcome now evt consumer error attempts es
        in if is_captured outcome
           then (Ack, ledger_dead_letter now consumer evt error duration_ms es)
           else (Nak (rp_retry_delay_seconds retry_policy),
                 ledger_retry now consumer evt error duration_ms es))
     else (Nak (rp_retry_delay_seconds retry_policy),
           ledger_retry now consumer evt error duration_ms es))"

definition process_event ::
  "(exn \<Rightarrow> string) \<Rightarrow> int \<Rightarrow> EventRetryPolicy \<Rightarrow> 'a handler \<Rightarrow> write_fault \<Rightarrow> capture_outcome \<Rightarrow> utc \<Rightarrow> utc \<Rightarrow> string
    \<Rightarrow> int option \<Rightarrow> EventEnvelope \<Rightarrow> event_store \<times> 'a \<Rightarrow> settlement \<times> event_store \<times> 'a" where
  "process_event show_error stale_seconds retry_policy handler fault outcome claimed_at ended_at consumer
     duration_ms evt st =
    (let (processing, es) = ledger_begin stale_seconds claimed_at consumer evt (fst st)
     in if ep_status processing \<in> set TERMINAL_STATUSES then (Ack, es, snd st)
        else if ep_status processing \<noteq> PROCESSING
        then (Nak (rp_retry_delay_seconds retry_policy), es, snd st)
        else
          (case handle_transaction handler fault ended_at consumer evt duration_ms (es, snd st) of
             (Inr _, st') \<Rightarrow> (Ack, st')
           | (Inl e, st') \<Rightarrow>
               (let (settled, es') = fail_event retry_policy outcome ended_at consumer evt
                      (show_error e) (ep_attempts processing) duration_ms (fst st')
                in (settled, es', snd st'))))"

text \<open>A message that cannot be decoded is recorded as it is, or asked for again.\<close>

definition process ::
  "(exn \<Rightarrow> string) \<Rightarrow> int \<Rightarrow> EventRetryPolicy \<Rightarrow> 'a handler \<Rightarrow> write_fault \<Rightarrow> capture_outcome \<Rightarrow> utc \<Rightarrow> utc \<Rightarrow> string
    \<Rightarrow> int option \<Rightarrow> string \<Rightarrow> string \<Rightarrow> EventEnvelope res \<Rightarrow> event_store \<times> 'a
    \<Rightarrow> settlement \<times> event_store \<times> 'a" where
  "process show_error stale_seconds retry_policy handler fault outcome claimed_at ended_at consumer
     duration_ms fresh raw decoded st =
    (case decoded of
       Inl e \<Rightarrow>
         (if is_captured outcome then Ack else Nak (rp_retry_delay_seconds retry_policy),
          capture_raw outcome claimed_at fresh raw consumer (show_error e) (fst st), snd st)
     | Inr evt \<Rightarrow>
         process_event show_error stale_seconds retry_policy handler fault outcome claimed_at ended_at
           consumer duration_ms evt st)"

subsection \<open>The outbox relay\<close>

datatype publish_result = Published | Publish_Error string string

definition NON_RETRYABLE_PUBLISH_ERRORS :: "string list" where
  "NON_RETRYABLE_PUBLISH_ERRORS = [''MaxPayloadError'']"

text \<open>
  The loop of one batch: the broker answers every publication with success or an exception of
  some class. The result is the exception that ended the loop, if any, the identifiers published
  so far and the store.
\<close>

fun relay_batch ::
  "(EventEnvelope \<Rightarrow> publish_result) \<Rightarrow> utc \<Rightarrow> string \<Rightarrow> EventEnvelope list \<Rightarrow> string list \<Rightarrow> event_store
    \<Rightarrow> (string \<times> string) option \<times> string list \<times> event_store" where
  "relay_batch publish now consumer [] published es = (None, published, es)"
| "relay_batch publish now consumer (evt # rows) published es =
    (case publish evt of
       Published \<Rightarrow> relay_batch publish now consumer rows (published @ [ev_event_id evt]) es
     | Publish_Error name message \<Rightarrow>
         if name \<in> set NON_RETRYABLE_PUBLISH_ERRORS
         then relay_batch publish now consumer rows published
                (mark_events_dead_lettered now [evt] consumer message es)
         else (Some (name, message), published, es))"

definition run_once ::
  "(EventEnvelope list \<Rightarrow> EventEnvelope list) \<Rightarrow> (EventEnvelope \<Rightarrow> publish_result) \<Rightarrow> utc \<Rightarrow> utc \<Rightarrow> string
    \<Rightarrow> string option \<Rightarrow> nat \<Rightarrow> event_store \<Rightarrow> ((string \<times> string) + int) \<times> string list \<times> event_store" where
  "run_once arrange publish now app_now lease_id source batch es =
    (let consumer_name = ''outbox-relay:'' @
           (case source of None \<Rightarrow> ''all'' | Some s \<Rightarrow> if s = [] then ''all'' else s);
         (rows, es) = unsent_events now app_now lease_id batch source es;
         (raised, published, es) = relay_batch publish now consumer_name (arrange rows) [] es;
         es = (if published \<noteq> [] then mark_events_sent now published es else es)
     in (case raised of None \<Rightarrow> Inr (int (length published)) | Some e \<Rightarrow> Inl e, published, es))"

subsection \<open>What a statement changes\<close>

lemma capture_unaffected [store_simps]:
  "es_processing (capture out now evt c err n es) = es_processing es"
  "es_outbox (capture out now evt c err n es) = es_outbox es"
  by (simp_all add: capture_def store_simps split: capture_outcome.split)

lemmas ledger_defs = ledger_finish_def finish_event_processing_def ledger_retry_def
  ledger_dead_letter_def fail_event_processing_def

text \<open>The two outcomes of asking for an event: it is claimed, or nothing in the ledger changes.\<close>

lemma ledger_begin_cases:
  assumes "ledger_begin stale now c evt es = (r, es')"
  obtains
    (claimed) row where
      "ep_status r = PROCESSING"
      "processing_of es (ev_event_id evt, c) = None \<and> ep_attempts r = 1
       \<or> (\<exists>old. processing_of es (ev_event_id evt, c) = Some old \<and> claimable stale now old
             \<and> ep_attempts r = pw_attempts old + 1)"
      "processing_of es' (ev_event_id evt, c) = Some row" "pw_status row = PROCESSING"
      "pw_updated_at row = now" "pw_attempts row = ep_attempts r"
      "\<And>k. k \<noteq> (ev_event_id evt, c) \<Longrightarrow> processing_of es' k = processing_of es k"
  | (refused) row where
      "ep_status r \<noteq> PROCESSING" "es_processing es' = es_processing es"
      "processing_of es (ev_event_id evt, c) = Some row" "\<not> claimable stale now row"
      "ep_status r = (if pw_status row = PROCESSING then CLAIM_BLOCKED else pw_status row)"
  using assms unfolding ledger_begin_def
  by (elim begin_cases) (auto simp: store_simps intro: claimed refused)

lemma handle_transaction_cases:
  obtains (committed) events app where "handler evt (snd st) = (Inr events, app)" "fault = No_Fault"
      "handle_transaction handler fault now c evt d st
        = (Inr (), ledger_finish now c evt d (stage_events events (fst st)), app)"
  | (rolled_back) e where "fault \<noteq> No_Fault \<or> (\<exists>app. handler evt (snd st) = (Inl e, app))"
      "handle_transaction handler fault now c evt d st = (Inl e, st)"
proof -
  obtain result app where h: "handler evt (snd st) = (result, app)" by (rule prod.exhaust)
  show thesis
    using h
    by (cases result; cases fault)
      (auto simp: handle_transaction_def handle_body_def unit_of_work_def commit_error_of_def
        intro: committed rolled_back)
qed

lemma handle_transaction_Inr:
  assumes "handle_transaction handler fault now c evt d st = (Inr u, es', app')"
  obtains events where "handler evt (snd st) = (Inr events, app')" "fault = No_Fault"
    "es' = ledger_finish now c evt d (stage_events events (fst st))"
  by (cases rule: handle_transaction_cases [of handler evt st fault now c d]) (use assms that in auto)

lemma handle_transaction_commits:
  "handler evt (snd st) = (Inr events, app) \<Longrightarrow> handle_transaction handler No_Fault now c evt d st
    = (Inr (), ledger_finish now c evt d (stage_events events (fst st)), app)"
  by (simp add: handle_transaction_def handle_body_def unit_of_work_def commit_error_of_def)

lemma handle_transaction_raises:
  "handler evt (snd st) = (Inl e, app) \<Longrightarrow>
    handle_transaction handler fault now c evt d st = (Inl e, st)"
  by (simp add: handle_transaction_def handle_body_def unit_of_work_def)

lemma fail_event_cases:
  assumes "fail_event policy out now c evt err n d es = (settled, es')"
  obtains (dead) "settled = Ack" "rp_max_attempts policy \<le> n" "is_captured out"
      "es' = ledger_dead_letter now c evt err d (capture out now evt c err n es)"
  | (again) es0 where "settled = Nak (rp_retry_delay_seconds policy)"
      "es' = ledger_retry now c evt err d es0" "es0 = es \<or> es0 = capture out now evt c err n es"
      "n < rp_max_attempts policy \<or> \<not> is_captured out"
proof (cases "rp_max_attempts policy \<le> n \<and> is_captured out")
  case True
  then show thesis using assms by (intro dead) (auto simp: fail_event_def Let_def)
next
  case False
  then show thesis
    using assms
    by (intro again [of "if rp_max_attempts policy \<le> n then capture out now evt c err n es else es"])
      (auto simp: fail_event_def Let_def split: if_splits)
qed

subsection \<open>One delivery\<close>

definition settled_status :: "event_store \<Rightarrow> EventEnvelope \<Rightarrow> string \<Rightarrow> bool" where
  "settled_status es evt consumer \<longleftrightarrow>
    (\<exists>row. processing_of es (ev_event_id evt, consumer) = Some row
       \<and> pw_status row \<in> set TERMINAL_STATUSES)"

definition commits :: "'a handler \<Rightarrow> write_fault \<Rightarrow> EventEnvelope \<Rightarrow> 'a \<Rightarrow> bool" where
  "commits handler fault evt app \<longleftrightarrow>
    fault = No_Fault \<and> (case fst (handler evt app) of Inr _ \<Rightarrow> True | Inl _ \<Rightarrow> False)"

lemma process_event_cases:
  assumes "process_event show_error stale policy handler fault out t0 t1 c d evt (es, app)
    = (settled, es', app')"
  obtains
    (skipped) r row where "ledger_begin stale t0 c evt es = (r, es')" "app' = app"
      "es_processing es' = es_processing es"
      "processing_of es (ev_event_id evt, c) = Some row" "\<not> claimable stale t0 row"
      "settled = (if pw_status row \<in> set TERMINAL_STATUSES then Ack
                  else Nak (rp_retry_delay_seconds policy))"
      "ep_status r \<noteq> PROCESSING"
  | (handled) r es0 events where "ledger_begin stale t0 c evt es = (r, es0)"
      "ep_status r = PROCESSING" "handler evt app = (Inr events, app')" "settled = Ack"
      "es' = ledger_finish t1 c evt d (stage_events events es0)" "fault = No_Fault"
  | (failed) r es0 e where "ledger_begin stale t0 c evt es = (r, es0)"
      "ep_status r = PROCESSING" "\<not> commits handler fault evt app" "app' = app"
      "fail_event policy out t1 c evt (show_error e) (ep_attempts r) d es0 = (settled, es')"
      "handle_transaction handler fault t1 c evt d (es0, app) = (Inl e, es0, app)"
proof -
  obtain r es0 where b: "ledger_begin stale t0 c evt es = (r, es0)" by (rule prod.exhaust)
  from b show thesis
  proof (cases rule: ledger_begin_cases)
    case (claimed row)
    then have p: "ep_status r \<notin> set TERMINAL_STATUSES" by (simp add: status_defs)
    show thesis
    proof (cases rule: handle_transaction_cases [of handler evt "(es0, app)" fault t1 c d])
      case (rolled_back e)
      then show thesis
        using assms b p claimed(1)
        by (intro failed [of r es0 e])
          (auto simp: process_event_def commits_def split: prod.splits)
    next
      case (committed events app1)
      then show thesis
        using assms b p claimed(1)
        by (intro handled [of r es0 events]) (auto simp: process_event_def)
    qed
  next
    case (refused row)
    then show thesis
      using assms b
      by (intro skipped [of r row])
        (auto simp: process_event_def claimable_def status_defs split: if_splits)
  qed
qed

text \<open>
  C11. No event is lost. A delivered event is acknowledged only when its ledger row for this
  consumer is terminal: it has been processed, now or earlier, or it has been dead-lettered. In
  every other case the message is returned to the broker.
\<close>

theorem ack_only_when_settled:
  assumes "process_event show_error stale policy handler fault outcome t0 t1 consumer d evt st
    = (Ack, es', app')"
  shows "settled_status es' evt consumer"
proof -
  obtain es app where st: "st = (es, app)" by (rule prod.exhaust)
  from assms [unfolded st] show ?thesis
  proof (cases rule: process_event_cases)
    case (skipped r row)
    then show ?thesis by (auto simp: settled_status_def split: if_splits)
  next
    case (handled r es0 events)
    from handled(1) show ?thesis
      using handled(2,5)
      by (cases rule: ledger_begin_cases)
        (auto simp: settled_status_def ledger_defs store_simps status_defs)
  next
    case (failed r es0 e)
    from failed(1) show ?thesis
    proof (cases rule: ledger_begin_cases)
      case (claimed row)
      from failed(5) claimed(3) show ?thesis
        by (cases rule: fail_event_cases)
          (auto simp: settled_status_def ledger_defs store_simps status_defs)
    qed (use failed(2) in simp)
  qed
qed

lemma ledger_begin_outbox:
  assumes "ledger_begin stale t0 consumer evt es = (r, es0)"
  shows "es_outbox es0 = es_outbox es \<and> es_outbox_next es0 = es_outbox_next es"
proof -
  have "es_outbox (snd (claim_event_processing stale t0 evt consumer e)) = es_outbox e
      \<and> es_outbox_next (snd (claim_event_processing stale t0 evt consumer e)) = es_outbox_next e" for e
    by (simp add: claim_event_processing_def Let_def split: option.split)
  moreover have "es0 = snd (claim_event_processing stale t0 evt consumer (record_event evt es))"
    using assms
    by (auto simp: ledger_begin_def begin_event_processing_def split: prod.splits option.splits)
  ultimately show ?thesis by (simp add: record_event_def)
qed

lemma stage_events_outbox:
  "es_outbox a = es_outbox b \<and> es_outbox_next a = es_outbox_next b \<Longrightarrow>
    es_outbox (stage_events events a) = es_outbox (stage_events events b)"
proof (induction events arbitrary: a b)
  case (Cons e events)
  show ?case unfolding stage_events.simps by (rule Cons.IH) (use Cons.prems in simp)
qed simp

lemma claimed_row:
  assumes "ledger_begin stale t0 c evt es = (r, es0)" and "ep_status r = PROCESSING"
  shows "\<exists>row. processing_of es0 (ev_event_id evt, c) = Some row"
  using assms by (cases rule: ledger_begin_cases) auto

text \<open>
  C12. A delivery is atomic. Suppose the event was claimed, the handler returned its follow-up
  events and the database accepted all writes. Then the message is acknowledged, the application
  tables are those the handler wrote, the outbox has exactly the follow-up events in addition,
  and the ledger row is processed. In every other case (the claim was refused, or the handler
  raised after any number of writes, or the outbox rows, the completion or the commit was
  refused) the application tables and the outbox are those of before, and a claimed row is left
  for a retry or dead-lettered.
\<close>

theorem delivery_is_atomic:
  assumes "process_event show_error stale policy handler fault outcome t0 t1 consumer d evt (es, app)
    = (settled, es', app')"
    and "claimed \<longleftrightarrow> ep_status (fst (ledger_begin stale t0 consumer evt es)) = PROCESSING"
  shows "(\<forall>events app1. claimed \<and> handler evt app = (Inr events, app1) \<and> fault = No_Fault \<longrightarrow>
        settled = Ack \<and> app' = app1 \<and> es_outbox es' = es_outbox (stage_events events es)
        \<and> (\<exists>row. processing_of es' (ev_event_id evt, consumer) = Some row
             \<and> pw_status row = PROCESSED))
    \<and> (\<not> claimed \<or> fault \<noteq> No_Fault \<or> (\<exists>e app1. handler evt app = (Inl e, app1)) \<longrightarrow>
        app' = app \<and> es_outbox es' = es_outbox es
        \<and> (claimed \<longrightarrow> (\<exists>row. processing_of es' (ev_event_id evt, consumer) = Some row
             \<and> pw_status row \<in> {RETRYING, DEAD_LETTERED})))"
proof -
  from assms(1) show ?thesis
  proof (cases rule: process_event_cases)
    case (skipped r row)
    then show ?thesis using ledger_begin_outbox [OF skipped(1)] assms(2) by auto
  next
    case (handled r es0 events)
    then show ?thesis
      using stage_events_outbox [OF ledger_begin_outbox [OF handled(1)]] assms(2)
        claimed_row [OF handled(1,2)]
      by (auto simp: ledger_defs store_simps)
  next
    case (failed r es0 e)
    obtain row where "processing_of es0 (ev_event_id evt, consumer) = Some row"
      using claimed_row [OF failed(1,2)] by blast
    with failed(5) have "es_outbox es' = es_outbox es0 \<and> (\<exists>row.
        processing_of es' (ev_event_id evt, consumer) = Some row
        \<and> pw_status row \<in> {RETRYING, DEAD_LETTERED})"
      by (cases rule: fail_event_cases) (auto simp: ledger_defs store_simps)
    then show ?thesis
      using ledger_begin_outbox [OF failed(1)] failed(3,4) by (auto simp: commits_def)
  qed
qed

text \<open>
  C27. Redelivery of a settled event is harmless: it is acknowledged without running the handler,
  and neither the ledger, the outbox nor the application tables change.
\<close>

theorem redelivery_is_skipped:
  assumes "settled_status es evt consumer"
  shows "\<exists>es'. process_event show_error stale policy handler fault outcome t0 t1 consumer d evt (es, app)
      = (Ack, es', app)
    \<and> es_processing es' = es_processing es \<and> es_outbox es' = es_outbox es
    \<and> es_dead_letters es' = es_dead_letters es"
  using assms
  by (auto simp: settled_status_def process_event_def ledger_begin_def begin_event_processing_def
      claim_event_processing_def get_event_processing_def claimable_def store_simps Let_def
      status_defs record_event_def)

subsection \<open>An event whose handler always fails\<close>

text \<open>
  Deliveries of one event one after the other: the times of claim and settlement, what the
  database refuses and whether the dead letter could be captured vary from delivery to delivery.
\<close>

fun deliver_all ::
  "(exn \<Rightarrow> string) \<Rightarrow> int \<Rightarrow> EventRetryPolicy \<Rightarrow> 'a handler \<Rightarrow> string \<Rightarrow> EventEnvelope
    \<Rightarrow> (write_fault \<times> capture_outcome \<times> utc \<times> utc) list \<Rightarrow> event_store \<times> 'a \<Rightarrow> settlement list \<times> event_store \<times> 'a" where
  "deliver_all show_error stale policy handler consumer evt [] st = ([], st)"
| "deliver_all show_error stale policy handler consumer evt ((fault, outcome, t0, t1) # deliveries) st =
    (let (settled, st') = process_event show_error stale policy handler fault outcome t0 t1 consumer None evt st;
         (rest, st'') = deliver_all show_error stale policy handler consumer evt deliveries st'
     in (settled # rest, st''))"

definition failed_times :: "event_store \<Rightarrow> EventEnvelope \<Rightarrow> string \<Rightarrow> int \<Rightarrow> bool" where
  "failed_times es evt consumer n \<longleftrightarrow>
    (case processing_of es (ev_event_id evt, consumer) of
       None \<Rightarrow> n = 0
     | Some row \<Rightarrow> pw_status row = RETRYING \<and> pw_attempts row = n)"

lemma failing_delivery:
  assumes "handler evt app = (Inl e, app')" and "failed_times es evt c n"
  shows "\<exists>settled es'. process_event show_error stale policy handler fault out t0 t1 c d evt (es, app)
      = (settled, es', app)
    \<and> (if rp_max_attempts policy \<le> n + 1 \<and> is_captured out
       then settled = Ack \<and> (\<exists>row. processing_of es' (ev_event_id evt, c) = Some row
              \<and> pw_status row = DEAD_LETTERED \<and> pw_attempts row = n + 1)
            \<and> (\<exists>dl \<in> set (es_dead_letters es'). dl_original_event_id dl = ev_event_id evt
                 \<and> dl_consumer dl = c \<and> dl_attempts dl = n + 1
                 \<and> dl_status dl = DEAD_LETTER_STATUS_OPEN)
       else settled = Nak (rp_retry_delay_seconds policy) \<and> failed_times es' evt c (n + 1))"
proof -
  obtain r es0 where b: "ledger_begin stale t0 c evt es = (r, es0)" by (rule prod.exhaust)
  from b obtain row where row: "ep_status r = PROCESSING" "ep_attempts r = n + 1"
      "processing_of es0 (ev_event_id evt, c) = Some row" "pw_status row = PROCESSING"
      "pw_attempts row = n + 1"
  proof (cases rule: ledger_begin_cases)
    case (claimed row)
    then show thesis
      using assms(2) that by (auto simp: failed_times_def)
  next
    case (refused row)
    then show thesis
      using assms(2) by (simp add: failed_times_def claimable_def status_defs)
  qed
  obtain settled es' where f: "fail_event policy out t1 c evt (show_error e) (n + 1) d es0
      = (settled, es')" by (rule prod.exhaust)
  have "process_event show_error stale policy handler fault out t0 t1 c d evt (es, app) = (settled, es', app)"
    using b f row handle_transaction_raises [of handler evt "(es0, app)"] assms(1)
    by (simp add: process_event_def status_defs)
  moreover from f row(3-5) have "if rp_max_attempts policy \<le> n + 1 \<and> is_captured out
       then settled = Ack \<and> (\<exists>row. processing_of es' (ev_event_id evt, c) = Some row
              \<and> pw_status row = DEAD_LETTERED \<and> pw_attempts row = n + 1)
            \<and> (\<exists>dl \<in> set (es_dead_letters es'). dl_original_event_id dl = ev_event_id evt
                 \<and> dl_consumer dl = c \<and> dl_attempts dl = n + 1
                 \<and> dl_status dl = DEAD_LETTER_STATUS_OPEN)
       else settled = Nak (rp_retry_delay_seconds policy) \<and> failed_times es' evt c (n + 1)"
  proof (cases rule: fail_event_cases)
    case dead
    then show ?thesis
      using row(3-5)
      by (auto simp: ledger_defs store_simps is_captured_def capture_def record_dead_letter_def
          insert_dead_letter_def record_event_def update_processing_def split: capture_outcome.splits)
  next
    case (again es1)
    then show ?thesis
      using row(3-5) by (auto simp: ledger_defs store_simps failed_times_def)
  qed
  ultimately show ?thesis by blast
qed

lemma failing_deliveries_again:
  assumes "\<And>app'. \<exists>e app''. handler evt app' = (Inl e, app'')" and "failed_times es evt c n"
    and "n + int (length ds) < rp_max_attempts policy"
  shows "\<exists>es'. deliver_all show_error stale policy handler c evt ds (es, app)
      = (replicate (length ds) (Nak (rp_retry_delay_seconds policy)), es', app)
    \<and> failed_times es' evt c (n + int (length ds))"
  using assms(2,3)
proof (induction ds arbitrary: es n)
  case (Cons x ds)
  obtain fault out t0 t1 e app' where x: "x = (fault, out, t0, t1)" "handler evt app = (Inl e, app')"
    using assms(1) by (cases x) blast
  obtain es1 where one: "process_event show_error stale policy handler fault out t0 t1 c None evt (es, app)
      = (Nak (rp_retry_delay_seconds policy), es1, app)" "failed_times es1 evt c (n + 1)"
    using failing_delivery [of handler evt app e app' es c n show_error stale policy fault out t0 t1 None]
      x(2) Cons.prems by auto
  obtain es2 where "deliver_all show_error stale policy handler c evt ds (es1, app)
      = (replicate (length ds) (Nak (rp_retry_delay_seconds policy)), es2, app)"
      "failed_times es2 evt c (n + 1 + int (length ds))"
    using Cons.IH [OF one(2)] Cons.prems(2) by auto
  with x(1) one(1) show ?case by (auto simp: add.assoc)
qed simp

lemma deliver_all_append:
  "deliver_all show_error stale policy handler c evt (ds @ es) st =
    (let (a, st') = deliver_all show_error stale policy handler c evt ds st;
         (b, st'') = deliver_all show_error stale policy handler c evt es st'
     in (a @ b, st''))"
  by (induction ds arbitrary: st) (auto simp: Let_def split: prod.splits)

text \<open>
  C13. A poisonous event ends. If the handler raises on every delivery of an event that is new to
  the consumer, the first \<open>max_attempts - 1\<close> deliveries return it to the broker, and the delivery
  after them, when its dead letter can be captured, acknowledges it: the ledger row is
  dead-lettered with exactly \<open>max_attempts\<close> attempts, and an open dead letter records the event.
  The application tables are those of the start.
\<close>

theorem poison_event_is_dead_lettered:
  assumes "\<And>app'. \<exists>e app''. handler evt app' = (Inl e, app'')"
    and "processing_of es (ev_event_id evt, consumer) = None"
    and "1 \<le> rp_max_attempts policy" and "int (length ds) = rp_max_attempts policy - 1"
    and "is_captured outcome"
  shows "\<exists>es'. deliver_all show_error stale policy handler consumer evt (ds @ [(fault, outcome, t0, t1)]) (es, app)
      = (replicate (length ds) (Nak (rp_retry_delay_seconds policy)) @ [Ack], es', app)
    \<and> (\<exists>row. processing_of es' (ev_event_id evt, consumer) = Some row
        \<and> pw_status row = DEAD_LETTERED \<and> pw_attempts row = rp_max_attempts policy)
    \<and> (\<exists>dl \<in> set (es_dead_letters es'). dl_original_event_id dl = ev_event_id evt
        \<and> dl_consumer dl = consumer \<and> dl_attempts dl = rp_max_attempts policy
        \<and> dl_status dl = DEAD_LETTER_STATUS_OPEN)"
proof -
  have "failed_times es evt consumer 0" using assms(2) by (simp add: failed_times_def)
  then obtain es1 where many: "deliver_all show_error stale policy handler consumer evt ds (es, app)
      = (replicate (length ds) (Nak (rp_retry_delay_seconds policy)), es1, app)"
      "failed_times es1 evt consumer (rp_max_attempts policy - 1)"
    using failing_deliveries_again [where handler = handler and evt = evt, OF assms(1), of es consumer 0 ds
        policy show_error stale app] assms(4) by auto
  obtain e app' where e: "handler evt app = (Inl e, app')" using assms(1) by blast
  from failing_delivery [of handler evt app e app' es1 consumer "rp_max_attempts policy - 1" show_error
      stale policy fault outcome t0 t1 None]
  show ?thesis using many e assms(3,5) by (auto simp: deliver_all_append)
qed

text \<open>
  C37. A failure settled after its claim was taken over undoes the completion. The update that
  records a failure checks neither the claim nor the status, so if another instance has
  processed the event meanwhile, the row becomes \<open>retrying\<close> again and the next delivery runs the
  handler a second time. The timing contract checked at start-up does not exclude it: it bounds
  the handler, not the handler followed by the capture of the dead letter.
\<close>

theorem late_failure_reopens_event:
  assumes "processing_of es (ev_event_id evt, consumer) = Some row" and "pw_status row = PROCESSED"
    and "n < rp_max_attempts policy \<or> \<not> is_captured outcome"
    and "handler evt app = (Inr events, app')"
  shows "\<exists>es'. fail_event policy outcome t consumer evt error n d es
      = (Nak (rp_retry_delay_seconds policy), es')
    \<and> \<not> settled_status es' evt consumer
    \<and> (\<exists>es''. process_event show_error stale policy handler No_Fault outcome' t0 t1 consumer d' evt (es', app)
        = (Ack, es'', app'))
    \<and> (2 \<le> rp_dead_letter_timeout_seconds policy \<longrightarrow>
        (\<exists>handler_timeout ack_wait.
          validate_event_timing_contract handler_timeout ack_wait stale = Inr ()
          \<and> stale \<le> handler_timeout + rp_dead_letter_timeout_seconds policy))"
proof -
  obtain settled es' where f: "fail_event policy outcome t consumer evt error n d es = (settled, es')"
    by (rule prod.exhaust)
  then have "settled = Nak (rp_retry_delay_seconds policy)"
    using assms(3) by (auto elim!: fail_event_cases)
  moreover from f obtain row' where row': "processing_of es' (ev_event_id evt, consumer) = Some row'"
      "pw_status row' = RETRYING"
    using assms(1,3) by (auto simp: ledger_defs store_simps elim!: fail_event_cases)
  moreover obtain r es0 where b: "ledger_begin stale t0 consumer evt es' = (r, es0)"
    by (rule prod.exhaust)
  then have "ep_status r = PROCESSING"
    using row' by (cases rule: ledger_begin_cases) (auto simp: claimable_def status_defs)
  moreover have "validate_event_timing_contract (stale - 2) (stale - 1) stale = Inr ()"
    by (simp add: validate_event_timing_contract_def)
  then have "2 \<le> rp_dead_letter_timeout_seconds policy \<longrightarrow> (\<exists>handler_timeout ack_wait.
      validate_event_timing_contract handler_timeout ack_wait stale = Inr ()
      \<and> stale \<le> handler_timeout + rp_dead_letter_timeout_seconds policy)"
    by (intro impI exI [of _ "stale - 2"] exI [of _ "stale - 1"]) simp
  ultimately show ?thesis
    using f b handle_transaction_commits [of handler evt "(es0, app)"] assms(4)
    by (auto simp: settled_status_def status_defs process_event_def)
qed

subsection \<open>The relay\<close>

lemma mark_sent_fields [simp]:
  "ob_event (mark_sent now ids row) = ob_event row" "ob_id (mark_sent now ids row) = ob_id row"
  "ob_sent_at (mark_sent now ids row)
    = (if ev_event_id (ob_event row) \<in> set ids then Some now else ob_sent_at row)"
  by (simp_all add: mark_sent_def)

text \<open>The outbox after some rows were sent: the rows, in place, with a mark on those.\<close>

definition sent_since :: "event_store \<Rightarrow> event_store \<Rightarrow> string set \<Rightarrow> bool" where
  "sent_since es es' ids \<longleftrightarrow>
    map ob_event (es_outbox es') = map ob_event (es_outbox es)
    \<and> list_all2 (\<lambda>row row'. ob_sent_at row' = ob_sent_at row
          \<or> ev_event_id (ob_event row) \<in> ids) (es_outbox es) (es_outbox es')"

lemma sent_since_refl [simp]: "sent_since es es {}"
  by (simp add: sent_since_def list_all2_same)

lemma sent_since_trans:
  "sent_since a b X \<Longrightarrow> sent_since b c Y \<Longrightarrow> sent_since a c (X \<union> Y)"
  by (auto simp: sent_since_def list_all2_conv_all_nth) (metis nth_map length_map)

lemma sent_since_mark: "sent_since es (mark_events_sent now ids es) (set ids)"
  by (auto simp: sent_since_def mark_events_sent_def list_all2_conv_all_nth)

lemma sent_since_dead:
  "sent_since es (mark_events_dead_lettered now [evt] c err es) {ev_event_id evt}"
  using sent_since_mark [of "record_dead_letter now evt c err 1 es" now "[ev_event_id evt]"]
  by (simp add: sent_since_def store_simps)

lemma dead_letters_dead:
  "es_dead_letters (mark_events_dead_lettered now [evt] c err es)
    = es_dead_letters (record_dead_letter now evt c err 1 es)"
  by (simp add: mark_events_sent_def)

lemma dead_letters_mono:
  "set (es_dead_letters es) \<subseteq> set (es_dead_letters (mark_events_dead_lettered now [evt] c err es))
   \<and> (\<exists>dl \<in> set (es_dead_letters (mark_events_dead_lettered now [evt] c err es)).
        dl_original_event_id dl = ev_event_id evt)"
  by (auto simp: mark_events_sent_def record_dead_letter_def insert_dead_letter_def)

definition rejected :: "(EventEnvelope \<Rightarrow> publish_result) \<Rightarrow> EventEnvelope \<Rightarrow> bool" where
  "rejected publish e \<longleftrightarrow> (case publish e of Published \<Rightarrow> False
     | Publish_Error name _ \<Rightarrow> name \<in> set NON_RETRYABLE_PUBLISH_ERRORS)"

text \<open>
  The loop splits the batch at the first exception that may be retried; before it, every event
  was published or recorded as a dead letter.
\<close>

definition relay_outcome ::
  "(EventEnvelope \<Rightarrow> publish_result) \<Rightarrow> (string \<times> string) option \<Rightarrow> EventEnvelope list \<Rightarrow> bool" where
  "relay_outcome publish raised rest \<longleftrightarrow>
    (case raised of
       None \<Rightarrow> rest = []
     | Some (name, message) \<Rightarrow> rest \<noteq> [] \<and> publish (hd rest) = Publish_Error name message
         \<and> name \<notin> set NON_RETRYABLE_PUBLISH_ERRORS)"

lemma relay_batch_spec:
  assumes "relay_batch publish now c rows published es = (raised, published', es')"
  shows "\<exists>seen rest. rows = seen @ rest
    \<and> published' = published @ map ev_event_id (filter (\<lambda>e. publish e = Published) seen)
    \<and> (\<forall>e \<in> set seen. publish e \<noteq> Published \<longrightarrow> rejected publish e
        \<and> (\<exists>dl \<in> set (es_dead_letters es'). dl_original_event_id dl = ev_event_id e))
    \<and> set (es_dead_letters es) \<subseteq> set (es_dead_letters es')
    \<and> sent_since es es' (ev_event_id ` set (filter (rejected publish) seen))
    \<and> relay_outcome publish raised rest"
  using assms
proof (induction rows arbitrary: published es)
  case Nil
  then show ?case by (intro exI [of _ "[]"]) (simp add: relay_outcome_def)
next
  case (Cons evt rows)
  show ?case
  proof (cases "publish evt")
    case Published
    with Cons.prems Cons.IH [of "published @ [ev_event_id evt]" es] obtain seen rest where
        "rows = seen @ rest" and r: "published' = published @ [ev_event_id evt]
           @ map ev_event_id (filter (\<lambda>e. publish e = Published) seen)"
        "\<forall>e \<in> set seen. publish e \<noteq> Published \<longrightarrow> rejected publish e
           \<and> (\<exists>dl \<in> set (es_dead_letters es'). dl_original_event_id dl = ev_event_id e)"
        "set (es_dead_letters es) \<subseteq> set (es_dead_letters es')"
        "sent_since es es' (ev_event_id ` set (filter (rejected publish) seen))"
        "relay_outcome publish raised rest"
      by auto
    with Published show ?thesis
      by (intro exI [of _ "evt # seen"] exI [of _ rest]) (auto simp: rejected_def)
  next
    case (Publish_Error name message)
    show ?thesis
    proof (cases "name \<in> set NON_RETRYABLE_PUBLISH_ERRORS")
      case True
      let ?es = "mark_events_dead_lettered now [evt] c message es"
      from Cons.prems Cons.IH [of published ?es] Publish_Error True obtain seen rest where
          rows: "rows = seen @ rest" and r: "published' = published
             @ map ev_event_id (filter (\<lambda>e. publish e = Published) seen)"
          "\<forall>e \<in> set seen. publish e \<noteq> Published \<longrightarrow> rejected publish e
             \<and> (\<exists>dl \<in> set (es_dead_letters es'). dl_original_event_id dl = ev_event_id e)"
          "set (es_dead_letters ?es) \<subseteq> set (es_dead_letters es')"
          "sent_since ?es es' (ev_event_id ` set (filter (rejected publish) seen))"
          "relay_outcome publish raised rest"
        by (auto simp del: mark_events_dead_lettered.simps)
      have rej: "rejected publish evt" using Publish_Error True by (simp add: rejected_def)
      have "sent_since es es' (insert (ev_event_id evt)
          (ev_event_id ` set (filter (rejected publish) seen)))"
        using sent_since_trans [OF sent_since_dead r(4)] by simp
      with rows r rej Publish_Error dead_letters_mono [of es now evt c message] show ?thesis
        by (intro exI [of _ "evt # seen"] exI [of _ rest]) (auto simp del: mark_events_dead_lettered.simps)
    next
      case False
      with Cons.prems Publish_Error show ?thesis
        by (intro exI [of _ "[]"] exI [of _ "evt # rows"]) (auto simp: relay_outcome_def)
    qed
  qed
qed

lemma rejected_not_published: "rejected publish e \<Longrightarrow> publish e \<noteq> Published"
  by (auto simp: rejected_def)

lemma run_once_cases:
  assumes "run_once arrange publish now app_now lease_id source batch es = (result, published, es')"
    and "\<And>xs. set (arrange xs) = set xs"
  obtains seen rest where
    "arrange (fst (unsent_events now app_now lease_id batch source es)) = seen @ rest"
    "published = map ev_event_id (filter (\<lambda>e. publish e = Published) seen)"
    "set seen \<subseteq> ob_event ` set (es_outbox es)"
    "\<And>e. e \<in> set seen \<Longrightarrow> publish e \<noteq> Published \<Longrightarrow>
       \<exists>dl \<in> set (es_dead_letters es'). dl_original_event_id dl = ev_event_id e"
    "sent_since es es' (ev_event_id ` set (filter (rejected publish) seen) \<union> set published)"
    "\<And>row. row \<in> set (es_outbox es') \<Longrightarrow> ev_event_id (ob_event row) \<in> set published \<Longrightarrow>
       ob_sent_at row = Some now"
    "case result of Inr n \<Rightarrow> rest = [] \<and> n = int (length published)
     | Inl (name, message) \<Rightarrow> rest \<noteq> [] \<and> publish (hd rest) = Publish_Error name message
         \<and> name \<notin> set NON_RETRYABLE_PUBLISH_ERRORS"
proof -
  obtain rows es1 where u: "unsent_events now app_now lease_id batch source es = (rows, es1)"
    by (rule prod.exhaust)
  have leased: "sent_since es es1 {}" "set rows \<subseteq> ob_event ` set (es_outbox es)"
    using u by (auto simp: unsent_events_def Let_def sent_since_def list_all2_conv_all_nth)
  obtain c raised es2 where b: "relay_batch publish now c (arrange rows) [] es1 = (raised, published, es2)"
      "es' = (if published \<noteq> [] then mark_events_sent now published es2 else es2)"
      "result = (case raised of None \<Rightarrow> Inr (int (length published)) | Some e \<Rightarrow> Inl e)"
    using assms(1) u by (auto simp: run_once_def Let_def split: prod.splits)
  from relay_batch_spec [OF b(1)] obtain seen rest where s: "arrange rows = seen @ rest"
      "published = map ev_event_id (filter (\<lambda>e. publish e = Published) seen)"
      "\<And>e. e \<in> set seen \<Longrightarrow> publish e \<noteq> Published \<Longrightarrow>
         \<exists>dl \<in> set (es_dead_letters es2). dl_original_event_id dl = ev_event_id e"
      "sent_since es1 es2 (ev_event_id ` set (filter (rejected publish) seen))"
      "relay_outcome publish raised rest"
    by auto
  show thesis
  proof (rule that [of seen rest])
    show "sent_since es es' (ev_event_id ` set (filter (rejected publish) seen) \<union> set published)"
      using sent_since_trans [OF sent_since_trans [OF leased(1) s(4)]
          sent_since_mark [of es2 now published]]
        sent_since_trans [OF leased(1) s(4)] b(2) by (cases "published = []") auto
    show "set seen \<subseteq> ob_event ` set (es_outbox es)"
      using s(1) leased(2) assms(2) [of rows] by auto
    show "case result of Inr n \<Rightarrow> rest = [] \<and> n = int (length published)
     | Inl (name, message) \<Rightarrow> rest \<noteq> [] \<and> publish (hd rest) = Publish_Error name message
         \<and> name \<notin> set NON_RETRYABLE_PUBLISH_ERRORS"
      using b(3) s(5) by (auto simp: relay_outcome_def split: option.splits)
    show "ob_sent_at row = Some now"
      if "row \<in> set (es_outbox es')" "ev_event_id (ob_event row) \<in> set published" for row
      using that b(2) by (auto simp: mark_events_sent_def split: if_splits)
  qed (use s(1-3) u b(2) in \<open>auto simp: mark_events_sent_def\<close>)
qed

text \<open>
  C4. The relay forgets nothing. A run of the relay leases rows and offers them, in some order, to
  the broker until one is refused with an error that may pass. Let \<open>seen\<close> be the events before
  that one. The ids of those the broker accepted are exactly the published ones, every outbox
  row of an accepted event is marked as sent, also when a later event failed, and every other
  event of \<open>seen\<close> has a dead letter. Without an exception all leased rows were seen and the result
  is the number of accepted events; with one, the first row that was not seen is the one the
  broker refused. The outbox keeps its events in their places, and a row is newly marked only if
  the broker accepted its event or the event has a dead letter.
\<close>

theorem relay_marks_only_published:
  assumes "run_once arrange publish now app_now lease_id source batch es = (result, published, es')"
    and "\<And>xs. set (arrange xs) = set xs"
  shows "(\<exists>seen rest. arrange (fst (unsent_events now app_now lease_id batch source es)) = seen @ rest
      \<and> published = map ev_event_id (filter (\<lambda>e. publish e = Published) seen)
      \<and> (\<forall>e \<in> set seen. if publish e = Published
           then (\<exists>row \<in> set (es_outbox es'). ob_event row = e)
             \<and> (\<forall>row \<in> set (es_outbox es'). ev_event_id (ob_event row) = ev_event_id e \<longrightarrow>
                  ob_sent_at row = Some now)
           else \<exists>dl \<in> set (es_dead_letters es'). dl_original_event_id dl = ev_event_id e)
      \<and> (case result of
           Inr n \<Rightarrow> rest = [] \<and> n = int (length published)
         | Inl (name, message) \<Rightarrow> rest \<noteq> [] \<and> publish (hd rest) = Publish_Error name message
             \<and> name \<notin> set NON_RETRYABLE_PUBLISH_ERRORS))
    \<and> map ob_event (es_outbox es') = map ob_event (es_outbox es)
    \<and> (\<forall>i < length (es_outbox es). ob_sent_at (es_outbox es' ! i) \<noteq> ob_sent_at (es_outbox es ! i) \<longrightarrow>
        ev_event_id (ob_event (es_outbox es ! i)) \<in> set published
        \<or> (\<exists>dl \<in> set (es_dead_letters es').
             dl_original_event_id dl = ev_event_id (ob_event (es_outbox es ! i))))"
  using assms
proof (cases rule: run_once_cases)
  case (1 seen rest)
  have events: "map ob_event (es_outbox es') = map ob_event (es_outbox es)"
    using 1(5) by (simp add: sent_since_def)
  have "\<exists>row \<in> set (es_outbox es'). ob_event row = e" if "e \<in> set seen" for e
  proof -
    have "e \<in> set (map ob_event (es_outbox es))" using that 1(3) by auto
    then show ?thesis unfolding events [symmetric] by auto
  qed
  then have seen: "\<forall>e \<in> set seen. if publish e = Published
       then (\<exists>row \<in> set (es_outbox es'). ob_event row = e)
         \<and> (\<forall>row \<in> set (es_outbox es'). ev_event_id (ob_event row) = ev_event_id e \<longrightarrow>
              ob_sent_at row = Some now)
       else \<exists>dl \<in> set (es_dead_letters es'). dl_original_event_id dl = ev_event_id e"
    using 1(2,4,6) by auto
  have "\<exists>dl \<in> set (es_dead_letters es'). dl_original_event_id dl = x"
    if "x \<in> ev_event_id ` set (filter (rejected publish) seen)" for x
    using that 1(4) by (auto dest!: rejected_not_published)
  with 1(5) have fresh: "\<forall>i < length (es_outbox es).
      ob_sent_at (es_outbox es' ! i) \<noteq> ob_sent_at (es_outbox es ! i) \<longrightarrow>
        ev_event_id (ob_event (es_outbox es ! i)) \<in> set published
        \<or> (\<exists>dl \<in> set (es_dead_letters es').
             dl_original_event_id dl = ev_event_id (ob_event (es_outbox es ! i)))"
    unfolding sent_since_def list_all2_conv_all_nth by blast
  show ?thesis
    by (intro conjI exI [of _ seen] exI [of _ rest]) (fact 1 seen events fresh)+
qed

end
