(* ===== verification/Event_Interleaving.thy ===== *)
theory Event_Interleaving
  imports Event_Worker
begin

text \<open>
  Several instances of a worker on one store. A processor is a sequence of transactions (claim,
  then the handler's transaction or the failure's) with time passing, other instances running
  and crashes happening between them; the broker may hand any event to any instance at any time,
  again and again. The step relation uses the transactions of \<open>process_event\<close> as they are; an
  instance may settle a failure whenever it works, since the handler's time limit, a cancellation
  or the database can end its transaction at any moment. The question is whether the effect of an
  event can be applied twice.
\<close>

subsection \<open>Instances and steps\<close>

datatype pc = Idle | Handling string EventEnvelope int utc

record 'a system =
  sy_now :: utc
  sy_store :: event_store
  sy_app :: 'a
  sy_pc :: "nat \<Rightarrow> pc"
  sy_log :: "processing_key list"

text \<open>A settlement is in time when the claim it belongs to is not stale yet.\<close>

definition in_time :: "int \<Rightarrow> utc \<Rightarrow> utc \<Rightarrow> bool" where
  "in_time stale_seconds now claimed_at \<longleftrightarrow> now \<le> claimed_at + stale_seconds * 1000000"

inductive system_step ::
  "bool \<Rightarrow> (exn \<Rightarrow> string) \<Rightarrow> int \<Rightarrow> EventRetryPolicy \<Rightarrow> 'a handler \<Rightarrow> 'a system \<Rightarrow> 'a system \<Rightarrow> bool"
  for timed :: bool and show_error :: "exn \<Rightarrow> string" and stale :: int
    and policy :: EventRetryPolicy and handler :: "'a handler"
where
  tick: "sy_now s \<le> t \<Longrightarrow>
    system_step timed show_error stale policy handler s (s\<lparr>sy_now := t\<rparr>)"
| claim: "sy_pc s w = Idle \<Longrightarrow> ledger_begin stale (sy_now s) consumer evt (sy_store s) = (r, es) \<Longrightarrow>
    system_step timed show_error stale policy handler s
      (s\<lparr>sy_store := es,
         sy_pc := (sy_pc s)(w := if ep_status r = PROCESSING
           then Handling consumer evt (ep_attempts r) (sy_now s) else Idle)\<rparr>)"
| commit: "sy_pc s w = Handling consumer evt n claimed_at \<Longrightarrow>
    timed \<longrightarrow> in_time stale (sy_now s) claimed_at \<Longrightarrow>
    handle_transaction handler fault (sy_now s) consumer evt d (sy_store s, sy_app s) = (Inr u, es, app) \<Longrightarrow>
    system_step timed show_error stale policy handler s
      (s\<lparr>sy_store := es, sy_app := app, sy_pc := (sy_pc s)(w := Idle),
         sy_log := sy_log s @ [(ev_event_id evt, consumer)]\<rparr>)"
| settle_failure: "sy_pc s w = Handling consumer evt n claimed_at \<Longrightarrow>
    timed \<longrightarrow> in_time stale (sy_now s) claimed_at \<Longrightarrow>
    fail_event policy out (sy_now s) consumer evt (show_error e) n d (sy_store s) = (settled, es) \<Longrightarrow>
    system_step timed show_error stale policy handler s
      (s\<lparr>sy_store := es, sy_pc := (sy_pc s)(w := Idle)\<rparr>)"
| crash: "system_step timed show_error stale policy handler s
    (s\<lparr>sy_pc := (sy_pc s)(w := Idle)\<rparr>)"

inductive reachable ::
  "bool \<Rightarrow> (exn \<Rightarrow> string) \<Rightarrow> int \<Rightarrow> EventRetryPolicy \<Rightarrow> 'a handler \<Rightarrow> 'a system \<Rightarrow> 'a system \<Rightarrow> bool"
  for timed :: bool and show_error :: "exn \<Rightarrow> string" and stale :: int
    and policy :: EventRetryPolicy and handler :: "'a handler" and start :: "'a system"
where
  reach_start: "reachable timed show_error stale policy handler start start"
| reach_step: "reachable timed show_error stale policy handler start s \<Longrightarrow>
    system_step timed show_error stale policy handler s s' \<Longrightarrow>
    reachable timed show_error stale policy handler start s'"

text \<open>No instance is working and nothing has been logged; the ledger may hold anything.\<close>

definition quiet_start :: "'a system \<Rightarrow> bool" where
  "quiet_start s \<longleftrightarrow> (\<forall>w. sy_pc s w = Idle) \<and> sy_log s = []"

subsection \<open>The invariant\<close>

text \<open>
  What is logged is processed and logged once. A claim that is not stale owns its row: the row
  is in progress since that claim, and every other instance working on it holds a stale claim.
\<close>

definition owns_row :: "int \<Rightarrow> 'a system \<Rightarrow> nat \<Rightarrow> processing_key \<Rightarrow> utc \<Rightarrow> bool" where
  "owns_row stale s w k claimed_at \<longleftrightarrow>
    (\<exists>row. processing_of (sy_store s) k = Some row \<and> pw_status row = PROCESSING
       \<and> pw_updated_at row = claimed_at)
    \<and> (\<forall>w' consumer evt n t'. sy_pc s w' = Handling consumer evt n t' \<longrightarrow>
        (ev_event_id evt, consumer) = k \<longrightarrow> w' \<noteq> w \<longrightarrow> \<not> in_time stale (sy_now s) t')"

definition ledger_invariant :: "int \<Rightarrow> 'a system \<Rightarrow> bool" where
  "ledger_invariant stale s \<longleftrightarrow>
    distinct (sy_log s)
    \<and> (\<forall>k \<in> set (sy_log s). \<exists>row. processing_of (sy_store s) k = Some row \<and> pw_status row = PROCESSED)
    \<and> (\<forall>w consumer evt n t. sy_pc s w = Handling consumer evt n t \<longrightarrow> in_time stale (sy_now s) t \<longrightarrow>
        owns_row stale s w (ev_event_id evt, consumer) t)"

lemma in_time_mono: "now \<le> now' \<Longrightarrow> in_time stale now' t \<Longrightarrow> in_time stale now t"
  by (simp add: in_time_def)

lemma claimable_not_owned:
  "claimable stale now row \<Longrightarrow> pw_status row = PROCESSING \<Longrightarrow> \<not> in_time stale now (pw_updated_at row)"
  by (auto simp: claimable_def in_time_def)

lemma invariant_tick:
  assumes "ledger_invariant stale s" and "sy_now s \<le> t"
  shows "ledger_invariant stale (s\<lparr>sy_now := t\<rparr>)"
  using assms in_time_mono [of "sy_now s" t stale]
  unfolding ledger_invariant_def owns_row_def by simp blast

lemma invariant_crash:
  assumes "ledger_invariant stale s"
  shows "ledger_invariant stale (s\<lparr>sy_pc := (sy_pc s)(w := Idle)\<rparr>)"
  using assms unfolding ledger_invariant_def owns_row_def by auto

text \<open>
  A transaction of the owner of a row that changes no other row keeps the invariant when the
  instance is idle afterwards.
\<close>

lemma invariant_settle:
  assumes inv: "ledger_invariant stale s"
    and pc: "sy_pc s w = Handling consumer evt n t" and time: "in_time stale (sy_now s) t"
    and others: "\<And>k. k \<noteq> (ev_event_id evt, consumer) \<Longrightarrow> processing_of es k = processing_of (sy_store s) k"
    and logged: "logged = sy_log s \<or> logged = sy_log s @ [(ev_event_id evt, consumer)]
      \<and> (\<exists>row. processing_of es (ev_event_id evt, consumer) = Some row \<and> pw_status row = PROCESSED)"
  shows "ledger_invariant stale
    (s\<lparr>sy_store := es, sy_app := app, sy_pc := (sy_pc s)(w := Idle), sy_log := logged\<rparr>)"
proof -
  let ?k = "(ev_event_id evt, consumer)"
  have own: "owns_row stale s w ?k t" using inv pc time by (auto simp: ledger_invariant_def)
  then have fresh: "?k \<notin> set (sy_log s)"
    using inv by (auto simp: ledger_invariant_def owns_row_def status_defs)
  have "distinct logged" using inv logged fresh by (auto simp: ledger_invariant_def)
  moreover have "\<exists>row. processing_of es k = Some row \<and> pw_status row = PROCESSED" if "k \<in> set logged" for k
    using that logged fresh others inv by (cases "k = ?k") (auto simp: ledger_invariant_def)
  moreover have "owns_row stale (s\<lparr>sy_store := es, sy_app := app, sy_pc := (sy_pc s)(w := Idle),
        sy_log := logged\<rparr>) w' (ev_event_id evt', consumer') t'"
    if p: "sy_pc s w' = Handling consumer' evt' n' t'" "w' \<noteq> w" "in_time stale (sy_now s) t'"
    for w' consumer' evt' n' t'
  proof -
    have "(ev_event_id evt', consumer') \<noteq> ?k" using own p by (auto simp: owns_row_def)
    moreover have "owns_row stale s w' (ev_event_id evt', consumer') t'"
      using inv p by (auto simp: ledger_invariant_def)
    ultimately show ?thesis using others by (auto simp: owns_row_def)
  qed
  ultimately show ?thesis by (auto simp: ledger_invariant_def)
qed

lemma invariant_claim:
  assumes inv: "ledger_invariant stale s" and pc: "sy_pc s w = Idle"
    and b: "ledger_begin stale (sy_now s) consumer evt (sy_store s) = (r, es)"
  shows "ledger_invariant stale (s\<lparr>sy_store := es, sy_pc := (sy_pc s)(w := if ep_status r = PROCESSING
           then Handling consumer evt (ep_attempts r) (sy_now s) else Idle)\<rparr>)"
  using b
proof (cases rule: ledger_begin_cases)
  case (refused row)
  then have "(sy_pc s)(w := Idle) = sy_pc s" using pc by auto
  then show ?thesis using inv refused by (simp add: ledger_invariant_def owns_row_def)
next
  case (claimed row)
  let ?k = "(ev_event_id evt, consumer)"
  have stale_owners: "\<not> in_time stale (sy_now s) t'"
    if p: "sy_pc s w' = Handling consumer' evt' n' t'" "(ev_event_id evt', consumer') = ?k"
    for w' consumer' evt' n' t'
  proof
    assume "in_time stale (sy_now s) t'"
    then obtain old where "processing_of (sy_store s) ?k = Some old" "pw_status old = PROCESSING"
        "pw_updated_at old = t'"
      using inv p unfolding ledger_invariant_def owns_row_def by metis
    then show False
      using claimed(2) claimable_not_owned \<open>in_time stale (sy_now s) t'\<close> by auto
  qed
  have fresh: "?k \<notin> set (sy_log s)"
    using inv claimed(2) by (auto simp: ledger_invariant_def claimable_def status_defs)
  let ?s = "s\<lparr>sy_store := es, sy_pc := (sy_pc s)(w := Handling consumer evt (ep_attempts r) (sy_now s))\<rparr>"
  have logged: "\<exists>row. processing_of es k = Some row \<and> pw_status row = PROCESSED"
    if "k \<in> set (sy_log s)" for k
    using that fresh claimed(7) inv by (metis ledger_invariant_def)
  have "owns_row stale ?s w' (ev_event_id evt', consumer') t'"
    if p: "sy_pc ?s w' = Handling consumer' evt' n' t'" "in_time stale (sy_now s) t'"
    for w' consumer' evt' n' t'
  proof (cases "w' = w")
    case True
    then show ?thesis
      using p(1) claimed(3-5) stale_owners unfolding owns_row_def by auto
  next
    case False
    then have p': "sy_pc s w' = Handling consumer' evt' n' t'" using p(1) by simp
    with stale_owners p(2) have "(ev_event_id evt', consumer') \<noteq> ?k" by blast
    moreover have "owns_row stale s w' (ev_event_id evt', consumer') t'"
      using inv p' p(2) unfolding ledger_invariant_def by blast
    ultimately show ?thesis using claimed(7) unfolding owns_row_def by auto
  qed
  then show ?thesis
    using inv logged claimed(1) unfolding ledger_invariant_def by simp
qed

lemma invariant_step:
  assumes "system_step True show_error stale policy handler s s'" and "ledger_invariant stale s"
  shows "ledger_invariant stale s'"
  using assms
proof (cases rule: system_step.cases)
  case (commit w consumer evt n claimed_at fault d u es app)
  from commit(4) obtain events where h:
      "es = ledger_finish (sy_now s) consumer evt d (stage_events events (sy_store s))"
    by (rule handle_transaction_Inr) simp
  have "owns_row stale s w (ev_event_id evt, consumer) claimed_at"
    using assms(2) commit by (auto simp: ledger_invariant_def)
  then have "\<exists>row. processing_of es (ev_event_id evt, consumer) = Some row \<and> pw_status row = PROCESSED"
    by (auto simp: h owns_row_def ledger_defs store_simps)
  then show ?thesis
    unfolding commit(1) using assms(2) commit(2,3)
    by (intro invariant_settle) (auto simp: h ledger_defs store_simps)
next
  case (settle_failure w consumer evt n claimed_at out e d settled es)
  from settle_failure(4) have "processing_of es k = processing_of (sy_store s) k"
    if "k \<noteq> (ev_event_id evt, consumer)" for k
    by (cases rule: fail_event_cases) (use that in \<open>auto simp: ledger_defs store_simps\<close>)
  then show ?thesis
    using invariant_settle [OF assms(2) settle_failure(2), of es "sy_log s" "sy_app s"]
      settle_failure(1,3) by simp
next
  case (claim w consumer evt r es)
  show ?thesis unfolding claim(1) using assms(2) claim(2,3) by (rule invariant_claim)
qed (use assms(2) in \<open>simp_all add: invariant_tick invariant_crash\<close>)

text \<open>
  C2. The effect of an event is applied at most once. Whatever instances run, crash and claim
  again, whatever the broker redelivers, as long as every settlement happens before its claim
  becomes stale, no consumer commits the handler's transaction of an event twice; and what it
  committed stays recorded as processed.
\<close>

theorem effect_at_most_once:
  assumes "reachable True show_error stale policy handler start s" and "quiet_start start"
  shows "distinct (sy_log s) \<and> (\<forall>k \<in> set (sy_log s).
    \<exists>row. processing_of (sy_store s) k = Some row \<and> pw_status row = PROCESSED)"
proof -
  have "ledger_invariant stale s"
    using assms(1)
  proof (induction rule: reachable.induct)
    case reach_start
    then show ?case using assms(2) by (simp add: ledger_invariant_def quiet_start_def)
  next
    case (reach_step s s')
    then show ?case using invariant_step by blast
  qed
  then show ?thesis by (simp add: ledger_invariant_def)
qed

subsection \<open>Runs of an instance\<close>

text \<open>
  A delivery handled without interruption is a run of the step relation: it starts and ends idle
  and has the store and the application tables that \<open>process_event\<close> computes.
\<close>

definition with_state :: "utc \<Rightarrow> event_store \<times> 'a \<Rightarrow> processing_key list \<Rightarrow> 'a system" where
  "with_state now st logged =
    \<lparr>sy_now = now, sy_store = fst st, sy_app = snd st, sy_pc = (\<lambda>_. Idle), sy_log = logged\<rparr>"

lemma reachable_trans:
  assumes "reachable timed show_error stale policy handler s t"
    and "reachable timed show_error stale policy handler t u"
  shows "reachable timed show_error stale policy handler s u"
  using assms(2,1) by (induction rule: reachable.induct) (auto intro: reachable.intros)

lemma reachable_one:
  "system_step timed show_error stale policy handler s t \<Longrightarrow>
    reachable timed show_error stale policy handler s t"
  by (rule reach_step [OF reach_start])

text \<open>
  C14. The step relation is the program: processing one delivered event, from claim to settlement
  within the time limit, is a run of the interleaving model, so what holds of all interleavings
  holds of \<open>process_event\<close>. The run logs the event exactly when the event was claimed, its handler
  returned and the database accepted the writes.
\<close>

theorem process_event_is_a_run:
  assumes "process_event show_error stale policy handler fault outcome t0 t1 consumer d evt st
      = (settled, st')"
    and "t0 \<le> t1" and "in_time stale t1 t0"
  shows "reachable True show_error stale policy handler (with_state t0 st logged)
    (with_state t1 st'
      (if ep_status (fst (ledger_begin stale t0 consumer evt (fst st))) = PROCESSING
          \<and> fault = No_Fault \<and> (\<exists>events app'. handler evt (snd st) = (Inr events, app'))
       then logged @ [(ev_event_id evt, consumer)] else logged))"
proof -
  obtain es app es' app' where st: "st = (es, app)" "st' = (es', app')" by (metis prod.exhaust)
  let ?R = "reachable True show_error stale policy handler (with_state t0 st logged)"
  let ?working = "\<lambda>r es0. \<lparr>sy_now = t1, sy_store = es0, sy_app = app,
    sy_pc = (\<lambda>_. Idle)(0 := Handling consumer evt (ep_attempts r) t0), sy_log = logged\<rparr>"
  have idle: "(\<lambda>_. Idle)(0 := Idle) = (\<lambda>_ :: nat. Idle)" by auto
  have claim_then_wait: "?R \<lparr>sy_now = t1, sy_store = es0, sy_app = app,
      sy_pc = (\<lambda>_. Idle)(0 := if ep_status r = PROCESSING
        then Handling consumer evt (ep_attempts r) t0 else Idle), sy_log = logged\<rparr>"
    if b: "ledger_begin stale t0 consumer evt es = (r, es0)" for r es0
  proof -
    let ?c = "\<lparr>sy_now = t0, sy_store = es0, sy_app = app,
      sy_pc = (\<lambda>_. Idle)(0 := if ep_status r = PROCESSING
        then Handling consumer evt (ep_attempts r) t0 else Idle), sy_log = logged\<rparr>"
    have "?R ?c"
      using reach_step [OF reach_start claim [of "with_state t0 st logged" 0 stale consumer evt r es0]]
        b by (simp add: with_state_def st cong: if_cong)
    from reach_step [OF this tick [where s = ?c and t = t1]] show ?thesis using assms(2) by simp
  qed
  from assms(1) [unfolded st] show ?thesis
  proof (cases rule: process_event_cases)
    case (skipped r row)
    then show ?thesis
      using claim_then_wait [OF skipped(1)] by (simp add: with_state_def st idle)
  next
    case (handled r es0 events)
    have "?R (?working r es0)" using claim_then_wait [OF handled(1)] handled(2) by simp
    from reach_step [OF this commit [where s = "?working r es0" and w = 0 and fault = No_Fault]]
    show ?thesis
      using handled assms(3) handle_transaction_commits [of handler evt "(es0, app)"]
      by (simp add: with_state_def st idle)
  next
    case (failed r es0 e)
    have "?R (?working r es0)" using claim_then_wait [OF failed(1)] failed(2) by simp
    from reach_step [OF this settle_failure [where s = "?working r es0" and w = 0]]
    show ?thesis
      using failed(1-5) assms(3) by (auto simp: with_state_def st idle commits_def)
  qed
qed

end
