(* ===== verification/Event_Example.thy ===== *)
theory Event_Example
  imports Event_Interleaving
begin

text \<open>
  A store with one event, a handler that counts its runs and one that always fails: the theorems
  on the event runtime at concrete inputs.
\<close>

definition demo_event :: "string \<Rightarrow> EventEnvelope" where
  "demo_event event_id =
    \<lparr>ev_event_id = event_id, ev_subject = ''git.changed'', ev_source = ''scm'',
     ev_correlation_id = PStr ''c1'', ev_causation_id = None,
     ev_created_at = ''2026-01-01T00:00:00+00:00'', ev_payload = [(''commit'', PStr ''abc'')],
     ev_schema_version = 1, ev_workspace_id = Some ''ws''\<rparr>"

definition empty_store :: event_store where
  "empty_store = \<lparr>es_events = [], es_processing = [], es_outbox = [], es_outbox_next = 1,
    es_dead_letters = [], es_dead_letter_next = 1\<rparr>"

definition demo_policy :: EventRetryPolicy where
  "demo_policy = \<lparr>rp_max_attempts = 3, rp_retry_delay_seconds = 2, rp_handler_timeout_seconds = 30,
    rp_dead_letter_timeout_seconds = 10\<rparr>"

definition counting :: "int handler" where
  "counting evt n = (Inr [demo_event ''e2''], n + 1)"

definition failing :: "int handler" where
  "failing evt n = (Inl (RuntimeError ''boom''), n + 1)"

definition show_demo :: "exn \<Rightarrow> string" where
  "show_demo e = (case e of RuntimeError m \<Rightarrow> m | _ \<Rightarrow> ''error'')"

definition demo_delivery :: "settlement \<times> event_store \<times> int" where
  "demo_delivery = process_event show_demo 90 demo_policy counting No_Fault Not_Recorded 0 1000000 ''w'' (Some 5)
    (demo_event ''e1'') (empty_store, 0)"

lemma demo_delivery_result: "fst demo_delivery = Ack \<and> snd (snd demo_delivery) = 1"
  by code_simp

theorem ack_only_when_settled_witness:
  "settled_status (fst (snd demo_delivery)) (demo_event ''e1'') ''w''"
proof -
  have "demo_delivery = (Ack, fst (snd demo_delivery), snd (snd demo_delivery))"
    using demo_delivery_result by (simp add: prod_eq_iff)
  then show ?thesis
    unfolding demo_delivery_def by (rule ack_only_when_settled)
qed

definition demo_refused :: "settlement \<times> event_store \<times> int" where
  "demo_refused = process_event show_demo 90 demo_policy counting (Finish_Fault (RuntimeError ''lock''))
    Not_Recorded 0 1000000 ''w'' (Some 5) (demo_event ''e1'') (empty_store, 0)"

theorem delivery_is_atomic_witness:
  "es_outbox (fst (snd demo_delivery)) = es_outbox (stage_events [demo_event ''e2''] empty_store)
    \<and> es_outbox (fst (snd demo_refused)) = [] \<and> snd (snd demo_refused) = 0"
proof -
  have c: "True \<longleftrightarrow> ep_status (fst (ledger_begin 90 0 ''w'' (demo_event ''e1'') empty_store)) = PROCESSING"
    by code_simp
  have "demo_delivery = (fst demo_delivery, fst (snd demo_delivery), snd (snd demo_delivery))"
    by (simp add: prod_eq_iff)
  from delivery_is_atomic [OF this [unfolded demo_delivery_def] c, folded demo_delivery_def]
  have 1: "es_outbox (fst (snd demo_delivery)) = es_outbox (stage_events [demo_event ''e2''] empty_store)"
    by (auto simp: counting_def)
  have "demo_refused = (fst demo_refused, fst (snd demo_refused), snd (snd demo_refused))"
    by (simp add: prod_eq_iff)
  from delivery_is_atomic [OF this [unfolded demo_refused_def] c, folded demo_refused_def]
  show ?thesis using 1 by (auto simp: empty_store_def)
qed

theorem redelivery_is_skipped_witness:
  "\<exists>es'. process_event show_demo 90 demo_policy counting No_Fault Not_Recorded 5000000 6000000 ''w'' None
      (demo_event ''e1'') (fst (snd demo_delivery), 7) = (Ack, es', 7)"
proof -
  have "settled_status (fst (snd demo_delivery)) (demo_event ''e1'') ''w''"
    unfolding settled_status_def
    by (rule exI [of _ "the (processing_of (fst (snd demo_delivery)) (''e1'', ''w''))"]) code_simp
  from redelivery_is_skipped [OF this, of show_demo 90 demo_policy counting No_Fault Not_Recorded 5000000 6000000
      None 7] show ?thesis by blast
qed

definition demo_claims :: "ledger_op list" where
  "demo_claims = [Begin_Op 5 (demo_event ''e1'') ''w'', Begin_Op 99000000 (demo_event ''e1'') ''v'',
    Fail_Op 7 (demo_event ''e1'') ''v'' ''boom'' RETRYING None, Begin_Op 90000000 (demo_event ''e1'') ''w'']"

theorem claims_exclude_each_other_witness:
  "ep_status (fst (begin_event_processing 90 60000000 (demo_event ''e1'') ''w'' (ledger_run 90 demo_claims
      (snd (begin_event_processing 90 0 (demo_event ''e1'') ''w'' empty_store))))) = CLAIM_BLOCKED
    \<and> ep_status (fst (begin_event_processing 90 900000000 (demo_event ''e1'') ''w'' (ledger_run 90 demo_claims
      (finish_event_processing 4 (demo_event ''e1'') ''w'' None
        (snd (begin_event_processing 90 0 (demo_event ''e1'') ''w'' empty_store)))))) = PROCESSED"
proof -
  let ?b = "begin_event_processing 90 0 (demo_event ''e1'') ''w'' empty_store"
  have b: "?b = (fst ?b, snd ?b)" "ep_status (fst ?b) = PROCESSING"
      "(''e1'', ''w'') = (ev_event_id (demo_event ''e1''), ''w'')"
    by (simp, code_simp, simp add: demo_event_def)
  have "\<forall>op \<in> set demo_claims. leaves_claim (''e1'', ''w'') (0 + 90 * 1000000) op
      \<and> no_failure (''e1'', ''w'') op"
    by (simp add: demo_claims_def leaves_claim_def no_failure_def demo_event_def)
  then show ?thesis
    using claims_exclude_each_other [OF b, of 4 None] by (simp add: case_prod_beta Let_def)
qed

theorem poison_event_is_dead_lettered_witness:
  "\<exists>es'. deliver_all show_demo 90 demo_policy failing ''w'' (demo_event ''e1'')
      ([(No_Fault, Not_Recorded, 0, 1), (No_Fault, Record_Only, 2, 3)]
        @ [(No_Fault, Captured (demo_event ''d1''), 4, 5)]) (empty_store, 0)
      = ([Nak 2, Nak 2, Ack], es', 0)
    \<and> (\<exists>dl \<in> set (es_dead_letters es'). dl_attempts dl = 3)"
proof -
  have h: "\<exists>e app''. failing (demo_event ''e1'') app' = (Inl e, app'')" for app' by (simp add: failing_def)
  have "processing_of empty_store (ev_event_id (demo_event ''e1''), ''w'') = None"
      "1 \<le> rp_max_attempts demo_policy"
      "int (length [(No_Fault, Not_Recorded, 0 :: utc, 1 :: utc), (No_Fault, Record_Only, 2, 3)]) = rp_max_attempts demo_policy - 1"
      "is_captured (Captured (demo_event ''d1''))"
    by (simp_all add: empty_store_def demo_policy_def is_captured_def)
  from poison_event_is_dead_lettered [where handler = failing, OF h this, of show_demo 90 No_Fault 4 5 0]
  show ?thesis by (auto simp: demo_policy_def eval_nat_numeral)
qed

theorem late_failure_reopens_event_witness:
  "\<exists>es'. fail_event demo_policy Not_Recorded 95000000 ''w'' (demo_event ''e1'') ''late'' 1 None
      (fst (snd demo_delivery)) = (Nak 2, es')
    \<and> \<not> settled_status es' (demo_event ''e1'') ''w''"
proof -
  let ?row = "the (processing_of (fst (snd demo_delivery)) (''e1'', ''w''))"
  have "processing_of (fst (snd demo_delivery)) (ev_event_id (demo_event ''e1''), ''w'') = Some ?row"
      "pw_status ?row = PROCESSED" "1 < rp_max_attempts demo_policy \<or> \<not> is_captured Not_Recorded"
      "counting (demo_event ''e1'') 1 = (Inr [demo_event ''e2''], 2)"
    by code_simp+
  from late_failure_reopens_event [where handler = counting, OF this, of 95000000 "''late''" None
      show_demo 90 Not_Recorded 96000000 97000000 None] show ?thesis
    by (auto simp: demo_policy_def)
qed

definition demo_outbox :: event_store where
  "demo_outbox = stage_events [demo_event ''e1'', demo_event ''e2'', demo_event ''e3''] empty_store"

definition demo_broker :: "EventEnvelope \<Rightarrow> publish_result" where
  "demo_broker evt =
    (if ev_event_id evt = ''e2'' then Publish_Error ''MaxPayloadError'' ''too large'' else Published)"

definition demo_relay :: "((string \<times> string) + int) \<times> string list \<times> event_store" where
  "demo_relay = run_once rev demo_broker 10 20 ''lease'' None 10 demo_outbox"

definition demo_busy_broker :: "EventEnvelope \<Rightarrow> publish_result" where
  "demo_busy_broker evt =
    (if ev_event_id evt = ''e2'' then Publish_Error ''TimeoutError'' ''busy'' else Published)"

definition demo_busy_relay :: "((string \<times> string) + int) \<times> string list \<times> event_store" where
  "demo_busy_relay = run_once rev demo_busy_broker 10 20 ''lease'' None 10 demo_outbox"

theorem relay_marks_only_published_witness:
  "(\<exists>seen rest. [demo_event ''e3'', demo_event ''e2'', demo_event ''e1''] = seen @ rest
      \<and> demo_event ''e3'' \<in> set seen \<and> demo_event ''e2'' \<in> set seen \<and> rest = []
      \<and> (\<exists>dl \<in> set (es_dead_letters (snd (snd demo_relay))). dl_original_event_id dl = ''e2''))
    \<and> fst demo_busy_relay = Inl (''TimeoutError'', ''busy'')
    \<and> (\<exists>row \<in> set (es_outbox (snd (snd demo_busy_relay))).
        ob_event row = demo_event ''e3'' \<and> ob_sent_at row = Some 10)"
proof -
  have e: "rev (fst (unsent_events 10 20 ''lease'' 10 None demo_outbox))
      = [demo_event ''e3'', demo_event ''e2'', demo_event ''e1'']" by code_simp
  have "demo_relay = (fst demo_relay, fst (snd demo_relay), snd (snd demo_relay))"
      "demo_busy_relay = (fst demo_busy_relay, fst (snd demo_busy_relay), snd (snd demo_busy_relay))"
    by (simp_all add: prod_eq_iff)
  note r = this [unfolded demo_relay_def demo_busy_relay_def]
  have f: "fst demo_relay = Inr 2" "fst demo_busy_relay = Inl (''TimeoutError'', ''busy'')"
      "fst (snd demo_busy_relay) = [''e3'']" by code_simp+
  have ids: "ev_event_id (demo_event x) = x" for x by (simp add: demo_event_def)
  from relay_marks_only_published [OF r(1), folded demo_relay_def, unfolded e f]
  obtain seen rest where s: "[demo_event ''e3'', demo_event ''e2'', demo_event ''e1''] = seen @ rest"
      "rest = []" "\<forall>e \<in> set seen. if demo_broker e = Published then True
         else \<exists>dl \<in> set (es_dead_letters (snd (snd demo_relay))). dl_original_event_id dl = ev_event_id e"
    by (auto split: if_splits)
  then have "\<exists>dl \<in> set (es_dead_letters (snd (snd demo_relay))). dl_original_event_id dl = ''e2''"
    by (force simp: demo_broker_def ids)
  moreover from relay_marks_only_published [OF r(2), folded demo_busy_relay_def, unfolded e f]
  have "\<exists>row \<in> set (es_outbox (snd (snd demo_busy_relay))).
      ob_event row = demo_event ''e3'' \<and> ob_sent_at row = Some 10"
    by (auto simp: Cons_eq_append_conv demo_busy_broker_def ids split: if_splits) metis
  ultimately show ?thesis using f s(1,2) by auto
qed

definition event_start :: "int system" where
  "event_start = with_state 0 (empty_store, 0) []"

theorem process_event_is_a_run_witness:
  "reachable True show_demo 90 demo_policy counting event_start
      (with_state 1000000 (snd demo_delivery) [(''e1'', ''w'')])"
proof -
  have d: "demo_delivery = (fst demo_delivery, snd demo_delivery)" by simp
  have "in_time 90 1000000 0" by (simp add: in_time_def)
  note run = process_event_is_a_run [OF d [unfolded demo_delivery_def] _ this, of "[]",
      folded demo_delivery_def]
  have "ep_status (fst (ledger_begin 90 0 ''w'' (demo_event ''e1'') empty_store)) = PROCESSING"
    by code_simp
  with run show ?thesis by (simp add: event_start_def demo_event_def counting_def)
qed

theorem effect_at_most_once_witness:
  "\<exists>s. reachable True show_demo 90 demo_policy counting event_start s
    \<and> sy_log s = [(''e1'', ''w'')] \<and> distinct (sy_log s)"
proof -
  let ?evt = "demo_event ''e1''"
  let ?b = "ledger_begin 90 0 ''w'' ?evt empty_store"
  let ?s1 = "event_start\<lparr>sy_store := snd ?b,
    sy_pc := (sy_pc event_start)(0 := Handling ''w'' ?evt (ep_attempts (fst ?b)) 0)\<rparr>"
  have b: "?b = (fst ?b, snd ?b)" "ep_status (fst ?b) = PROCESSING" by (simp, code_simp)
  have "reachable True show_demo 90 demo_policy counting event_start ?s1"
    using reach_step [OF reach_start claim [of event_start 0 90 "''w''" ?evt "fst ?b" "snd ?b"]] b(2)
    by (simp add: event_start_def with_state_def cong: if_cong)
  moreover obtain es app where h: "handle_transaction counting No_Fault (sy_now ?s1) ''w'' ?evt None
      (sy_store ?s1, sy_app ?s1) = (Inr (), es, app)"
    by (simp add: handle_transaction_commits counting_def)
  ultimately have r: "reachable True show_demo 90 demo_policy counting event_start
      (?s1\<lparr>sy_store := es, sy_app := app, sy_pc := (sy_pc ?s1)(0 := Idle),
        sy_log := sy_log ?s1 @ [(ev_event_id ?evt, ''w'')]\<rparr>)"
    by (intro reach_step [OF _ commit [where claimed_at = 0, OF _ _ h]]) (simp_all add: in_time_def event_start_def with_state_def)
  have "quiet_start event_start" by (simp add: quiet_start_def event_start_def with_state_def)
  from effect_at_most_once [OF r this] show ?thesis
    using r by (intro exI) (auto simp: event_start_def with_state_def demo_event_def)
qed

end
