(* ===== verification/Event_Bus.thy ===== *)
theory Event_Bus
  imports Event_Store
begin

text \<open>
  The in-process event bus, \<open>src/src/packages/events/in_memory.py\<close>: durable subscriptions with
  explicit acknowledgement, redelivery with a delay, and the subject patterns of the broker it
  stands for. A delayed redelivery is a task that is created, starts, and puts the event back;
  the event loop may run other code between any two of these steps, so each is an operation of
  its own. A fetch that finds nothing and may wait is \<open>Blocked\<close>, and goes on with \<open>fetch_ready\<close>
  when an event arrives.
\<close>

subsection \<open>Subjects\<close>

fun tokens_match :: "string list \<Rightarrow> string list \<Rightarrow> bool" where
  "tokens_match [] subject = (subject = [])"
| "tokens_match (token # pattern) subject =
    (if token = ''>'' then pattern = [] \<and> subject \<noteq> []
     else
       (case subject of
          [] \<Rightarrow> False
        | s # rest \<Rightarrow> if token \<noteq> ''*'' \<and> token \<noteq> s then False else tokens_match pattern rest))"

definition subject_matches :: "string \<Rightarrow> string \<Rightarrow> bool" where
  "subject_matches pattern subject =
    tokens_match (py_split (CHR ''.'') pattern) (py_split (CHR ''.'') subject)"

subsection \<open>A subscription\<close>

record StoredEvent =
  se_subject :: string
  se_data :: string

record QueuedEvent =
  qe_stored :: StoredEvent
  qe_redelivery :: bool

text \<open>A delayed redelivery and whether its task has started to run.\<close>

record DelayedTask =
  dt_started :: bool
  dt_queued :: QueuedEvent

record Subscription =
  su_subject :: string
  su_durable :: string
  su_queue :: "QueuedEvent list"
  su_in_flight :: "(int \<times> QueuedEvent) list"
  su_next_delivery_id :: int
  su_redelivered :: int
  su_scheduled :: int
  su_delayed :: "DelayedTask list"
  su_closed :: bool

record EventMessage =
  ms_data :: string
  ms_delivery_id :: int
  ms_settled :: bool

definition new_subscription :: "string \<Rightarrow> string \<Rightarrow> Subscription" where
  "new_subscription subject durable =
    \<lparr>su_subject = subject, su_durable = durable, su_queue = [], su_in_flight = [],
     su_next_delivery_id = 1, su_redelivered = 0, su_scheduled = 0, su_delayed = [],
     su_closed = False\<rparr>"

definition enqueue :: "StoredEvent \<Rightarrow> Subscription \<Rightarrow> Subscription" where
  "enqueue stored s =
    (if su_closed s then s
     else s\<lparr>su_queue := su_queue s @ [\<lparr>qe_stored = stored, qe_redelivery = False\<rparr>]\<rparr>)"

definition deliver :: "QueuedEvent \<Rightarrow> Subscription \<Rightarrow> EventMessage \<times> Subscription" where
  "deliver queued s =
    (let delivery_id = su_next_delivery_id s
     in (\<lparr>ms_data = se_data (qe_stored queued), ms_delivery_id = delivery_id, ms_settled = False\<rparr>,
         s\<lparr>su_next_delivery_id := delivery_id + 1,
           su_in_flight := dict_set (su_in_flight s) delivery_id queued,
           su_redelivered := su_redelivered s + (if qe_redelivery queued then 1 else 0)\<rparr>))"

fun deliver_each :: "QueuedEvent list \<Rightarrow> Subscription \<Rightarrow> EventMessage list \<times> Subscription" where
  "deliver_each [] s = ([], s)"
| "deliver_each (queued # rest) s =
    (let (message, s) = deliver queued s; (messages, s) = deliver_each rest s
     in (message # messages, s))"

text \<open>With an event at hand: one batch is taken from the front of the queue and delivered.\<close>

definition fetch_ready :: "int \<Rightarrow> Subscription \<Rightarrow> EventMessage list \<times> Subscription" where
  "fetch_ready batch s =
    deliver_each (take (nat batch) (su_queue s)) (s\<lparr>su_queue := drop (nat batch) (su_queue s)\<rparr>)"

datatype fetch_outcome = Fetched "EventMessage list" | Blocked

definition fetch :: "int \<Rightarrow> fl option \<Rightarrow> Subscription \<Rightarrow> (fetch_outcome \<times> Subscription) res" where
  "fetch batch timeout s =
    (if su_closed s then Inl (RuntimeError ''in-memory subscription is closed'')
     else if batch < 1 then Inl (ValueError ''fetch batch must be positive'')
     else if su_queue s \<noteq> []
     then Inr (let (messages, s') = fetch_ready batch s in (Fetched messages, s'))
     else
       (case timeout of
          None \<Rightarrow> Inr (Blocked, s)
        | Some t \<Rightarrow> if fl_le t (Fin 0) then Inl TimeoutError else Inr (Blocked, s)))"

definition sub_ack :: "int \<Rightarrow> Subscription \<Rightarrow> Subscription" where
  "sub_ack delivery_id s = s\<lparr>su_in_flight := dict_pop (su_in_flight s) delivery_id\<rparr>"

definition sub_nak :: "int \<Rightarrow> int \<Rightarrow> Subscription \<Rightarrow> Subscription" where
  "sub_nak delivery_id delay s =
    (case dict_get (su_in_flight s) delivery_id of
       None \<Rightarrow> s
     | Some queued \<Rightarrow>
         let s = s\<lparr>su_in_flight := dict_pop (su_in_flight s) delivery_id\<rparr>;
             redelivery = \<lparr>qe_stored = qe_stored queued, qe_redelivery = True\<rparr>
         in if su_closed s then s
            else if delay = 0 then s\<lparr>su_queue := su_queue s @ [redelivery]\<rparr>
            else s\<lparr>su_scheduled := su_scheduled s + 1,
                   su_delayed := su_delayed s @ [\<lparr>dt_started = False, dt_queued = redelivery\<rparr>]\<rparr>)"

definition remove_nth :: "nat \<Rightarrow> 'a list \<Rightarrow> 'a list" where
  "remove_nth i xs = take i xs @ drop (Suc i) xs"

text \<open>The steps of a delayed task: it starts to sleep, and later wakes up.\<close>

definition task_start :: "nat \<Rightarrow> Subscription \<Rightarrow> Subscription" where
  "task_start i s =
    (if i < length (su_delayed s)
     then s\<lparr>su_delayed := (su_delayed s)[i := (su_delayed s ! i)\<lparr>dt_started := True\<rparr>]\<rparr> else s)"

definition task_wake :: "nat \<Rightarrow> Subscription \<Rightarrow> Subscription" where
  "task_wake i s =
    (if i < length (su_delayed s) \<and> dt_started (su_delayed s ! i)
     then s\<lparr>su_queue := (if su_closed s then su_queue s
                         else su_queue s @ [dt_queued (su_delayed s ! i)]),
            su_delayed := remove_nth i (su_delayed s),
            su_scheduled := su_scheduled s - 1\<rparr>
     else s)"

record EventConsumerMetrics =
  cm_stream :: string
  cm_subject :: string
  cm_durable :: string
  cm_pending :: int
  cm_ack_pending :: int
  cm_redelivered :: int

definition STREAM_NAME :: string where "STREAM_NAME = ''SERVICE_EVENTS''"

definition sub_metrics :: "Subscription \<Rightarrow> EventConsumerMetrics" where
  "sub_metrics s =
    \<lparr>cm_stream = STREAM_NAME, cm_subject = su_subject s, cm_durable = su_durable s,
     cm_pending = int (length (su_queue s)) + su_scheduled s,
     cm_ack_pending = int (length (su_in_flight s)), cm_redelivered = su_redelivered s\<rparr>"

text \<open>
  Cancelling a task that sleeps runs its \<open>finally\<close> clause; a task that has not started is
  cancelled before its body is entered, so the clause does not run.
\<close>

definition sub_close :: "Subscription \<Rightarrow> Subscription" where
  "sub_close s =
    s\<lparr>su_closed := True,
      su_scheduled := su_scheduled s - int (length (filter dt_started (su_delayed s))),
      su_delayed := []\<rparr>"

subsection \<open>Messages\<close>

definition message_ack :: "EventMessage \<Rightarrow> Subscription \<Rightarrow> EventMessage \<times> Subscription" where
  "message_ack m s =
    (if ms_settled m then (m, s)
     else (m\<lparr>ms_settled := True\<rparr>, sub_ack (ms_delivery_id m) s))"

definition message_nak :: "int \<Rightarrow> EventMessage \<Rightarrow> Subscription \<Rightarrow> (EventMessage \<times> Subscription) res" where
  "message_nak delay m s =
    (if delay < 0 then Inl (ValueError ''nak delay must be non-negative'')
     else if ms_settled m then Inr (m, s)
     else Inr (m\<lparr>ms_settled := True\<rparr>, sub_nak (ms_delivery_id m) delay s))"

subsection \<open>The bus\<close>

type_synonym consumer_key = "string \<times> string"

record EventBus =
  eb_connected :: bool
  eb_closed :: bool
  eb_events :: "StoredEvent list"
  eb_subscriptions :: "(consumer_key \<times> Subscription) list"

definition new_bus :: EventBus where
  "new_bus = \<lparr>eb_connected = False, eb_closed = False, eb_events = [], eb_subscriptions = []\<rparr>"

definition require_connected :: "EventBus \<Rightarrow> unit res" where
  "require_connected b =
    (if eb_connected b then Inr () else Inl (RuntimeError ''in-memory event bus is not connected''))"

definition bus_connect :: "EventBus \<Rightarrow> EventBus res" where
  "bus_connect b =
    (if eb_closed b then Inl (RuntimeError ''in-memory event bus is closed'')
     else Inr (b\<lparr>eb_connected := True\<rparr>))"

text \<open>
  The bytes that \<open>json.dumps(evt.to_dict())\<close> gives are an argument: the bus stores them and hands
  them back, and looks at nothing in them.
\<close>

definition publish_envelope ::
  "(EventEnvelope \<Rightarrow> string) \<Rightarrow> EventEnvelope \<Rightarrow> EventBus \<Rightarrow> (EventEnvelope \<times> EventBus) res" where
  "publish_envelope dumps evt b =
    rmap (\<lambda>_.
      let stored = \<lparr>se_subject = ev_subject evt, se_data = dumps evt\<rparr>
      in (evt, b\<lparr>eb_events := eb_events b @ [stored],
           eb_subscriptions := map (\<lambda>(key, s).
             (key, if subject_matches (su_subject s) (ev_subject evt) then enqueue stored s else s))
             (eb_subscriptions b)\<rparr>))
      (require_connected b)"

definition emit ::
  "(EventEnvelope \<Rightarrow> string) \<Rightarrow> string \<Rightarrow> string \<Rightarrow> string option \<Rightarrow> string \<Rightarrow> string \<Rightarrow> pdict \<Rightarrow> py
    \<Rightarrow> string option \<Rightarrow> EventBus \<Rightarrow> (EventEnvelope \<times> EventBus) res" where
  "emit dumps event_id now_iso current_workspace subject source payload correlation_id causation_id =
    publish_envelope dumps
      (event event_id now_iso current_workspace subject source payload correlation_id causation_id None)"

fun replay :: "string \<Rightarrow> StoredEvent list \<Rightarrow> Subscription \<Rightarrow> Subscription" where
  "replay subject [] s = s"
| "replay subject (stored # rest) s =
    replay subject rest
      (if subject_matches subject (se_subject stored) then enqueue stored s else s)"

text \<open>The subscription that is returned is the one under its key in the bus.\<close>

definition subscribe :: "string \<Rightarrow> string \<Rightarrow> EventBus \<Rightarrow> EventBus res" where
  "subscribe subject durable b =
    rmap (\<lambda>_.
      case dict_get (eb_subscriptions b) (subject, durable) of
        Some s \<Rightarrow> b
      | None \<Rightarrow> b\<lparr>eb_subscriptions := dict_set (eb_subscriptions b) (subject, durable)
                    (replay subject (eb_events b) (new_subscription subject durable))\<rparr>)
      (require_connected b)"

definition consumer_metrics :: "string \<Rightarrow> string \<Rightarrow> EventBus \<Rightarrow> EventConsumerMetrics res" where
  "consumer_metrics subject durable b =
    rbind (require_connected b) (\<lambda>_.
      case dict_get (eb_subscriptions b) (subject, durable) of
        None \<Rightarrow> Inl (LookupError
          (''unknown in-memory consumer: '' @ durable @ '' ('' @ subject @ '')''))
      | Some s \<Rightarrow> Inr (sub_metrics s))"

definition bus_close :: "EventBus \<Rightarrow> EventBus" where
  "bus_close b =
    (if eb_closed b then b
     else b\<lparr>eb_connected := False, eb_closed := True,
            eb_subscriptions := map (\<lambda>(key, s). (key, sub_close s)) (eb_subscriptions b)\<rparr>)"

subsection \<open>Subject patterns\<close>

definition token_ok :: "string \<Rightarrow> string \<Rightarrow> bool" where
  "token_ok p t \<longleftrightarrow> p = ''*'' \<or> p = t"

lemma tokens_match_exact:
  "''>'' \<notin> set ps \<Longrightarrow> tokens_match ps ts \<longleftrightarrow> list_all2 token_ok ps ts"
  by (induction ps ts rule: tokens_match.induct) (auto simp: token_ok_def list_all2_Cons1 split: list.splits)

lemma tokens_match_tail:
  "''>'' \<notin> set ps \<Longrightarrow> tokens_match (ps @ [''>'']) ts
    \<longleftrightarrow> length ps < length ts \<and> list_all2 token_ok ps (take (length ps) ts)"
proof (induction ps arbitrary: ts)
  case (Cons p ps)
  then show ?case by (cases ts) (auto simp: token_ok_def)
qed auto

lemma tokens_match_inner:
  "qs \<noteq> [] \<Longrightarrow> ''>'' \<notin> set ps \<Longrightarrow> \<not> tokens_match (ps @ ''>'' # qs) ts"
  by (induction ps arbitrary: ts) (auto split: list.splits)

text \<open>
  C20. Subject matching is the broker's: a pattern without the tail wildcard matches a subject of
  the same number of tokens, token by token, \<open>*\<close> standing for any one token; a pattern that ends
  in the tail wildcard matches the subjects with at least one more token than the rest of it; a
  tail wildcard anywhere else matches nothing.
\<close>

theorem subject_matching_is_the_brokers:
  "subject_matches pattern subject \<longleftrightarrow>
    (let ps = py_split (CHR ''.'') pattern; ts = py_split (CHR ''.'') subject
     in ''>'' \<notin> set ps \<and> list_all2 token_ok ps ts
        \<or> last ps = ''>'' \<and> ''>'' \<notin> set (butlast ps)
          \<and> length ps \<le> length ts
          \<and> list_all2 token_ok (butlast ps) (take (length ps - 1) ts))"
proof -
  let ?ps = "py_split (CHR ''.'') pattern" and ?ts = "py_split (CHR ''.'') subject"
  consider (exact) "''>'' \<notin> set ?ps"
    | (tail) "last ?ps = ''>''" "''>'' \<notin> set (butlast ?ps)"
    | (inner) "''>'' \<in> set (butlast ?ps)"
    by (metis append_butlast_last_id in_set_conv_decomp py_split_ne set_ConsD rotate1.simps(2) set_rotate1)
  then show ?thesis
  proof cases
    case exact
    then have "last ?ps \<noteq> ''>''" by (metis last_in_set py_split_ne)
    with exact show ?thesis by (simp add: subject_matches_def tokens_match_exact Let_def)
  next
    case tail
    then have "?ps = butlast ?ps @ [''>'']" by (metis append_butlast_last_id py_split_ne)
    then have "subject_matches pattern subject = tokens_match (butlast ?ps @ [''>'']) ?ts"
      by (simp add: subject_matches_def)
    moreover have "''>'' \<in> set ?ps" using tail(1) by (metis last_in_set py_split_ne)
    moreover have "length (butlast ?ps) < length ?ts \<longleftrightarrow> length ?ps \<le> length ?ts"
      using \<open>?ps = butlast ?ps @ [''>'']\<close> by (metis Suc_le_eq length_append_singleton)
    ultimately show ?thesis using tail by (simp add: tokens_match_tail Let_def)
  next
    case inner
    then obtain xs ys where s: "butlast ?ps = xs @ ''>'' # ys" "''>'' \<notin> set xs"
      by (meson split_list_first)
    then have "?ps = xs @ ''>'' # (ys @ [last ?ps])" by (metis append.assoc append_Cons append_butlast_last_id py_split_ne)
    then have "\<not> subject_matches pattern subject"
      using tokens_match_inner [OF _ s(2)] by (metis snoc_eq_iff_butlast subject_matches_def)
    moreover have "''>'' \<in> set ?ps" using inner by (rule in_set_butlastD)
    ultimately show ?thesis using inner by (simp add: Let_def)
  qed
qed

subsection \<open>Buffers that lose nothing\<close>

text \<open>
  The contract the bus relies on: putting an event into a buffer adds it, and every change of the
  buffer accounts for the events that it lets go.
\<close>

locale accounted_buffer =
  fixes put :: "'e \<Rightarrow> 's \<Rightarrow> 's"
    and change :: "'s \<Rightarrow> 'e multiset \<Rightarrow> 's \<Rightarrow> bool"
    and contents :: "'s \<Rightarrow> 'e multiset"
    and wf :: "'s \<Rightarrow> bool"
  assumes put_wf: "wf s \<Longrightarrow> wf (put e s)"
    and put_contents: "wf s \<Longrightarrow> contents (put e s) = add_mset e (contents s)"
    and change_wf: "wf s \<Longrightarrow> change s gone s' \<Longrightarrow> wf s'"
    and change_contents: "wf s \<Longrightarrow> change s gone s' \<Longrightarrow> contents s' + gone = contents s"
begin

lemma put_all:
  "wf s \<Longrightarrow> wf (fold put es s) \<and> contents (fold put es s) = contents s + mset es"
  by (induction es arbitrary: s) (simp_all add: put_wf put_contents)

text \<open>A buffer accounts for a history of events, given what it has let go so far.\<close>

definition accounts_for :: "'e list \<Rightarrow> 'e multiset \<Rightarrow> 's \<Rightarrow> bool" where
  "accounts_for history gone s \<longleftrightarrow> wf s \<and> contents s + gone = mset history"

lemma accounts_put:
  "accounts_for history gone s \<Longrightarrow> accounts_for (history @ [e]) gone (put e s)"
  by (auto simp: accounts_for_def put_wf put_contents)

lemma accounts_change:
  assumes "accounts_for history gone s" and "change s acked s'"
  shows "accounts_for history (gone + acked) s'"
proof -
  have "wf s" and h: "contents s + gone = mset history" using assms(1) by (auto simp: accounts_for_def)
  then have "contents s' + acked = contents s" "wf s'"
    using change_contents change_wf assms(2) by blast+
  with h show ?thesis by (simp add: accounts_for_def ac_simps flip: h)
qed

lemma accounts_fresh:
  "wf s \<Longrightarrow> contents s = {#} \<Longrightarrow> accounts_for history {#} (fold put history s)"
  using put_all [of s history] by (simp add: accounts_for_def)

end

text \<open>The events a subscription still has to see acknowledged: queued, in flight or delayed.\<close>

definition outstanding :: "Subscription \<Rightarrow> StoredEvent multiset" where
  "outstanding s = mset (map qe_stored (su_queue s))
    + mset (map (qe_stored \<circ> snd) (su_in_flight s))
    + mset (map (qe_stored \<circ> dt_queued) (su_delayed s))"

definition in_flight_event :: "Subscription \<Rightarrow> int \<Rightarrow> StoredEvent multiset" where
  "in_flight_event s delivery_id =
    (case dict_get (su_in_flight s) delivery_id of
       None \<Rightarrow> {#} | Some queued \<Rightarrow> {#qe_stored queued#})"

text \<open>
  What can happen to a subscription of an open bus, in any order: a fetch, a waiting fetch that
  goes on, an acknowledgement, a negative one, and the steps of a delayed task. The middle
  argument is what is acknowledged.
\<close>

inductive sub_change :: "Subscription \<Rightarrow> StoredEvent multiset \<Rightarrow> Subscription \<Rightarrow> bool" where
  fetches: "fetch batch timeout s = Inr (outcome, s') \<Longrightarrow> sub_change s {#} s'"
| resumes: "su_queue s \<noteq> [] \<Longrightarrow> fetch_ready batch s = (messages, s') \<Longrightarrow> sub_change s {#} s'"
| acks: "message_ack m s = (m', s') \<Longrightarrow>
    sub_change s (if ms_settled m then {#} else in_flight_event s (ms_delivery_id m)) s'"
| naks: "message_nak delay m s = Inr (m', s') \<Longrightarrow> sub_change s {#} s'"
| starts: "sub_change s {#} (task_start i s)"
| wakes: "sub_change s {#} (task_wake i s)"

definition sub_ok :: "Subscription \<Rightarrow> bool" where
  "sub_ok s \<longleftrightarrow> \<not> su_closed s \<and> dict_ok (su_in_flight s)
    \<and> (\<forall>i \<in> set (map fst (su_in_flight s)). i < su_next_delivery_id s)
    \<and> su_scheduled s = int (length (su_delayed s))"

lemma mset_dict_pop:
  "dict_ok d \<Longrightarrow> dict_get d k = Some v \<Longrightarrow>
    add_mset (f v) (mset (map (f \<circ> snd) (dict_pop d k))) = mset (map (f \<circ> snd) d)"
proof (induction d)
  case (Cons kv d)
  show ?case
  proof (cases "fst kv = k")
    case True
    then have "dict_pop (kv # d) k = d"
      using Cons.prems(1) by (cases kv) (auto simp: dict_pop_def delete_id)
    with True Cons.prems show ?thesis by (cases kv) auto
  next
    case False
    then have "dict_pop (kv # d) k = kv # dict_pop d k"
      by (cases kv) (simp add: dict_pop_def)
    with False Cons show ?thesis by (cases kv) auto
  qed
qed simp

lemma dict_pop_absent: "dict_get d k = None \<Longrightarrow> dict_pop d k = d"
  by (simp add: dict_pop_def delete_id map_of_eq_None_iff)

lemma set_dict_pop: "set (dict_pop d k) \<subseteq> set d"
  by (induction d) (auto simp: dict_pop_def)

lemma mset_remove_nth: "i < length xs \<Longrightarrow> add_mset (xs ! i) (mset (remove_nth i xs)) = mset xs"
  by (metis id_take_nth_drop mset_append mset.simps(2) remove_nth_def union_mset_add_mset_right)

lemma length_remove_nth: "i < length xs \<Longrightarrow> length (remove_nth i xs) = length xs - 1"
  by (simp add: remove_nth_def)

subsection \<open>Every operation accounts for its events\<close>

lemma deliver_accounts:
  assumes "sub_ok s"
  shows "sub_ok (snd (deliver q s))"
    "outstanding (snd (deliver q s)) = add_mset (qe_stored q) (outstanding s)"
proof -
  have n: "su_next_delivery_id s \<notin> set (map fst (su_in_flight s))"
    using assms by (auto simp: sub_ok_def)
  show "sub_ok (snd (deliver q s))"
    using assms n by (auto simp: deliver_def Let_def sub_ok_def dict_set_new [OF n] less_Suc_eq)
  show "outstanding (snd (deliver q s)) = add_mset (qe_stored q) (outstanding s)"
    by (simp add: deliver_def Let_def outstanding_def dict_set_new [OF n])
qed

lemma deliver_each_accounts:
  "sub_ok s \<Longrightarrow> deliver_each qs s = (messages, s') \<Longrightarrow>
    sub_ok s' \<and> outstanding s' = mset (map qe_stored qs) + outstanding s"
proof (induction qs arbitrary: s messages)
  case (Cons q qs)
  obtain m s1 where d: "deliver q s = (m, s1)" by (rule prod.exhaust)
  obtain ms where r: "deliver_each qs s1 = (ms, s')"
    using Cons.prems(2) by (auto simp: d Let_def split: prod.splits)
  have "sub_ok s1" "outstanding s1 = add_mset (qe_stored q) (outstanding s)"
    using deliver_accounts [OF Cons.prems(1), of q] d by simp_all
  with Cons.IH [OF _ r] show ?case by simp
qed simp

lemma fetch_ready_accounts:
  assumes "sub_ok s" and "fetch_ready batch s = (messages, s')"
  shows "sub_ok s' \<and> outstanding s' = outstanding s"
proof -
  let ?s = "s\<lparr>su_queue := drop (nat batch) (su_queue s)\<rparr>"
  have "sub_ok ?s" using assms(1) by (simp add: sub_ok_def)
  moreover have "mset (map qe_stored (su_queue s))
      = mset (map qe_stored (take (nat batch) (su_queue s)))
        + mset (map qe_stored (drop (nat batch) (su_queue s)))"
    by (metis append_take_drop_id map_append mset_append)
  ultimately show ?thesis
    using deliver_each_accounts [of ?s] assms(2) by (auto simp: fetch_ready_def outstanding_def)
qed

lemma ack_accounts:
  assumes "sub_ok s"
  shows "sub_ok (sub_ack i s)" "outstanding (sub_ack i s) + in_flight_event s i = outstanding s"
proof -
  show "sub_ok (sub_ack i s)"
    using assms set_dict_pop [of "su_in_flight s" i] by (auto simp: sub_ack_def sub_ok_def)
  show "outstanding (sub_ack i s) + in_flight_event s i = outstanding s"
  proof (cases "dict_get (su_in_flight s) i")
    case None
    then show ?thesis by (simp add: sub_ack_def in_flight_event_def dict_pop_absent)
  next
    case (Some q)
    with mset_dict_pop [of "su_in_flight s" i q qe_stored] assms
    have "add_mset (qe_stored q) (mset (map (qe_stored \<circ> snd) (dict_pop (su_in_flight s) i)))
        = mset (map (qe_stored \<circ> snd) (su_in_flight s))"
      by (simp add: sub_ok_def)
    with Some show ?thesis by (simp add: sub_ack_def in_flight_event_def outstanding_def)
  qed
qed

lemma nak_accounts:
  assumes "sub_ok s"
  shows "sub_ok (sub_nak i delay s) \<and> outstanding (sub_nak i delay s) = outstanding s"
proof (cases "dict_get (su_in_flight s) i")
  case None
  then show ?thesis using assms by (simp add: sub_nak_def)
next
  case (Some q)
  let ?a = "sub_ack i s"
  have a: "sub_ok ?a" "add_mset (qe_stored q) (outstanding ?a) = outstanding s"
    using ack_accounts [OF assms, of i] Some by (simp_all add: in_flight_event_def)
  have "sub_nak i delay s =
     (if delay = 0 then ?a\<lparr>su_queue := su_queue ?a @ [\<lparr>qe_stored = qe_stored q, qe_redelivery = True\<rparr>]\<rparr>
      else ?a\<lparr>su_scheduled := su_scheduled ?a + 1, su_delayed := su_delayed ?a @
         [\<lparr>dt_started = False, dt_queued = \<lparr>qe_stored = qe_stored q, qe_redelivery = True\<rparr>\<rparr>]\<rparr>)"
    using Some assms by (simp add: sub_nak_def sub_ack_def sub_ok_def Let_def)
  with a show ?thesis by (simp add: sub_ok_def outstanding_def)
qed

lemma start_accounts:
  assumes "sub_ok s"
  shows "sub_ok (task_start i s) \<and> outstanding (task_start i s) = outstanding s"
proof (cases "i < length (su_delayed s)")
  case True
  let ?d = "su_delayed s"
  have "map (qe_stored \<circ> dt_queued) (?d[i := (?d ! i)\<lparr>dt_started := True\<rparr>])
      = (map (qe_stored \<circ> dt_queued) ?d)[i := map (qe_stored \<circ> dt_queued) ?d ! i]"
    using True by (simp add: map_update)
  then have "map (qe_stored \<circ> dt_queued) (?d[i := (?d ! i)\<lparr>dt_started := True\<rparr>])
      = map (qe_stored \<circ> dt_queued) ?d"
    by (simp only: list_update_id)
  with True assms show ?thesis by (simp add: task_start_def sub_ok_def outstanding_def)
qed (use assms in \<open>simp add: task_start_def\<close>)

lemma wake_accounts:
  assumes "sub_ok s"
  shows "sub_ok (task_wake i s) \<and> outstanding (task_wake i s) = outstanding s"
proof (cases "i < length (su_delayed s) \<and> dt_started (su_delayed s ! i)")
  case True
  let ?d = "su_delayed s"
  have "mset ?d = add_mset (?d ! i) (mset (remove_nth i ?d))"
    using True by (simp add: mset_remove_nth)
  then have "mset (map (qe_stored \<circ> dt_queued) ?d)
      = add_mset (qe_stored (dt_queued (?d ! i))) (mset (map (qe_stored \<circ> dt_queued) (remove_nth i ?d)))"
    by simp
  with True assms show ?thesis
    by (simp add: task_wake_def sub_ok_def outstanding_def length_remove_nth of_nat_diff Suc_leI)
qed (use assms in \<open>auto simp: task_wake_def\<close>)

lemma sub_change_accounts:
  assumes "sub_change s gone s'" and "sub_ok s"
  shows "sub_ok s' \<and> outstanding s' + gone = outstanding s"
  using assms
proof (cases rule: sub_change.cases)
  case (fetches batch timeout outcome)
  then have "s' = s \<or> (\<exists>ms. fetch_ready batch s = (ms, s'))"
    by (auto simp: fetch_def split: if_splits option.splits prod.splits)
  then show ?thesis using assms(2) fetches(1) fetch_ready_accounts by auto
next
  case (resumes batch messages)
  then show ?thesis using fetch_ready_accounts [OF assms(2)] by simp
next
  case (acks m m')
  then show ?thesis using ack_accounts [OF assms(2)] assms(2) by (auto simp: message_ack_def split: if_splits)
next
  case (naks delay m m')
  then show ?thesis using nak_accounts [OF assms(2)] assms(2) by (auto simp: message_nak_def split: if_splits)
qed (use assms(2) start_accounts wake_accounts in auto)

interpretation subscription: accounted_buffer enqueue sub_change outstanding sub_ok
proof unfold_locales
  show "sub_ok (enqueue e s)" if "sub_ok s" for s e using that by (simp add: enqueue_def sub_ok_def)
  show "outstanding (enqueue e s) = add_mset e (outstanding s)" if "sub_ok s" for s e
    using that by (simp add: enqueue_def sub_ok_def outstanding_def)
qed (auto dest: sub_change_accounts)

subsection \<open>Histories of the bus\<close>

text \<open>
  An open bus after any sequence of calls, with what each durable consumer has acknowledged so
  far.
\<close>

inductive bus_run ::
  "(EventEnvelope \<Rightarrow> string) \<Rightarrow> EventBus \<Rightarrow> (consumer_key \<Rightarrow> StoredEvent multiset) \<Rightarrow> bool"
  for dumps where
  fresh: "bus_run dumps new_bus (\<lambda>_. {#})"
| connects: "bus_run dumps b acked \<Longrightarrow> bus_connect b = Inr b' \<Longrightarrow> bus_run dumps b' acked"
| publishes: "bus_run dumps b acked \<Longrightarrow> publish_envelope dumps evt b = Inr (sent, b') \<Longrightarrow>
    bus_run dumps b' acked"
| subscribes: "bus_run dumps b acked \<Longrightarrow> subscribe subject durable b = Inr b' \<Longrightarrow>
    bus_run dumps b' acked"
| changes: "bus_run dumps b acked \<Longrightarrow> dict_get (eb_subscriptions b) key = Some s \<Longrightarrow>
    sub_change s gone s' \<Longrightarrow>
    bus_run dumps (b\<lparr>eb_subscriptions := dict_set (eb_subscriptions b) key s'\<rparr>)
      (acked(key := acked key + gone))"

lemma subject_kept_deliver: "deliver_each qs s = (ms, s') \<Longrightarrow> su_subject s' = su_subject s"
  by (induction qs arbitrary: s ms) (auto simp: deliver_def Let_def split: prod.splits)

lemma subject_kept: "sub_change s gone s' \<Longrightarrow> su_subject s' = su_subject s"
  by (induction rule: sub_change.induct)
    (auto simp: fetch_def fetch_ready_def message_ack_def message_nak_def sub_ack_def sub_nak_def
      task_start_def task_wake_def Let_def dest: subject_kept_deliver
      split: if_splits option.splits prod.splits)

lemma subject_kept_enqueue [simp]: "su_subject (enqueue e s) = su_subject s"
  by (simp add: enqueue_def)

lemma replay_fold:
  "replay subject events s = fold enqueue (filter (\<lambda>e. subject_matches subject (se_subject e)) events) s"
  by (induction events arbitrary: s) auto

lemma subject_kept_fold [simp]: "su_subject (fold enqueue es s) = su_subject s"
  by (induction es arbitrary: s) auto

abbreviation matching :: "string \<Rightarrow> StoredEvent list \<Rightarrow> StoredEvent list" where
  "matching subject events \<equiv> filter (\<lambda>e. subject_matches subject (se_subject e)) events"

definition bus_ok :: "EventBus \<Rightarrow> (consumer_key \<Rightarrow> StoredEvent multiset) \<Rightarrow> bool" where
  "bus_ok b acked \<longleftrightarrow>
    (\<forall>key s. dict_get (eb_subscriptions b) key = Some s \<longrightarrow> su_subject s = fst key
       \<and> subscription.accounts_for (matching (fst key) (eb_events b)) (acked key) s)
    \<and> (\<forall>key. dict_get (eb_subscriptions b) key = None \<longrightarrow> acked key = {#})"

lemma bus_ok_publish:
  assumes "bus_ok b acked" and "publish_envelope dumps evt b = Inr (sent, b')"
  shows "bus_ok b' acked"
proof -
  let ?e = "\<lparr>se_subject = ev_subject evt, se_data = dumps evt\<rparr>"
  let ?f = "\<lambda>s. if subject_matches (su_subject s) (ev_subject evt) then enqueue ?e s else s"
  have b': "eb_events b' = eb_events b @ [?e]"
      "map_of (eb_subscriptions b') = map_option ?f \<circ> map_of (eb_subscriptions b)"
    using assms(2) map_of_map [of ?f "eb_subscriptions b"]
    by (auto simp: publish_envelope_def rmap_Inr_iff Let_def)
  show ?thesis
    using assms(1) unfolding bus_ok_def b'
    by (auto intro: subscription.accounts_put)
qed

lemma bus_ok_subscribe:
  assumes "bus_ok b acked" and "subscribe subject durable b = Inr b'"
  shows "bus_ok b' acked"
proof (cases "dict_get (eb_subscriptions b) (subject, durable)")
  case None
  then have b': "b' = b\<lparr>eb_subscriptions := dict_set (eb_subscriptions b) (subject, durable)
      (fold enqueue (matching subject (eb_events b)) (new_subscription subject durable))\<rparr>"
    using assms(2) by (auto simp: subscribe_def rmap_Inr_iff replay_fold)
  have "subscription.accounts_for (matching subject (eb_events b)) {#}
      (fold enqueue (matching subject (eb_events b)) (new_subscription subject durable))"
    by (rule subscription.accounts_fresh) (simp_all add: sub_ok_def outstanding_def new_subscription_def)
  then show ?thesis
    using assms(1) None by (auto simp: bus_ok_def b' new_subscription_def)
next
  case (Some s)
  then show ?thesis using assms by (auto simp: subscribe_def rmap_Inr_iff)
qed

lemma bus_run_ok: "bus_run dumps b acked \<Longrightarrow> bus_ok b acked"
proof (induction rule: bus_run.induct)
  case fresh
  then show ?case by (simp add: bus_ok_def new_bus_def)
next
  case (connects b acked b')
  then show ?case by (auto simp: bus_connect_def bus_ok_def split: if_splits)
next
  case (publishes b acked evt sent b')
  then show ?case by (blast intro: bus_ok_publish)
next
  case (subscribes b acked subject durable b')
  then show ?case by (blast intro: bus_ok_subscribe)
next
  case (changes b acked key s gone s')
  then show ?case
    by (auto simp: bus_ok_def subject_kept intro: subscription.accounts_change)
qed

lemma metrics_size:
  "sub_ok s \<Longrightarrow> cm_pending (sub_metrics s) + cm_ack_pending (sub_metrics s) = int (size (outstanding s))"
  by (simp add: sub_ok_def sub_metrics_def outstanding_def)

text \<open>
  C5. The bus loses no event: after any sequence of publications, subscriptions, fetches,
  acknowledgements, negative acknowledgements and delayed redeliveries, the events a durable
  consumer has acknowledged and those it still has to see (queued, in flight or waiting for their
  delay) are, with multiplicity, exactly the published events that match its pattern, also those
  from before the subscription. The two gauges add up to the number that is left.
\<close>

theorem no_event_is_lost:
  assumes "bus_run dumps b acked"
    and "dict_get (eb_subscriptions b) (subject, durable) = Some s"
  shows "outstanding s + acked (subject, durable) = mset (matching subject (eb_events b))
    \<and> cm_pending (sub_metrics s) + cm_ack_pending (sub_metrics s) = int (size (outstanding s))"
  using bus_run_ok [OF assms(1)] assms(2)
  by (auto simp: bus_ok_def subscription.accounts_for_def metrics_size)

lemma deliver_each_messages:
  "deliver_each qs s = (ms, s') \<Longrightarrow>
    map ms_data ms = map (se_data \<circ> qe_stored) qs
    \<and> map ms_delivery_id ms = map (\<lambda>i. su_next_delivery_id s + int i) [0..<length qs]
    \<and> su_queue s' = su_queue s \<and> su_next_delivery_id s' = su_next_delivery_id s + int (length qs)"
proof (induction qs arbitrary: s ms)
  case (Cons q qs)
  obtain m s1 where d: "deliver q s = (m, s1)" by (rule prod.exhaust)
  obtain rest where r: "deliver_each qs s1 = (rest, s')" "ms = m # rest"
    using Cons.prems by (auto simp: d Let_def split: prod.splits)
  have s1: "ms_data m = se_data (qe_stored q)" "ms_delivery_id m = su_next_delivery_id s"
      "su_queue s1 = su_queue s" "su_next_delivery_id s1 = su_next_delivery_id s + 1"
    using d by (auto simp: deliver_def Let_def)
  have "map (\<lambda>i. su_next_delivery_id s + int i) [0..<Suc (length qs)]
      = su_next_delivery_id s # map (\<lambda>i. su_next_delivery_id s1 + int i) [0..<length qs]"
    by (rule nth_equalityI) (auto simp: nth_Cons s1 simp del: upt_Suc split: nat.split)
  with Cons.IH [OF r(1)] s1 r(2) show ?case by simp
qed simp

text \<open>
  C21. A fetch that returns hands out between one and \<open>batch\<close> messages, the oldest of the queue in
  their order, each under a delivery id of its own that no earlier message has.
\<close>

theorem fetch_in_order:
  assumes "fetch batch timeout s = Inr (Fetched ms, s')"
  shows "1 \<le> length ms \<and> int (length ms) \<le> batch
    \<and> map ms_data ms = map (se_data \<circ> qe_stored) (take (nat batch) (su_queue s))
    \<and> su_queue s' = drop (nat batch) (su_queue s)
    \<and> map ms_delivery_id ms = map (\<lambda>i. su_next_delivery_id s + int i) [0..<length ms]
    \<and> su_next_delivery_id s' = su_next_delivery_id s + int (length ms)"
proof -
  have b: "1 \<le> batch" "su_queue s \<noteq> []" "fetch_ready batch s = (ms, s')"
    using assms by (auto simp: fetch_def split: if_splits option.splits prod.splits)
  note d = deliver_each_messages [OF b(3) [unfolded fetch_ready_def]]
  have "length (map ms_data ms) = length (map (se_data \<circ> qe_stored) (take (nat batch) (su_queue s)))"
    using conjunct1 [OF d] by (rule arg_cong)
  then have "length ms = min (nat batch) (length (su_queue s))" by (simp add: min.commute)
  with d b(1,2) show ?thesis by (auto simp: min_def Suc_le_eq)
qed

end
