(* ===== verification/Bus_Example.thy ===== *)
theory Bus_Example
  imports Event_Bus
begin

text \<open>
  A bus with two events, one published before its consumer subscribes: the theorems on the
  in-process bus at concrete inputs.
\<close>

definition bus_event :: "string \<Rightarrow> string \<Rightarrow> EventEnvelope" where
  "bus_event event_id subject = event event_id ''now'' None subject ''test'' [] PNone None None"

definition dumped :: "EventEnvelope \<Rightarrow> string" where "dumped evt = ev_event_id evt"

definition right_or :: "'a \<Rightarrow> 'e + 'a \<Rightarrow> 'a" where
  "right_or d r = (case r of Inl _ \<Rightarrow> d | Inr x \<Rightarrow> x)"

definition bus1 :: EventBus where "bus1 = right_or new_bus (bus_connect new_bus)"
definition bus2 :: EventBus where
  "bus2 = snd (right_or (bus_event [] [], bus1) (publish_envelope dumped (bus_event ''e1'' ''pod.created'') bus1))"
definition bus3 :: EventBus where "bus3 = right_or bus2 (subscribe ''pod.*'' ''worker'' bus2)"
definition bus4 :: EventBus where
  "bus4 = snd (right_or (bus_event [] [], bus3) (publish_envelope dumped (bus_event ''e2'' ''pod.deleted'') bus3))"

definition sub4 :: Subscription where "sub4 = the (dict_get (eb_subscriptions bus4) (''pod.*'', ''worker''))"
definition sub5 :: Subscription where "sub5 = snd (fetch_ready 1 sub4)"
definition msg5 :: EventMessage where "msg5 = hd (fst (fetch_ready 1 sub4))"
definition sub6 :: Subscription where "sub6 = snd (message_ack msg5 sub5)"

definition in_bus :: "Subscription \<Rightarrow> EventBus \<Rightarrow> EventBus" where
  "in_bus s b = b\<lparr>eb_subscriptions := dict_set (eb_subscriptions b) (''pod.*'', ''worker'') s\<rparr>"

lemma bus_run4: "bus_run dumped bus4 (\<lambda>_. {#})"
proof -
  have "bus_run dumped bus1 (\<lambda>_. {#})"
    by (rule bus_run.connects [OF bus_run.fresh]) code_simp
  then have "bus_run dumped bus2 (\<lambda>_. {#})"
    by (rule bus_run.publishes [where evt = "bus_event ''e1'' ''pod.created''" and sent = "bus_event ''e1'' ''pod.created''"]) code_simp
  then have "bus_run dumped bus3 (\<lambda>_. {#})"
    by (rule bus_run.subscribes [where subject = "''pod.*''" and durable = "''worker''"]) code_simp
  then show ?thesis
    by (rule bus_run.publishes [where evt = "bus_event ''e2'' ''pod.deleted''" and sent = "bus_event ''e2'' ''pod.deleted''"]) code_simp
qed

lemma bus_run6:
  "bus_run dumped (in_bus sub6 (in_bus sub5 bus4))
    ((\<lambda>_. {#})((''pod.*'', ''worker'') := {#} + {#} + {#\<lparr>se_subject = ''pod.created'', se_data = ''e1''\<rparr>#}))"
proof -
  have "sub_change sub4 {#} sub5"
    by (rule sub_change.fetches [of 1 None _ "Fetched (fst (fetch_ready 1 sub4))"]) code_simp
  then have r: "bus_run dumped (in_bus sub5 bus4) ((\<lambda>_. {#})((''pod.*'', ''worker'') := {#} + {#}))"
    unfolding in_bus_def by (rule bus_run.changes [OF bus_run4, rotated]) code_simp
  have "sub_change sub5 (if ms_settled msg5 then {#} else in_flight_event sub5 (ms_delivery_id msg5)) sub6"
    by (rule sub_change.acks [where m' = "fst (message_ack msg5 sub5)"]) (simp add: sub6_def)
  moreover have "\<not> ms_settled msg5" "ms_delivery_id msg5 = 1"
      "dict_get (su_in_flight sub5) 1 = Some \<lparr>qe_stored = \<lparr>se_subject = ''pod.created'', se_data = ''e1''\<rparr>, qe_redelivery = False\<rparr>"
    by code_simp+
  ultimately have "sub_change sub5 {#\<lparr>se_subject = ''pod.created'', se_data = ''e1''\<rparr>#} sub6"
    by (simp add: in_flight_event_def)
  moreover have "dict_get (eb_subscriptions (in_bus sub5 bus4)) (''pod.*'', ''worker'') = Some sub5"
    by (simp add: in_bus_def)
  ultimately show ?thesis
    using bus_run.changes [OF r] unfolding in_bus_def by fastforce
qed

theorem no_event_is_lost_witness:
  "outstanding sub6 + {#\<lparr>se_subject = ''pod.created'', se_data = ''e1''\<rparr>#}
     = mset (matching ''pod.*'' (eb_events bus4)) \<and> length (eb_events bus4) = 2"
proof -
  have "dict_get (eb_subscriptions (in_bus sub6 (in_bus sub5 bus4))) (''pod.*'', ''worker'') = Some sub6"
    by (simp add: in_bus_def)
  from no_event_is_lost [OF bus_run6 this] have
      "outstanding sub6 + {#\<lparr>se_subject = ''pod.created'', se_data = ''e1''\<rparr>#}
        = mset (matching ''pod.*'' (eb_events bus4))"
    by (simp add: in_bus_def)
  moreover have "length (eb_events bus4) = 2" by code_simp
  ultimately show ?thesis by blast
qed

theorem fetch_in_order_witness:
  "su_queue sub4 \<noteq> [] \<and> map ms_data (fst (fetch_ready 5 sub4)) = [''e1'', ''e2'']"
proof -
  have "fetch 5 None sub4 = Inr (Fetched (fst (fetch_ready 5 sub4)), snd (fetch_ready 5 sub4))"
    and q: "map (se_data \<circ> qe_stored) (take 5 (su_queue sub4)) = [''e1'', ''e2'']" "su_queue sub4 \<noteq> []"
    by code_simp+
  from fetch_in_order [OF this(1)] q show ?thesis by simp
qed
end
