(* ===== verification/Field_Path.thy ===== *)
theory Field_Path
  imports Py_Value
begin

text \<open>
  Field paths into a manifest, from \<open>src/src/domains/gitops/source_patch.py\<close>: the text of a path
  such as \<open>spec.template.spec.containers[name=app].image\<close> is split into segments, a value is read
  along the segments, and a value is put in its place. Reading, writing and the exceptions of each
  are \<open>object_value_at\<close> and \<open>set_object_value\<close>; the lemmas are the laws of a lens: what was written is
  read back, a path that parts from it is not touched, and writing the old value restores the
  object.
\<close>

subsection \<open>Scalars\<close>

fun scalar_value :: "py \<Rightarrow> bool" where
  "scalar_value PNone = True"
| "scalar_value (PStr _) = True"
| "scalar_value (PInt _) = True"
| "scalar_value (PFloat _) = True"
| "scalar_value (PBool _) = True"
| "scalar_value _ = False"

datatype py_kind = NoneType | Bool_Type | Int_Type | Float_Type | Str_Type | List_Type | Dict_Type | Datetime_Type

fun py_type :: "py \<Rightarrow> py_kind" where
  "py_type PNone = NoneType"
| "py_type (PBool _) = Bool_Type"
| "py_type (PInt _) = Int_Type"
| "py_type (PFloat _) = Float_Type"
| "py_type (PStr _) = Str_Type"
| "py_type (PList _) = List_Type"
| "py_type (PDict _) = Dict_Type"
| "py_type (PDatetime _) = Datetime_Type"

definition same_scalar :: "py \<Rightarrow> py \<Rightarrow> bool" where
  "same_scalar left right \<longleftrightarrow> py_type left = py_type right \<and> py_eq left right"

subsection \<open>Segments\<close>

record FieldPathSegment =
  sg_key :: string
  sg_selected_name :: "string option"

definition is_key_char :: "char \<Rightarrow> bool" where
  "is_key_char c \<longleftrightarrow> is_alnum c \<or> c = CHR ''_'' \<or> c = CHR ''-''"

text \<open>\<open>FIELD_PATH_SEGMENT_PATTERN.fullmatch(raw)\<close> and its two groups.\<close>

definition segment_match :: "string \<Rightarrow> FieldPathSegment option" where
  "segment_match raw =
    (let key = takeWhile is_key_char raw; rest = dropWhile is_key_char raw
     in if key = [] then None
        else if rest = [] then Some \<lparr>sg_key = key, sg_selected_name = None\<rparr>
        else if prefix ''[name='' rest \<and> suffix '']'' rest
        then
          (let inner = butlast (drop 6 rest)
           in if inner = [] \<or> CHR '']'' \<in> set inner then None
              else Some \<lparr>sg_key = key, sg_selected_name = Some inner\<rparr>)
        else None)"

text \<open>
  The loop of \<open>_field_path_parts\<close>: the depth of brackets and the part read so far. \<open>None\<close> stands for
  the early returns of the empty tuple.
\<close>

fun parts_from :: "int \<Rightarrow> string \<Rightarrow> string \<Rightarrow> string list option" where
  "parts_from depth part [] = (if depth \<noteq> 0 then None else Some [part])"
| "parts_from depth part (c # cs) =
    (if c = CHR ''['' then parts_from (depth + 1) (part @ [c]) cs
     else if c = CHR '']''
     then if depth - 1 < 0 then None else parts_from (depth - 1) (part @ [c]) cs
     else if c = CHR ''.'' \<and> depth = 0 then map_option (\<lambda>parts. part # parts) (parts_from 0 [] cs)
     else parts_from depth (part @ [c]) cs)"

definition field_path_parts :: "string \<Rightarrow> string list" where
  "field_path_parts value = (case parts_from 0 [] value of None \<Rightarrow> [] | Some parts \<Rightarrow> parts)"

definition segment_of :: "string \<Rightarrow> FieldPathSegment option" where
  "segment_of raw =
    (case segment_match raw of
       None \<Rightarrow> None
     | Some segment \<Rightarrow>
         (case sg_selected_name segment of
            None \<Rightarrow> Some segment
          | Some name \<Rightarrow> if py_strip name = [] then None else Some segment))"

fun segments_of :: "string list \<Rightarrow> FieldPathSegment list option" where
  "segments_of [] = Some []"
| "segments_of (raw # rest) =
    (case segment_of raw of
       None \<Rightarrow> None
     | Some segment \<Rightarrow> map_option (\<lambda>segments. segment # segments) (segments_of rest))"

definition field_path_segments :: "string \<Rightarrow> FieldPathSegment list" where
  "field_path_segments value =
    (case segments_of (field_path_parts value) of None \<Rightarrow> [] | Some segments \<Rightarrow> segments)"

subsection \<open>Reading and writing along a path\<close>

abbreviation target_missing :: exn where
  "target_missing \<equiv> ManifestSourcePatchError ''manifest scalar target is missing''"

abbreviation target_not_unique :: exn where
  "target_not_unique \<equiv> ManifestSourcePatchError ''manifest scalar target is not unique''"

fun is_named :: "string \<Rightarrow> py \<Rightarrow> bool" where
  "is_named name (PDict d) = (pget d ''name'' = PStr name)"
| "is_named name _ = False"

text \<open>The single item of a list with a name.\<close>

definition select_named :: "string \<Rightarrow> py list \<Rightarrow> py res" where
  "select_named name items =
    (case filter (is_named name) items of [item] \<Rightarrow> Inr item | _ \<Rightarrow> Inl target_not_unique)"

fun object_value_at :: "py \<Rightarrow> FieldPathSegment list \<Rightarrow> py res" where
  "object_value_at current [] = Inr current"
| "object_value_at current (segment # segments) =
    (case current of
       PDict d \<Rightarrow>
         (case dict_get d (sg_key segment) of
            None \<Rightarrow> Inl target_missing
          | Some v \<Rightarrow>
              (case sg_selected_name segment of
                 None \<Rightarrow> object_value_at v segments
               | Some name \<Rightarrow>
                   (case v of
                      PList items \<Rightarrow>
                        rbind (select_named name items) (\<lambda>item. object_value_at item segments)
                    | _ \<Rightarrow> Inl target_missing)))
     | _ \<Rightarrow> Inl target_missing)"

text \<open>
  \<open>set_object_value\<close> changes the object in place; the model returns the changed object. Iterating over
  a value that is no list raises \<open>TypeError\<close>, except that a string or a dictionary yields strings, none
  of which is selected. Nothing is changed before the last segment, so an exception leaves the
  object as it was.
\<close>

fun iterated :: "py \<Rightarrow> py list res" where
  "iterated (PList items) = Inr items"
| "iterated (PStr s) = Inr []"
| "iterated (PDict d) = Inr []"
| "iterated _ = Inl TypeError"

fun set_object_value :: "py \<Rightarrow> FieldPathSegment list \<Rightarrow> py \<Rightarrow> py res" where
  "set_object_value current [] value = Inl IndexError"
| "set_object_value current [final] value =
    (case (sg_selected_name final, current) of
       (None, PDict d) \<Rightarrow> Inr (PDict (dict_set d (sg_key final) value))
     | _ \<Rightarrow> Inl target_missing)"
| "set_object_value current (segment # next # segments) value =
    (case current of
       PDict d \<Rightarrow>
         (case dict_get d (sg_key segment) of
            None \<Rightarrow> Inl KeyError
          | Some v \<Rightarrow>
              (case sg_selected_name segment of
                 None \<Rightarrow>
                   rmap (\<lambda>v'. PDict (dict_set d (sg_key segment) v'))
                     (set_object_value v (next # segments) value)
               | Some name \<Rightarrow>
                   rbind (iterated v) (\<lambda>items.
                   rbind (select_named name items) (\<lambda>item.
                   rmap (\<lambda>item'. PDict (dict_set d (sg_key segment)
                            (PList (map (\<lambda>x. if is_named name x then item' else x) items))))
                     (set_object_value item (next # segments) value)))))
     | _ \<Rightarrow> Inl target_missing)"

subsection \<open>The selected item of a list\<close>

abbreviation replaced :: "string \<Rightarrow> py \<Rightarrow> py list \<Rightarrow> py list" where
  "replaced name item' items \<equiv> map (\<lambda>x. if is_named name x then item' else x) items"

lemma select_named_iff: "select_named name items = Inr item \<longleftrightarrow> filter (is_named name) items = [item]"
  by (auto simp: select_named_def split: list.splits)

lemma select_named_is: "select_named name items = Inr item \<Longrightarrow> is_named name item \<and> item \<in> set items"
  unfolding select_named_iff by (metis Cons_eq_filterD list.set_intros(1) Un_iff set_append)

lemma filter_replaced:
  "is_named name item' \<Longrightarrow>
    filter (is_named name) (replaced name item' items) = map (\<lambda>_. item') (filter (is_named name) items)"
  by (induction items) auto

lemma select_replaced:
  "is_named name item' \<Longrightarrow> select_named name items = Inr item \<Longrightarrow>
    select_named name (replaced name item' items) = Inr item'"
  by (simp add: select_named_iff filter_replaced)

lemma is_named_unique: "is_named a x \<Longrightarrow> is_named b x \<Longrightarrow> a = b"
  by (cases x) auto

lemma filter_replaced_other:
  "a \<noteq> b \<Longrightarrow> is_named a item' \<Longrightarrow>
    filter (is_named b) (replaced a item' items) = filter (is_named b) items"
  by (induction items) (auto dest: is_named_unique)

lemma select_replaced_other:
  "a \<noteq> b \<Longrightarrow> is_named a item' \<Longrightarrow> select_named b (replaced a item' items) = select_named b items"
  by (simp add: select_named_def filter_replaced_other)

lemma replaced_back:
  assumes "select_named name items = Inr item" and "is_named name item'"
  shows "replaced name item (replaced name item' items) = items"
proof -
  have e: "item = x" if "x \<in> set items" "is_named name x" for x
  proof -
    have "x \<in> set (filter (is_named name) items)" using that by simp
    also have "filter (is_named name) items = [item]" using assms(1) by (simp add: select_named_iff)
    finally show ?thesis by simp
  qed
  with assms(2) show ?thesis by (intro nth_equalityI) (auto intro!: e)
qed

lemma dict_set_back: "dict_get d k = Some old \<Longrightarrow> dict_set (dict_set d k v) k old = d"
  by (induction d) auto

subsection \<open>The laws of reading and writing\<close>

text \<open>The name by which an item of a list is selected is not itself what is written.\<close>

fun keeps_selection :: "FieldPathSegment list \<Rightarrow> bool" where
  "keeps_selection (s # t # rest) \<longleftrightarrow>
    (sg_selected_name s = None \<or> rest \<noteq> [] \<or> sg_key t \<noteq> ''name'') \<and> keeps_selection (t # rest)"
| "keeps_selection _ \<longleftrightarrow> True"

lemma set_keeps_name:
  assumes "set_object_value item (t # rest) v = Inr item'" and "is_named name item"
    and "rest \<noteq> [] \<or> sg_key t \<noteq> ''name''"
  shows "is_named name item'"
proof -
  obtain d where d: "item = PDict d" "pget d ''name'' = PStr name"
    using assms(2) by (cases item) auto
  show ?thesis
  proof (cases "sg_key t = ''name''")
    case True
    then obtain n ns where "rest = n # ns" using assms(3) by (cases rest) auto
    moreover have "dict_get d ''name'' = Some (PStr name)"
      using d(2) by (auto simp: pget_def split: option.splits)
    ultimately show ?thesis
      using assms(1) True d(1) by (cases ns) (auto simp: select_named_def rmap_Inr_iff split: option.splits)
  next
    case False
    then show ?thesis
      using assms(1) d by (cases rest) (auto simp: rmap_Inr_iff rbind_Inr_iff split: option.splits)
  qed
qed

text \<open>The ways in which a value is written below the first segment of a path.\<close>

lemma set_object_value_cases:
  assumes "set_object_value obj segs v = Inr obj'" and "keeps_selection segs"
  obtains
    (final) d k where "obj = PDict d" "segs = [\<lparr>sg_key = k, sg_selected_name = None\<rparr>]"
      "obj' = PDict (dict_set d k v)"
  | (below) d k w w' rest where "obj = PDict d" "segs = \<lparr>sg_key = k, sg_selected_name = None\<rparr> # rest"
      "rest \<noteq> []" "dict_get d k = Some w" "set_object_value w rest v = Inr w'"
      "obj' = PDict (dict_set d k w')" "keeps_selection rest"
  | (item) d k name items x x' rest where "obj = PDict d"
      "segs = \<lparr>sg_key = k, sg_selected_name = Some name\<rparr> # rest" "rest \<noteq> []"
      "dict_get d k = Some (PList items)" "select_named name items = Inr x"
      "set_object_value x rest v = Inr x'" "is_named name x'"
      "obj' = PDict (dict_set d k (PList (replaced name x' items)))" "keeps_selection rest"
proof -
  obtain s rest where segs: "segs = s # rest" using assms(1) by (cases segs) auto
  obtain k sel where s: "s = \<lparr>sg_key = k, sg_selected_name = sel\<rparr>" by (cases s)
  obtain d where d: "obj = PDict d"
    using assms(1) segs by (cases obj; cases rest; cases sel) (auto simp: s)
  show thesis
  proof (cases rest)
    case Nil
    with assms(1) segs s d show thesis by (intro final [of d k]) (auto split: option.splits)
  next
    case (Cons t ts)
    then obtain w where w: "dict_get d k = Some w"
      using assms(1) segs s d by (auto split: option.splits)
    show thesis
    proof (cases sel)
      case None
      with assms(1) Cons segs s d w obtain w' where
          "set_object_value w rest v = Inr w'" "obj' = PDict (dict_set d k w')"
        by (auto simp: rmap_Inr_iff)
      then show thesis using below [of d k rest w w'] assms(2) None Cons segs s d w by simp
    next
      case (Some name)
      with assms(1) Cons segs s d w obtain items x x' where
          i: "iterated w = Inr items" "select_named name items = Inr x"
            "set_object_value x rest v = Inr x'"
            "obj' = PDict (dict_set d k (PList (replaced name x' items)))"
        by (auto simp: rmap_Inr_iff rbind_Inr_iff)
      have "w = PList items" using i(1,2) by (cases w) (auto simp: select_named_def)
      moreover have "is_named name x'"
        using set_keeps_name [OF _ conjunct1 [OF select_named_is [OF i(2)]]] i(3) assms(2) segs s Some Cons
        by (auto split: if_splits)
      ultimately show thesis
        using item [of d k name rest items x x'] assms(2) segs s Some Cons d w i by auto
    qed
  qed
qed

lemma get_set:
  assumes "set_object_value obj segs v = Inr obj'" and "keeps_selection segs"
  shows "object_value_at obj' segs = Inr v"
  using assms
proof (induction segs arbitrary: obj obj')
  case (Cons s rest)
  from Cons.prems show ?case
  proof (cases rule: set_object_value_cases)
    case (item d k name items x x' rest')
    then show ?thesis using Cons.IH [of x x'] by (simp add: select_replaced)
  qed (use Cons.IH in auto)
qed simp

text \<open>Two paths that part: at the first segment that differs they name different fields or items.\<close>

fun diverge :: "FieldPathSegment list \<Rightarrow> FieldPathSegment list \<Rightarrow> bool" where
  "diverge (s # ss) (t # ts) \<longleftrightarrow>
    sg_key s \<noteq> sg_key t
    \<or> (case (sg_selected_name s, sg_selected_name t) of
         (Some a, Some b) \<Rightarrow> a \<noteq> b | _ \<Rightarrow> False)
    \<or> s = t \<and> diverge ss ts"
| "diverge _ _ \<longleftrightarrow> False"

lemma diverge_sym: "diverge p q \<Longrightarrow> diverge q p"
  by (induction p q rule: diverge.induct) (auto split: option.splits)

lemma get_set_other:
  assumes "set_object_value obj segs v = Inr obj'" and "keeps_selection segs" and "diverge segs q"
  shows "object_value_at obj' q = object_value_at obj q"
  using assms
proof (induction segs arbitrary: obj obj' q)
  case (Cons s rest)
  obtain t ts where "q = t # ts" using Cons.prems(3) by (cases q) auto
  then obtain l sel where q: "q = \<lparr>sg_key = l, sg_selected_name = sel\<rparr> # ts" by (cases t) simp
  from Cons.prems(1,2) show ?case
  proof (cases rule: set_object_value_cases)
    case (item d k name items x x' rest')
    then consider "k \<noteq> l" | b where "k = l" "sel = Some b" "name \<noteq> b"
      | "k = l" "sel = Some name" "diverge rest ts"
      using Cons.prems(3) q by (cases sel) auto
    then show ?thesis
      using Cons.IH [of x x' ts] item q
      by cases (simp_all add: select_replaced select_replaced_other del: map_map)
  next
    case (final d k)
    then show ?thesis using Cons.prems(3) q by (auto split: option.splits)
  next
    case (below d k w w' rest')
    then show ?thesis using Cons.IH [of w w' ts] Cons.prems(3) q by (auto split: option.splits)
  qed
qed simp

lemma set_back:
  assumes "set_object_value obj segs v = Inr obj'" and "keeps_selection segs"
    and "object_value_at obj segs = Inr old"
  shows "set_object_value obj' segs old = Inr obj"
  using assms
proof (induction segs arbitrary: obj obj')
  case (Cons s rest)
  from Cons.prems(1,2) show ?case
  proof (cases rule: set_object_value_cases)
    case (final d k)
    then show ?thesis using Cons.prems(3) by (auto simp: dict_set_back split: option.splits)
  next
    case (below d k w w' rest')
    then obtain t ts where "rest = t # ts" by (cases rest) auto
    with below show ?thesis using Cons.IH [of w w'] Cons.prems(3) by (auto simp: dict_set_back)
  next
    case (item d k name items x x' rest')
    then obtain t ts where r: "rest' = t # ts" "rest = t # ts" by (cases rest') auto
    have "object_value_at x rest = Inr old" using item Cons.prems(3) by simp
    then have "set_object_value x' rest old = Inr x" using Cons.IH [of x x'] item by simp
    then show ?thesis
      using item r replaced_back [OF item(5,7)]
      by (simp add: dict_set_back select_replaced del: map_map)
  qed
qed simp

text \<open>Two different paths that both lead to a scalar part.\<close>

lemma scalar_at_Cons:
  "scalar_value v \<Longrightarrow> object_value_at v segs = Inr w \<Longrightarrow> segs = []"
  by (cases v; cases segs) auto

lemma scalar_paths_diverge:
  assumes "object_value_at obj p = Inr v" "scalar_value v"
    and "object_value_at obj q = Inr w" "scalar_value w" and "p \<noteq> q"
  shows "diverge p q"
  using assms
proof (induction p arbitrary: obj q)
  case Nil
  then have "v = obj" by simp
  with Nil scalar_at_Cons [of v q w] show ?case by blast
next
  case (Cons s ss)
  show ?case
  proof (cases q)
    case Nil
    then have "w = obj" using Cons.prems(3) by simp
    with Cons.prems scalar_at_Cons [of w "s # ss" v] show ?thesis by blast
  next
    case (Cons t ts)
    obtain d x where d: "obj = PDict d" "dict_get d (sg_key s) = Some x"
      using Cons.prems(1) by (auto split: py.splits option.splits)
    show ?thesis
    proof (rule ccontr)
      assume n: "\<not> diverge (s # ss) q"
      then have k: "sg_key s = sg_key t" and "sg_selected_name s = sg_selected_name t \<or>
          (sg_selected_name s = None) \<noteq> (sg_selected_name t = None)"
        using Cons by (auto split: option.splits)
      then consider (same) "s = t" | (mixed) "(sg_selected_name s = None) \<noteq> (sg_selected_name t = None)"
        by fastforce
      then show False
      proof cases
        case same
        with n Cons Cons.prems(5) have "\<not> diverge ss ts" "ss \<noteq> ts" by auto
        moreover obtain y where "object_value_at y ss = Inr v" "object_value_at y ts = Inr w"
          using Cons.prems(1,3) same Cons d
          by (auto simp: rbind_Inr_iff split: option.splits py.splits)
        ultimately show False using Cons.IH [of y ts] Cons.prems(2,4) by blast
      next
        case mixed
        then show False
          using Cons.prems(1-4) Cons d k
          by (cases ss; cases ts) (auto simp: rbind_Inr_iff split: option.splits py.splits)
      qed
    qed
  qed
qed

subsection \<open>The text of a path\<close>

definition segment_text :: "FieldPathSegment \<Rightarrow> string" where
  "segment_text s = sg_key s @
    (case sg_selected_name s of None \<Rightarrow> [] | Some name \<Rightarrow> ''[name='' @ name @ '']'')"

definition path_text :: "FieldPathSegment list \<Rightarrow> string" where
  "path_text segs = py_join ''.'' (map segment_text segs)"

definition segment_ok :: "FieldPathSegment \<Rightarrow> bool" where
  "segment_ok s \<longleftrightarrow> sg_key s \<noteq> [] \<and> list_all is_key_char (sg_key s)
    \<and> (case sg_selected_name s of
         None \<Rightarrow> True
       | Some name \<Rightarrow> CHR ''['' \<notin> set name \<and> CHR '']'' \<notin> set name \<and> py_strip name \<noteq> [])"

lemma key_char_plain: "is_key_char c \<Longrightarrow> c \<noteq> CHR ''['' \<and> c \<noteq> CHR '']'' \<and> c \<noteq> CHR ''.''"
  by (auto simp: is_key_char_def is_alnum_def is_alpha_def is_digit_def)

lemma bracketed_text:
  assumes "prefix ''[name='' rest" and "suffix '']'' rest" and "butlast (drop 6 rest) \<noteq> []"
  shows "rest = ''[name='' @ butlast (drop 6 rest) @ '']''"
proof -
  from assms(1) obtain y where y: "rest = ''[name='' @ y" by (auto simp: prefix_def)
  with assms(3) have "y \<noteq> []" by auto
  moreover have "last rest = CHR '']''" using assms(2) by (auto simp: suffix_def)
  ultimately have "y = butlast y @ '']''" using y by (metis append_butlast_last_id last_appendR)
  with y show ?thesis by simp
qed

lemma segment_match_text:
  assumes "segment_match raw = Some s"
  shows "segment_text s = raw \<and> sg_key s \<noteq> [] \<and> list_all is_key_char (sg_key s)
    \<and> (\<forall>name. sg_selected_name s = Some name \<longrightarrow> CHR '']'' \<notin> set name)"
proof -
  define key rest where d: "key = takeWhile is_key_char raw" "rest = dropWhile is_key_char raw"
  have raw: "raw = key @ rest" by (simp add: d)
  have all: "list_all is_key_char key" by (auto simp: d list_all_iff dest: set_takeWhileD)
  have m: "(if key = [] then None
        else if rest = [] then Some \<lparr>sg_key = key, sg_selected_name = None\<rparr>
        else if prefix ''[name='' rest \<and> suffix '']'' rest
        then if butlast (drop 6 rest) = [] \<or> CHR '']'' \<in> set (butlast (drop 6 rest)) then None
             else Some \<lparr>sg_key = key, sg_selected_name = Some (butlast (drop 6 rest))\<rparr>
        else None) = Some s"
    using assms by (simp only: segment_match_def d Let_def)
  show ?thesis
  proof (cases "rest = []")
    case True
    then show ?thesis using m raw all by (simp add: segment_text_def split: if_split_asm) force
  next
    case False
    then have s: "\<lparr>sg_key = key, sg_selected_name = Some (butlast (drop 6 rest))\<rparr> = s"
        "CHR '']'' \<notin> set (butlast (drop 6 rest))" "key \<noteq> []"
      and b: "prefix ''[name='' rest" "suffix '']'' rest" "butlast (drop 6 rest) \<noteq> []"
      using m by (simp_all split: if_split_asm)
    from bracketed_text [OF b] have "segment_text s = raw"
      using raw s(1) by (auto simp: segment_text_def simp del: butlast_drop)
    with s all show ?thesis by auto
  qed
qed

lemma segment_match_of_text:
  assumes "segment_ok s"
  shows "segment_of (segment_text s) = Some s"
proof -
  obtain k sel where s: "s = \<lparr>sg_key = k, sg_selected_name = sel\<rparr>" by (cases s)
  have k: "k \<noteq> []" "\<forall>c \<in> set k. is_key_char c" using assms by (auto simp: segment_ok_def s list_all_iff)
  have b: "\<not> is_key_char (CHR ''['')" using key_char_plain by blast
  show ?thesis
  proof (cases sel)
    case None
    with k show ?thesis
      by (simp add: s segment_text_def segment_of_def segment_match_def dropWhile_eq_Nil_conv [THEN iffD2]
          takeWhile_eq_all_conv [THEN iffD2])
  next
    case (Some name)
    have t: "takeWhile is_key_char (k @ ''[name='' @ name @ '']'') = k"
        "dropWhile is_key_char (k @ ''[name='' @ name @ '']'') = ''[name='' @ name @ '']''"
      using k(2) b by (simp_all add: takeWhile_append2 dropWhile_append2)
    have "name \<noteq> []" "CHR '']'' \<notin> set name" "py_strip name \<noteq> []"
      using assms Some by (auto simp: segment_ok_def s)
    moreover have "suffix '']'' (''[name='' @ name @ '']'')" by (simp add: suffix_def)
    ultimately show ?thesis
      using k(1) Some t
      by (simp add: s segment_text_def segment_of_def segment_match_def Let_def butlast_append)
  qed
qed

lemma parts_from_ne: "parts_from depth part cs = Some ps \<Longrightarrow> ps \<noteq> []"
  by (induction depth part cs arbitrary: ps rule: parts_from.induct) (auto split: if_splits)

lemma parts_from_join: "parts_from depth part cs = Some ps \<Longrightarrow> py_join ''.'' ps = part @ cs"
proof (induction depth part cs arbitrary: ps rule: parts_from.induct)
  case (2 depth part c cs)
  show ?case
  proof (cases "c = CHR ''.'' \<and> depth = 0")
    case True
    then obtain rest where "parts_from 0 [] cs = Some rest" "ps = part # rest" using 2 by auto
    with True 2 parts_from_ne [of 0 "[]" cs rest] show ?thesis by (simp add: py_join_Cons)
  qed (use 2 in \<open>auto split: if_splits\<close>)
qed (auto split: if_splits)

definition balance :: "string \<Rightarrow> int" where
  "balance s = int (count_list s (CHR ''['')) - int (count_list s (CHR '']''))"

lemma parts_from_balanced:
  "parts_from depth part cs = Some ps \<Longrightarrow> balance part = depth \<Longrightarrow> p \<in> set ps \<Longrightarrow> balance p = 0"
proof (induction depth part cs arbitrary: ps rule: parts_from.induct)
  case (2 depth part c cs)
  then show ?case by (auto simp: balance_def split: if_splits)
qed (auto split: if_splits)

lemma count_list_key: "list_all is_key_char k \<Longrightarrow> c \<in> {CHR ''['', CHR '']''} \<Longrightarrow> count_list k c = 0"
  by (auto simp: count_list_0_iff list_all_iff dest: key_char_plain)

lemma segment_of_ok:
  assumes "segment_of raw = Some s" and "balance raw = 0"
  shows "segment_ok s \<and> segment_text s = raw"
proof -
  have m: "segment_match raw = Some s" and n: "\<forall>name. sg_selected_name s = Some name \<longrightarrow> py_strip name \<noteq> []"
    using assms(1) by (auto simp: segment_of_def split: option.splits if_splits)
  note t = segment_match_text [OF m]
  have "CHR ''['' \<notin> set name" if "sg_selected_name s = Some name" for name
  proof -
    have "raw = sg_key s @ ''[name='' @ name @ '']''" using t that by (auto simp: segment_text_def)
    then have "balance raw = int (count_list name (CHR ''[''))"
      using t that by (simp add: balance_def count_list_key)
    then show ?thesis using assms(2) by (simp add: count_list_0_iff)
  qed
  with t n show ?thesis by (auto simp: segment_ok_def split: option.splits)
qed

lemma segments_of_ok:
  "segments_of raws = Some segs \<Longrightarrow> \<forall>raw \<in> set raws. balance raw = 0 \<Longrightarrow>
    list_all segment_ok segs \<and> map segment_text segs = raws"
  by (induction raws arbitrary: segs) (auto split: option.splits dest: segment_of_ok)

lemma parts_from_plain:
  "\<forall>c \<in> set x. c \<noteq> CHR ''['' \<and> c \<noteq> CHR '']'' \<and> (c \<noteq> CHR ''.'' \<or> depth \<noteq> 0) \<Longrightarrow>
    parts_from depth part (x @ rest) = parts_from depth (part @ x) rest"
  by (induction x arbitrary: part) auto

lemma parts_from_segment:
  assumes "segment_ok s"
  shows "parts_from 0 part (segment_text s @ rest) = parts_from 0 (part @ segment_text s) rest"
proof -
  have k: "parts_from 0 part (sg_key s @ r) = parts_from 0 (part @ sg_key s) r" for r
    using assms key_char_plain by (intro parts_from_plain) (auto simp: segment_ok_def list_all_iff)
  show ?thesis
  proof (cases "sg_selected_name s")
    case None
    then show ?thesis using k by (simp add: segment_text_def)
  next
    case (Some name)
    then have "parts_from 1 p (name @ r) = parts_from 1 (p @ name) r" for p r
      using assms by (intro parts_from_plain) (auto simp: segment_ok_def)
    with Some k show ?thesis by (simp add: segment_text_def)
  qed
qed

lemma parts_from_path:
  "segs \<noteq> [] \<Longrightarrow> list_all segment_ok segs \<Longrightarrow>
    parts_from 0 [] (path_text segs) = Some (map segment_text segs)"
proof (induction segs)
  case (Cons s segs)
  show ?case
  proof (cases "segs = []")
    case True
    then show ?thesis using Cons.prems parts_from_segment [of s "[]" "[]"] by (simp add: path_text_def)
  next
    case False
    then have "path_text (s # segs) = segment_text s @ ''.'' @ path_text segs"
      by (simp add: path_text_def py_join_Cons)
    with False Cons show ?thesis by (simp add: parts_from_segment)
  qed
qed simp

lemma segments_of_path:
  "list_all segment_ok segs \<Longrightarrow> segments_of (map segment_text segs) = Some segs"
  by (induction segs) (auto simp: segment_match_of_text)

lemma field_path_segments_text:
  assumes "field_path_segments path = segs" and "segs \<noteq> []"
  shows "list_all segment_ok segs \<and> path = path_text segs"
proof -
  obtain parts where p: "parts_from 0 [] path = Some parts" "segments_of parts = Some segs"
    using assms by (auto simp: field_path_segments_def field_path_parts_def split: option.splits)
  have "balance [] = 0" by (simp add: balance_def)
  then have "\<forall>raw \<in> set parts. balance raw = 0" using parts_from_balanced [OF p(1)] by blast
  with segments_of_ok [OF p(2)] parts_from_join [OF p(1)] show ?thesis by (simp add: path_text_def)
qed

lemma field_path_segments_inj:
  "field_path_segments p = field_path_segments q \<Longrightarrow> field_path_segments p \<noteq> [] \<Longrightarrow> p = q"
  using field_path_segments_text by metis

text \<open>A path below another one has the segments of both, one after the other.\<close>

lemma parts_from_balance: "parts_from depth part cs = Some ps \<Longrightarrow> depth + balance cs = 0"
  by (induction depth part cs arbitrary: ps rule: parts_from.induct)
    (auto simp: balance_def split: if_splits)

lemma parts_from_split:
  "parts_from depth part (xs @ CHR ''.'' # ys) = Some ps \<Longrightarrow> depth + balance xs = 0 \<Longrightarrow>
    \<exists>pre post. parts_from depth part xs = Some pre \<and> parts_from 0 [] ys = Some post \<and> ps = pre @ post"
proof (induction depth part xs arbitrary: ps rule: parts_from.induct)
  case (1 depth part)
  then show ?case by (auto simp: balance_def)
next
  case (2 depth part c cs)
  show ?case
  proof (cases "c = CHR ''.'' \<and> depth = 0")
    case True
    then obtain rest where r: "parts_from 0 [] (cs @ CHR ''.'' # ys) = Some rest" "ps = part # rest"
      using 2(5) by auto
    have "0 + balance cs = 0" using 2(6) True by (simp add: balance_def)
    then obtain pre post where "parts_from 0 [] cs = Some pre" "parts_from 0 [] ys = Some post"
        "rest = pre @ post"
      using 2(3) [OF _ _ True r(1)] True by auto
    with True r(2) show ?thesis by simp
  next
    case False
    then show ?thesis using 2 by (auto simp: balance_def split: if_splits)
  qed
qed

lemma segments_of_append:
  "segments_of (xs @ ys) = Some segs \<Longrightarrow>
    \<exists>a b. segments_of xs = Some a \<and> segments_of ys = Some b \<and> segs = a @ b"
  by (induction xs arbitrary: segs) (force split: option.splits)+

lemma field_path_parts_found:
  assumes "field_path_segments path \<noteq> []"
  obtains parts where "parts_from 0 [] path = Some parts"
    "segments_of parts = Some (field_path_segments path)"
  using assms by (auto simp: field_path_segments_def field_path_parts_def split: option.splits)

lemma field_path_balance: "field_path_segments path \<noteq> [] \<Longrightarrow> balance path = 0"
  by (erule field_path_parts_found) (auto dest: parts_from_balance)

lemma segments_of_length: "segments_of parts = Some segs \<Longrightarrow> length segs = length parts"
  by (induction parts arbitrary: segs) (auto split: option.splits)

lemma field_path_below:
  assumes "field_path_segments (parent @ ''.'' @ path) \<noteq> []"
    and "field_path_segments path \<noteq> [] \<or> field_path_segments parent \<noteq> []"
  shows "field_path_segments (parent @ ''.'' @ path)
      = field_path_segments parent @ field_path_segments path \<and> field_path_segments path \<noteq> []"
proof -
  obtain parts where p: "parts_from 0 [] (parent @ CHR ''.'' # path) = Some parts"
      "segments_of parts = Some (field_path_segments (parent @ ''.'' @ path))"
    using field_path_parts_found [OF assms(1)] by auto
  have "balance (parent @ ''.'' @ path) = 0" using assms(1) by (rule field_path_balance)
  then have "0 + balance parent = 0"
    using assms(2) field_path_balance [of path] field_path_balance [of parent]
    by (auto simp: balance_def)
  from parts_from_split [OF p(1) this] obtain pre post where s: "parts_from 0 [] parent = Some pre"
      "parts_from 0 [] path = Some post" "parts = pre @ post" by blast
  with p(2) segments_of_append obtain a b where g: "segments_of pre = Some a" "segments_of post = Some b"
      "field_path_segments (parent @ ''.'' @ path) = a @ b" by blast
  have "b \<noteq> []" using parts_from_ne [OF s(2)] segments_of_length [OF g(2)] by auto
  with s g show ?thesis
    by (simp add: field_path_segments_def [of parent] field_path_segments_def [of path]
        field_path_parts_def)
qed

lemma object_value_at_append:
  "object_value_at obj (p @ q) = rbind (object_value_at obj p) (\<lambda>v. object_value_at v q)"
proof (induction p arbitrary: obj)
  case (Cons s p)
  have "rbind (rbind m f) g = rbind m (\<lambda>x. rbind (f x) g)" for m :: "py res" and f g :: "py \<Rightarrow> py res"
    by (cases m) simp_all
  with Cons show ?case by (auto split: py.split option.split)
qed simp

lemma object_value_at_step:
  assumes "object_value_at obj (s # rest) = Inr v"
  obtains w where "object_value_at obj [s] = Inr w" "object_value_at w rest = Inr v"
proof -
  have "object_value_at obj ([s] @ rest) = Inr v" using assms by (simp only: append_Cons append_Nil)
  then show thesis unfolding object_value_at_append rbind_Inr_iff using that by blast
qed

text \<open>A path that writes over the name an item is selected by can only ever read that name.\<close>

lemma selecting_name_reads_itself:
  "\<not> keeps_selection segs \<Longrightarrow> \<exists>name. \<forall>obj v. object_value_at obj segs = Inr v \<longrightarrow> v = PStr name"
proof (induction segs rule: keeps_selection.induct)
  case (1 s t rest)
  show ?case
  proof (cases "keeps_selection (t # rest)")
    case True
    then obtain name where n: "sg_selected_name s = Some name" "rest = []" "sg_key t = ''name''"
      using 1(2) by auto
    have "v = PStr name" if r: "object_value_at obj (s # t # rest) = Inr v" for obj v
    proof -
      obtain item where i: "object_value_at obj [s] = Inr item" "object_value_at item [t] = Inr v"
        using r unfolding n(2) by (rule object_value_at_step)
      have "is_named name item"
        using i(1) n(1) by (auto simp: rbind_Inr_iff dest: select_named_is split: py.splits option.splits)
      then obtain d where "item = PDict d" "pget d ''name'' = PStr name" by (cases item) auto
      with i(2) n(3) show ?thesis by (auto simp: pget_def split: option.splits)
    qed
    then show ?thesis by blast
  next
    case False
    then obtain name where n: "\<forall>obj v. object_value_at obj (t # rest) = Inr v \<longrightarrow> v = PStr name"
      using 1 by blast
    have "v = PStr name" if "object_value_at obj (s # t # rest) = Inr v" for obj v
      using that n by (meson object_value_at_step)
    then show ?thesis by blast
  qed
qed simp_all

text \<open>
  C17. Field paths and their text are in one-to-one correspondence: a text is read as the non-empty
  list of segments exactly if the segments are well formed (letters, digits, \<open>_\<close> and \<open>-\<close> in a key,
  no bracket in a selected name that is not blank) and the text is how they are written. So two
  different texts never address the same field.
\<close>

theorem field_path_round_trip:
  assumes "segs \<noteq> []"
  shows "field_path_segments path = segs \<longleftrightarrow> list_all segment_ok segs \<and> path = path_text segs"
  using assms field_path_segments_text [of path segs]
  by (auto simp: field_path_segments_def field_path_parts_def parts_from_path segments_of_path)

theorem field_path_round_trip_witness:
  "field_path_segments ''spec.containers[name=a.b].image''
    = [\<lparr>sg_key = ''spec'', sg_selected_name = None\<rparr>,
       \<lparr>sg_key = ''containers'', sg_selected_name = Some ''a.b''\<rparr>,
       \<lparr>sg_key = ''image'', sg_selected_name = None\<rparr>]"
proof (subst field_path_round_trip)
  show "list_all segment_ok [\<lparr>sg_key = ''spec'', sg_selected_name = None\<rparr>,
       \<lparr>sg_key = ''containers'', sg_selected_name = Some ''a.b''\<rparr>,
       \<lparr>sg_key = ''image'', sg_selected_name = None\<rparr>]
     \<and> ''spec.containers[name=a.b].image'' = path_text [\<lparr>sg_key = ''spec'', sg_selected_name = None\<rparr>,
       \<lparr>sg_key = ''containers'', sg_selected_name = Some ''a.b''\<rparr>,
       \<lparr>sg_key = ''image'', sg_selected_name = None\<rparr>]"
    by code_simp
qed simp

end
