(* ===== verification/Event_Body.thy ===== *)
theory Event_Body
  imports Py_Value
begin

text \<open>
  Event bodies and their wire form, \<open>src/src/packages/contracts/event_bus/bodies/base.py\<close>. A class is
  its list of fields: attribute, payload name, declared type and default. \<open>from_body\<close> reads a JSON
  object by those fields, in strict mode refusing keys that no field has; \<open>to_body\<close> writes an object.
  A class whose construction does more than store the attributes is not covered.
\<close>

subsection \<open>Classes and values\<close>

datatype body_value =
    V_Json py
  | V_List "body_value list"
  | V_Body string "(string \<times> string \<times> body_value) list"

text \<open>\<open>T_Other\<close> is any annotation that \<open>_decode_value\<close> has no case for, \<open>float\<close> for one.\<close>

datatype field_type =
    T_Any
  | T_None
  | T_Union "field_type list"
  | T_Body string "(string \<times> string \<times> field_type \<times> body_value option) list"
  | T_List field_type
  | T_Dict
  | T_Bool
  | T_Int
  | T_Str
  | T_Other

type_synonym field_spec = "string \<times> string \<times> field_type \<times> body_value option"

subsection \<open>Writing\<close>

fun to_body_value :: "body_value \<Rightarrow> py"
  and to_body_items :: "body_value list \<Rightarrow> py list"
  and to_body :: "(string \<times> string \<times> body_value) list \<Rightarrow> pdict"
where
  "to_body_value (V_Json v) = v"
| "to_body_value (V_List vs) = PList (to_body_items vs)"
| "to_body_value (V_Body cls attributes) = PDict (to_body attributes)"
| "to_body_items [] = []"
| "to_body_items (v # vs) = to_body_value v # to_body_items vs"
| "to_body [] = []"
| "to_body ((name, key, v) # attributes) = (key, to_body_value v) # to_body attributes"

subsection \<open>Reading\<close>

definition spec_key :: "field_spec \<Rightarrow> string" where
  "spec_key s = fst (snd s)"

definition decode_error :: "string \<Rightarrow> string \<Rightarrow> exn" where
  "decode_error owner what = EventBodyDecodeError (owner @ '': '' @ what)"

definition extra_keys :: "field_spec list \<Rightarrow> pdict \<Rightarrow> string list" where
  "extra_keys specs raw = filter (\<lambda>k. k \<notin> set (map spec_key specs)) (map fst raw)"

fun decode_value :: "bool \<Rightarrow> string \<Rightarrow> string \<Rightarrow> field_type \<Rightarrow> py \<Rightarrow> body_value res"
  and decode_union :: "bool \<Rightarrow> string \<Rightarrow> string \<Rightarrow> field_type list \<Rightarrow> py \<Rightarrow> body_value res"
  and decode_fields :: "bool \<Rightarrow> string \<Rightarrow> field_spec list \<Rightarrow> pdict
    \<Rightarrow> (string \<times> string \<times> body_value) list res"
where
  "decode_value strict owner key T_Any value = Inr (V_Json value)"
| "decode_value strict owner key T_None value = Inr (V_Json value)"
| "decode_value strict owner key T_Other value = Inr (V_Json value)"
| "decode_value strict owner key (T_Union args) value =
    (if value = PNone \<and> T_None \<in> set args then Inr (V_Json PNone)
     else decode_union strict owner key args value)"
| "decode_value strict owner key (T_Body cls specs) value =
    (case value of
       PDict raw \<Rightarrow>
         (if strict \<and> extra_keys specs raw \<noteq> []
          then Inl (decode_error cls
                 (''unexpected field(s): '' @ py_join '', '' (sort (extra_keys specs raw))))
          else rmap (V_Body cls) (decode_fields strict cls specs raw))
     | _ \<Rightarrow> Inl (decode_error owner (''field '' @ key @ '' must be an object'')))"
| "decode_value strict owner key (T_List item_type) value =
    (case value of
       PList items \<Rightarrow>
         rmap V_List (rtraverse (\<lambda>item. decode_value strict owner (key @ ''[]'') item_type item) items)
     | _ \<Rightarrow> Inl (decode_error owner (''field '' @ key @ '' must be a list'')))"
| "decode_value strict owner key T_Dict value =
    (case value of
       PDict d \<Rightarrow> Inr (V_Json (PDict d))
     | _ \<Rightarrow> Inl (decode_error owner (''field '' @ key @ '' must be an object'')))"
| "decode_value strict owner key T_Bool value =
    (case value of
       PBool b \<Rightarrow> Inr (V_Json (PBool b))
     | _ \<Rightarrow> Inl (decode_error owner (''field '' @ key @ '' must be bool'')))"
| "decode_value strict owner key T_Int value =
    (case value of
       PInt i \<Rightarrow> Inr (V_Json (PInt i))
     | _ \<Rightarrow> Inl (decode_error owner (''field '' @ key @ '' must be int'')))"
| "decode_value strict owner key T_Str value =
    (case value of
       PStr s \<Rightarrow> Inr (V_Json (PStr s))
     | _ \<Rightarrow> Inl (decode_error owner (''field '' @ key @ '' must be str'')))"
| "decode_union strict owner key [] value =
    Inl (decode_error owner (''invalid type for field: '' @ key))"
| "decode_union strict owner key (option # args) value =
    (if option = T_None then decode_union strict owner key args value
     else
       (case decode_value strict owner key option value of
          Inr v \<Rightarrow> Inr v
        | Inl (EventBodyDecodeError _) \<Rightarrow> decode_union strict owner key args value
        | Inl e \<Rightarrow> Inl e))"
| "decode_fields strict cls [] raw = Inr []"
| "decode_fields strict cls ((name, key, ty, def) # specs) raw =
    rbind
      (case dict_get raw key of
         None \<Rightarrow>
           (case def of
              Some v \<Rightarrow> Inr v
            | None \<Rightarrow> Inl (decode_error cls (''missing required field: '' @ key)))
       | Some value \<Rightarrow> decode_value strict cls key ty value)
      (\<lambda>v. rmap (\<lambda>attributes. (name, key, v) # attributes) (decode_fields strict cls specs raw))"

definition from_body :: "bool \<Rightarrow> string \<Rightarrow> field_spec list \<Rightarrow> py \<Rightarrow> body_value res" where
  "from_body strict cls specs raw =
    (case raw of
       PDict d \<Rightarrow> decode_value strict cls [] (T_Body cls specs) (PDict d)
     | _ \<Rightarrow> Inl (decode_error cls ''payload must be an object''))"

subsection \<open>Well-typed values\<close>

text \<open>A value of a declared type. A union is \<open>T | None\<close>, the only form the bodies declare.\<close>

fun value_ok :: "field_type \<Rightarrow> body_value \<Rightarrow> bool"
  and option_ok :: "field_type list \<Rightarrow> body_value \<Rightarrow> bool"
  and fields_ok :: "field_spec list \<Rightarrow> (string \<times> string \<times> body_value) list \<Rightarrow> bool"
where
  "value_ok T_Any v = (case v of V_Json _ \<Rightarrow> True | _ \<Rightarrow> False)"
| "value_ok T_None v = (case v of V_Json _ \<Rightarrow> True | _ \<Rightarrow> False)"
| "value_ok T_Other v = (case v of V_Json _ \<Rightarrow> True | _ \<Rightarrow> False)"
| "value_ok (T_Union args) v = (v = V_Json PNone \<and> T_None \<in> set args \<or> option_ok args v)"
| "value_ok (T_Body cls specs) v =
    (case v of V_Body cls' attributes \<Rightarrow> cls' = cls \<and> fields_ok specs attributes | _ \<Rightarrow> False)"
| "value_ok (T_List ty) v = (case v of V_List vs \<Rightarrow> list_all (\<lambda>x. value_ok ty x) vs | _ \<Rightarrow> False)"
| "value_ok T_Dict v = (case v of V_Json (PDict _) \<Rightarrow> True | _ \<Rightarrow> False)"
| "value_ok T_Bool v = (case v of V_Json (PBool _) \<Rightarrow> True | _ \<Rightarrow> False)"
| "value_ok T_Int v = (case v of V_Json (PInt _) \<Rightarrow> True | _ \<Rightarrow> False)"
| "value_ok T_Str v = (case v of V_Json (PStr _) \<Rightarrow> True | _ \<Rightarrow> False)"
| "option_ok [] v = False"
| "option_ok (ty # args) v =
    (if ty = T_None then option_ok args v else value_ok ty v \<and> list_all (\<lambda>t. t = T_None) args)"
| "fields_ok [] attributes = (attributes = [])"
| "fields_ok ((name, key, ty, def) # specs) attributes =
    (case attributes of
       [] \<Rightarrow> False
     | (name', key', v) # rest \<Rightarrow> name' = name \<and> key' = key \<and> value_ok ty v \<and> fields_ok specs rest)"

text \<open>A declared class: payload names are distinct, unions are optional types, defaults are typed.\<close>

fun type_ok :: "field_type \<Rightarrow> bool"
  and args_ok :: "field_type list \<Rightarrow> bool"
  and specs_ok :: "field_spec list \<Rightarrow> bool"
where
  "type_ok (T_Union args) = args_ok args"
| "type_ok (T_Body cls specs) = (distinct (map spec_key specs) \<and> specs_ok specs)"
| "type_ok (T_List ty) = type_ok ty"
| "type_ok _ = True"
| "args_ok [] = False"
| "args_ok (ty # args) =
    (if ty = T_None then args_ok args else type_ok ty \<and> list_all (\<lambda>t. t = T_None) args)"
| "specs_ok [] = True"
| "specs_ok ((name, key, ty, def) # specs) =
    (type_ok ty \<and> (case def of None \<Rightarrow> True | Some v \<Rightarrow> value_ok ty v) \<and> specs_ok specs)"

lemma to_body_items_map [simp]: "to_body_items vs = map to_body_value vs"
  by (induction vs) auto

lemma to_body_None: "to_body_value v = PNone \<longleftrightarrow> v = V_Json PNone"
  by (cases v) auto

lemma union_all_none:
  "list_all (\<lambda>t. t = T_None) args \<Longrightarrow>
    decode_union strict owner key args value = Inl (decode_error owner (''invalid type for field: '' @ key))"
  by (induction args) auto

subsection \<open>What is read is typed\<close>

lemma decode_typed:
  "decode_value strict owner key ty x = Inr v \<Longrightarrow> type_ok ty \<Longrightarrow> value_ok ty v"
  "decode_union strict owner key args x = Inr v \<Longrightarrow> args_ok args \<Longrightarrow> option_ok args v"
  "decode_fields strict cls specs raw = Inr attributes \<Longrightarrow> specs_ok specs \<Longrightarrow> fields_ok specs attributes"
proof (induction strict owner key ty x and strict owner key args x and strict cls specs raw
    arbitrary: v and v and attributes
    rule: decode_value_decode_union_decode_fields.induct)
  case (6 strict owner key item_type x)
  then show ?case
    by (fastforce simp: rmap_Inr_iff list_all_iff split: py.splits dest: rtraverse_set)
next
  case (12 strict owner key ty args x)
  then show ?case
    by (auto simp: union_all_none decode_error_def split: if_splits sum.splits exn.splits)
next
  case (14 strict cls name key ty def specs raw)
  then show ?case by (auto simp: rbind_Inr_iff rmap_Inr_iff split: option.splits)
qed (auto simp: rmap_Inr_iff split: py.splits if_splits)

subsection \<open>What is written is read back\<close>

lemma dict_get_to_body:
  "distinct (map (fst \<circ> snd) attributes) \<Longrightarrow> (name, key, v) \<in> set attributes \<Longrightarrow>
    dict_get (to_body attributes) key = Some (to_body_value v)"
  by (induction attributes) (auto simp: rev_image_eqI)

lemma keys_to_body: "map fst (to_body attributes) = map (fst \<circ> snd) attributes"
  by (induction attributes) auto

lemma fields_ok_keys: "fields_ok specs attributes \<Longrightarrow> map (fst \<circ> snd) attributes = map spec_key specs"
  by (induction specs arbitrary: attributes) (auto simp: spec_key_def split: list.splits)

lemma rtraverse_map: "(\<And>x. x \<in> set xs \<Longrightarrow> f (g x) = Inr x) \<Longrightarrow> rtraverse f (map g xs) = Inr xs"
  by (induction xs) auto

lemma decode_written:
  "value_ok ty v \<Longrightarrow> type_ok ty \<Longrightarrow> decode_value strict owner key ty (to_body_value v) = Inr v"
  "option_ok args v \<Longrightarrow> args_ok args \<Longrightarrow> decode_union strict owner key args (to_body_value v) = Inr v"
  "fields_ok specs attributes \<Longrightarrow> specs_ok specs \<Longrightarrow>
    (\<And>name key v. (name, key, v) \<in> set attributes \<Longrightarrow> dict_get raw key = Some (to_body_value v)) \<Longrightarrow>
    decode_fields strict cls specs raw = Inr attributes"
proof (induction ty v and args v and specs attributes arbitrary: owner key and owner key and raw cls
    rule: value_ok_option_ok_fields_ok.induct)
  case (4 args v)
  then show ?case by (auto simp: to_body_None)
next
  case (5 cls specs v)
  then obtain attributes where v: "v = V_Body cls attributes" "fields_ok specs attributes"
    by (auto split: body_value.splits)
  have k: "map (fst \<circ> snd) attributes = map spec_key specs" using v(2) by (rule fields_ok_keys)
  with 5 have "distinct (map (fst \<circ> snd) attributes)" by (metis type_ok.simps(2))
  with 5 v have "decode_fields strict cls specs (to_body attributes) = Inr attributes"
    by (auto intro: dict_get_to_body)
  moreover have "extra_keys specs (to_body attributes) = []"
    by (simp add: extra_keys_def keys_to_body k del: map_map)
  ultimately show ?case by (simp add: v)
next
  case (6 ty v)
  then obtain vs where "v = V_List vs" "\<forall>x \<in> set vs. value_ok ty x"
    by (auto simp: list_all_iff split: body_value.splits)
  with 6 show ?case by (simp add: rtraverse_map)
next
  case (14 name key ty def specs attributes)
  then obtain v rest where a: "attributes = (name, key, v) # rest" "value_ok ty v" "fields_ok specs rest"
    by (auto split: list.splits)
  have "dict_get raw key = Some (to_body_value v)" using 14(5) [of name key v] a(1) by simp
  moreover have "decode_value strict cls key ty (to_body_value v) = Inr v"
    using 14(1) [OF a(1) refl refl a(2)] 14(4) by simp
  moreover have "decode_fields strict cls specs raw = Inr rest"
  proof (rule 14(2) [OF a(1) refl refl a(3)])
    show "specs_ok specs" using 14(4) by simp
    show "dict_get raw k = Some (to_body_value w)" if "(n, k, w) \<in> set rest" for n k w
      using 14(5) [of n k w] that a(1) by simp
  qed
  ultimately show ?case by (simp add: a(1))
qed (auto split: body_value.splits py.splits if_splits)

lemma decode_errors:
  "decode_value strict owner key ty x = Inl e \<Longrightarrow> \<exists>message. e = EventBodyDecodeError message"
  "decode_union strict owner key args x = Inl e \<Longrightarrow> \<exists>message. e = EventBodyDecodeError message"
  "decode_fields strict cls specs raw = Inl e \<Longrightarrow> \<exists>message. e = EventBodyDecodeError message"
proof (induction strict owner key ty x and strict owner key args x and strict cls specs raw
    rule: decode_value_decode_union_decode_fields.induct)
  case (6 strict owner key item_type x)
  show ?case
  proof (cases x)
    case (PList items)
    note ih = 6(1) [OF PList]
    have "\<exists>message. e = EventBodyDecodeError message"
      if "rtraverse (\<lambda>item. decode_value strict owner (key @ ''[]'') item_type item) xs = Inl e" for xs
      using that by (induction xs) (auto simp: rbind_Inl_iff rmap_Inl_iff dest: ih)
    with 6(2) PList show ?thesis by (auto simp: rmap_Inl_iff)
  qed (use 6(2) in \<open>auto simp: decode_error_def\<close>)
next
  case (12 strict owner key ty args x)
  then show ?case by (auto split: if_splits sum.splits exn.splits)
qed (auto simp: rbind_Inl_iff rmap_Inl_iff decode_error_def split: py.splits if_splits option.splits)

text \<open>
  C15. An event body survives the wire: for every declared class, reading what \<open>to_body\<close> writes gives
  the same object back, nested bodies, lists and optional fields included, in either mode.
\<close>

theorem body_wire_round_trip:
  assumes "type_ok (T_Body cls specs)" and "value_ok (T_Body cls specs) (V_Body cls attributes)"
  shows "from_body strict cls specs (to_body_value (V_Body cls attributes)) = Inr (V_Body cls attributes)"
  using decode_written(1) [OF assms(2,1)] by (simp add: from_body_def)

text \<open>
  The types that \<open>_decode_value\<close> looks at. Annotations it has no case for, \<open>float\<close> among them, are
  not: whatever value comes is stored.
\<close>

fun checked :: "field_type \<Rightarrow> bool"
  and checked_specs :: "field_spec list \<Rightarrow> bool"
where
  "checked T_None = False"
| "checked T_Other = False"
| "checked (T_Union args) = list_all (\<lambda>t. t = T_None \<or> checked t) args"
| "checked (T_Body cls specs) = checked_specs specs"
| "checked (T_List ty) = checked ty"
| "checked _ = True"
| "checked_specs [] = True"
| "checked_specs ((name, key, ty, def) # specs) = (checked ty \<and> checked_specs specs)"

text \<open>
  A value has a type: a body has exactly the declared attributes with values of their types, a
  list has members of the item type, an optional value is \<open>None\<close> or has one of the types, and a
  scalar is of the very JSON type.
\<close>

inductive has_type :: "field_type \<Rightarrow> body_value \<Rightarrow> bool"
  and has_fields :: "field_spec list \<Rightarrow> (string \<times> string \<times> body_value) list \<Rightarrow> bool"
where
  any: "has_type T_Any (V_Json x)"
| none: "T_None \<in> set args \<Longrightarrow> has_type (T_Union args) (V_Json PNone)"
| option: "ty \<in> set args \<Longrightarrow> ty \<noteq> T_None \<Longrightarrow> has_type ty v \<Longrightarrow> has_type (T_Union args) v"
| body: "has_fields specs attributes \<Longrightarrow> has_type (T_Body cls specs) (V_Body cls attributes)"
| items: "\<forall>v \<in> set vs. has_type ty v \<Longrightarrow> has_type (T_List ty) (V_List vs)"
| dict: "has_type T_Dict (V_Json (PDict d))"
| bool: "has_type T_Bool (V_Json (PBool b))"
| int: "has_type T_Int (V_Json (PInt i))"
| str: "has_type T_Str (V_Json (PStr x))"
| no_fields: "has_fields [] []"
| next_field: "has_type ty v \<Longrightarrow> has_fields specs attributes \<Longrightarrow>
    has_fields ((name, key, ty, def) # specs) ((name, key, v) # attributes)"

lemma value_ok_has_type:
  "value_ok ty v \<Longrightarrow> checked ty \<Longrightarrow> has_type ty v"
  "option_ok args v \<Longrightarrow> list_all (\<lambda>t. t = T_None \<or> checked t) args \<Longrightarrow>
    \<exists>ty \<in> set args. ty \<noteq> T_None \<and> has_type ty v"
  "fields_ok specs attributes \<Longrightarrow> checked_specs specs \<Longrightarrow> has_fields specs attributes"
proof (induction ty v and args v and specs attributes rule: value_ok_option_ok_fields_ok.induct)
  case (14 name key ty def specs attributes)
  then show ?case by (cases attributes) (auto intro: has_type_has_fields.intros)
qed (auto intro: has_type_has_fields.intros simp: list_all_iff split: body_value.splits py.splits if_splits)

text \<open>
  C16. Whatever \<open>from_body\<close> accepts has the declared types, in every field and at every depth, missing
  fields being filled by their defaults. This is for classes all of whose annotations the reader
  looks at: \<open>Any\<close>, optional types, bodies, lists, dictionaries, whose values stay unread, \<open>bool\<close>,
  \<open>int\<close> and \<open>str\<close>. A \<open>float\<close> field is not covered, since any value is accepted for it.
\<close>

theorem body_is_typed:
  assumes "type_ok (T_Body cls specs)" and "checked (T_Body cls specs)"
    and "from_body strict cls specs raw = Inr v"
  shows "has_type (T_Body cls specs) v"
proof -
  obtain d where "decode_value strict cls [] (T_Body cls specs) (PDict d) = Inr v"
    using assms(3) by (auto simp: from_body_def simp del: decode_value.simps split: py.splits)
  then have "value_ok (T_Body cls specs) v" using assms(1) by (rule decode_typed(1))
  then show ?thesis using assms(2) by (rule value_ok_has_type(1))
qed

text \<open>A field whose annotation has no case takes any value.\<close>

lemma unchecked_annotation_takes_anything:
  "from_body strict cls [(name, key, T_Other, def)] (PDict [(key, x)])
    = Inr (V_Body cls [(name, key, V_Json x)])"
  by (simp add: from_body_def extra_keys_def spec_key_def)

text \<open>
  C19. Additive fields: a body of a newer producer, which has all the fields of this class as this
  class writes them and at least one more, is read by a tolerant consumer as if the additional
  fields were absent, and is refused in strict mode.
\<close>

theorem additive_fields:
  assumes "type_ok (T_Body cls specs)" and "value_ok (T_Body cls specs) (V_Body cls attributes)"
    and "\<And>key. key \<in> set (map spec_key specs) \<Longrightarrow> dict_get raw key = dict_get (to_body attributes) key"
    and "extra \<in> set (map fst raw)" and "extra \<notin> set (map spec_key specs)"
  shows "from_body False cls specs (PDict raw) = Inr (V_Body cls attributes)
    \<and> (\<exists>message. from_body True cls specs (PDict raw) = Inl (EventBodyDecodeError message))"
proof -
  have f: "fields_ok specs attributes" using assms(2) by simp
  have k: "map (fst \<circ> snd) attributes = map spec_key specs" using f by (rule fields_ok_keys)
  have "dict_get raw key = Some (to_body_value v)" if "(name, key, v) \<in> set attributes" for name key v
  proof -
    have "key \<in> set (map spec_key specs)" using that unfolding k [symmetric] by force
    with assms(3) have "dict_get raw key = dict_get (to_body attributes) key" by blast
    also have "\<dots> = Some (to_body_value v)"
      using that assms(1) by (intro dict_get_to_body) (simp_all add: k)
    finally show ?thesis .
  qed
  then have "decode_fields False cls specs raw = Inr attributes"
    using assms(1) by (intro decode_written(3) [OF f]) auto
  moreover have "extra_keys specs raw \<noteq> []"
    using assms(4,5) by (auto simp: extra_keys_def filter_empty_conv)
  ultimately show ?thesis by (simp add: from_body_def decode_error_def)
qed

end
