(* ===== verification/Recovery_Merge.thy ===== *)
theory Recovery_Merge
  imports Field_Path Event_Body "HOL-Library.Multiset"
begin

text \<open>
  The authorization of a merged recovery pull request,
  \<open>src/src/domains/gitops/recovery_merge.py\<close>: a diff of the deployment workflow runs without a second
  approval only if it is the approved change, field by field, and the stored deployment request,
  the merged pull request, the workflow and the diff all name the same deployment. The rows that
  the database readers return are arguments. Python iterates over a set in an order of its own;
  \<open>order\<close> stands for it.
\<close>

definition RECOVERY_DEPLOY_PENDING :: string where "RECOVERY_DEPLOY_PENDING = ''deploy_pending''"
definition RECOVERY_SAFE_PR_ROUTE :: string where "RECOVERY_SAFE_PR_ROUTE = ''safe_pr''"
definition ALREADY_CONVERGED :: string where "ALREADY_CONVERGED = ''already_converged''"
definition INTENDED_CHANGE :: string where "INTENDED_CHANGE = ''intended_change''"
definition REPLICA_FIELD_PATH :: string where "REPLICA_FIELD_PATH = ''spec.replicas''"

subsection \<open>Events\<close>

record Diff =
  df_resource :: string
  df_namespace :: string
  df_desired_image :: string
  df_actual_image :: string
  df_risk :: string
  df_workspace_id :: string
  df_repository_id :: string
  df_watch_target_id :: string
  df_binding_id :: string
  df_application_id :: string
  df_workflow_run_id :: string
  df_environment :: string
  df_cluster_id :: string
  df_manifest_path :: string
  df_resource_class :: string
  df_desired_manifest :: py
  df_status :: string
  df_has_changes :: bool
  df_changes :: "py list"
  df_basis :: py

text \<open>
  The fields of \<open>GitWebhookReceivedBody\<close>. \<open>correlation_id\<close> is declared twice: its place is the first,
  its type and default are the second's.
\<close>

definition webhook_fields :: "field_spec list" where
  "webhook_fields =
    (let req = (\<lambda>n ty. (n, n, ty, None)); opt = (\<lambda>n s. (n, n, T_Str, Some (V_Json (PStr s))))
     in [req ''commit_sha'' T_Str, req ''image'' T_Str, req ''replicas'' T_Int,
         opt ''correlation_id'' [], opt ''workspace_id'' ''default'', opt ''repository_id'' [],
         opt ''repo_ref'' [], opt ''branch'' ''main'', opt ''watch_target_id'' [],
         opt ''binding_id'' [], opt ''application_id'' [], opt ''workflow_run_id'' [],
         opt ''environment'' ''sandbox'', opt ''cluster_id'' ''default-target-cluster'',
         opt ''manifest_path'' ''deploy.yaml'', opt ''source_type'' [],
         (''force'', ''force'', T_Bool, Some (V_Json (PBool False)))])"

record GitWebhookReceivedBody =
  gw_commit_sha :: string
  gw_image :: string
  gw_replicas :: int
  gw_correlation_id :: string
  gw_workspace_id :: string
  gw_repository_id :: string
  gw_repo_ref :: string
  gw_branch :: string
  gw_watch_target_id :: string
  gw_binding_id :: string
  gw_application_id :: string
  gw_workflow_run_id :: string
  gw_environment :: string
  gw_cluster_id :: string
  gw_manifest_path :: string
  gw_source_type :: string
  gw_force :: bool

fun attribute :: "string \<Rightarrow> body_value \<Rightarrow> py" where
  "attribute name (V_Body cls attributes) =
    (case find (\<lambda>(n, k, v). n = name) attributes of
       Some (n, k, V_Json v) \<Rightarrow> v | _ \<Rightarrow> PNone)"
| "attribute name _ = PNone"

fun str_of :: "py \<Rightarrow> string" where
  "str_of (PStr s) = s"
| "str_of _ = []"

definition webhook_of :: "body_value \<Rightarrow> GitWebhookReceivedBody" where
  "webhook_of v =
    (let s = (\<lambda>name. str_of (attribute name v))
     in \<lparr>gw_commit_sha = s ''commit_sha'', gw_image = s ''image'',
         gw_replicas = (case attribute ''replicas'' v of PInt i \<Rightarrow> i | _ \<Rightarrow> 0),
         gw_correlation_id = s ''correlation_id'', gw_workspace_id = s ''workspace_id'',
         gw_repository_id = s ''repository_id'', gw_repo_ref = s ''repo_ref'',
         gw_branch = s ''branch'', gw_watch_target_id = s ''watch_target_id'',
         gw_binding_id = s ''binding_id'', gw_application_id = s ''application_id'',
         gw_workflow_run_id = s ''workflow_run_id'', gw_environment = s ''environment'',
         gw_cluster_id = s ''cluster_id'', gw_manifest_path = s ''manifest_path'',
         gw_source_type = s ''source_type'', gw_force = (attribute ''force'' v = PBool True)\<rparr>)"

definition webhook_from_body :: "pdict \<Rightarrow> GitWebhookReceivedBody res" where
  "webhook_from_body raw =
    rmap webhook_of (from_body True ''GitWebhookReceivedBody'' webhook_fields (PDict raw))"

subsection \<open>The approved change\<close>

definition stripped :: "py \<Rightarrow> string" where
  "stripped v = py_strip (str_or_empty v)"

definition positive_int :: "py \<Rightarrow> int option" where
  "positive_int v = (case v of PInt i \<Rightarrow> if 0 < i then Some i else None | _ \<Rightarrow> None)"

type_synonym approved_changes = "(string \<times> py \<times> py) list"

fun collect_approved :: "py list \<Rightarrow> approved_changes \<Rightarrow> approved_changes option" where
  "collect_approved [] approved = Some approved"
| "collect_approved (raw # rest) approved =
    (case raw of
       PDict item \<Rightarrow>
         (let field_path = stripped (pget item ''field_path'');
              current = pget item ''current_value'';
              desired = pget item ''desired_value''
          in if field_path = [] \<or> dict_has approved field_path
                \<or> field_path_segments field_path = []
                \<or> \<not> scalar_value current \<or> \<not> scalar_value desired \<or> same_scalar current desired
             then None
             else collect_approved rest (dict_set approved field_path (current, desired)))
     | _ \<Rightarrow> None)"

definition plan_lifecycle :: "pdict \<Rightarrow> pdict" where
  "plan_lifecycle payload = mapping (pget payload ''lifecycle'')"

definition approved_change_contract :: "pdict \<Rightarrow> approved_changes option" where
  "approved_change_contract payload =
    (case pget (mapping (pget (plan_lifecycle payload) ''authorization'')) ''changes'' of
       PList raw_changes \<Rightarrow>
         if 1 \<le> length raw_changes \<and> length raw_changes \<le> 4 then collect_approved raw_changes []
         else None
     | _ \<Rightarrow> None)"

definition approved_replica_count :: "pdict \<Rightarrow> int option" where
  "approved_replica_count payload =
    (case approved_change_contract payload of
       None \<Rightarrow> None
     | Some approved \<Rightarrow>
         (case dict_get approved REPLICA_FIELD_PATH of
            None \<Rightarrow> None | Some (current, desired) \<Rightarrow> positive_int desired))"

definition projection_step :: "string \<Rightarrow> py \<Rightarrow> string \<times> py \<times> py \<Rightarrow> py res" where
  "projection_step parent_path projected = (\<lambda>(field_path, current, desired).
    let pre = parent_path @ ''.''
    in if \<not> py_startswith field_path pre then Inr projected
       else
         (let segments = field_path_segments (drop (length pre) field_path);
              mismatch = Inl (ManifestSourcePatchError
                ''approved parent change does not match current value'')
          in if segments = [] then mismatch
             else rbind (object_value_at projected segments) (\<lambda>v.
               if same_scalar v current then set_object_value projected segments desired
               else mismatch)))"

definition projected_parent_value :: "py \<Rightarrow> string \<Rightarrow> approved_changes \<Rightarrow> py res" where
  "projected_parent_value source parent_path approved =
    (if \<not> is_mapping source
     then Inl (ManifestSourcePatchError ''approved parent change is not an object'')
     else rfold (projection_step parent_path) source approved)"

text \<open>\<open>except (KeyError, ManifestSourcePatchError, TypeError): return None\<close>.\<close>

definition except_patch_error :: "bool res \<Rightarrow> bool res" where
  "except_patch_error m =
    (case m of
       Inl KeyError \<Rightarrow> Inr False
     | Inl (ManifestSourcePatchError _) \<Rightarrow> Inr False
     | Inl (RemediationSourcePatchUnsupported _) \<Rightarrow> Inr False
     | Inl TypeError \<Rightarrow> Inr False
     | _ \<Rightarrow> m)"

definition approved_change_matches_diff ::
  "(string list \<Rightarrow> string list) \<Rightarrow> pdict \<Rightarrow> approved_changes \<Rightarrow> string list option res" where
  "approved_change_matches_diff order change approved =
    (let field_path = stripped (pget change ''field_path'');
         classification = stripped (pget change ''classification'');
         matched = filter (\<lambda>path. path = field_path \<or> py_startswith path (field_path @ ''.''))
           (map fst approved);
         old_desired = pget change ''old_desired'';
         before_value = pget change ''before'';
         after_value = pget change ''after'';
         verdict = (\<lambda>valid. if valid then Some matched else None)
     in if matched = []
        then Inr (if classification = ALREADY_CONVERGED then Some [] else None)
        else if classification \<notin> {INTENDED_CHANGE, ALREADY_CONVERGED} then Inr None
        else if set matched = {field_path}
        then
          (case dict_get approved field_path of
             None \<Rightarrow> Inl KeyError
           | Some (current, desired) \<Rightarrow>
               Inr (verdict
                 (same_scalar old_desired current
                  \<and> same_scalar before_value
                      (if classification = INTENDED_CHANGE then current else desired)
                  \<and> same_scalar after_value desired)))
        else
          (let scoped = map (\<lambda>path. (path, the (dict_get approved path))) (order matched)
           in rmap verdict (except_patch_error
                (if classification = INTENDED_CHANGE
                 then if py_eq old_desired before_value
                      then rmap (\<lambda>projected. py_eq projected after_value)
                             (projected_parent_value before_value field_path scoped)
                      else Inr False
                 else rmap (\<lambda>projected. py_eq projected before_value \<and> py_eq before_value after_value)
                        (projected_parent_value old_desired field_path scoped)))))"

text \<open>The loop over the changes: what is covered, and how many changes are intended.\<close>

fun covered_by ::
  "(string list \<Rightarrow> string list) \<Rightarrow> approved_changes \<Rightarrow> py list \<Rightarrow> string list \<Rightarrow> nat
    \<Rightarrow> (string list \<times> nat) option res" where
  "covered_by order approved [] covered intended = Inr (Some (covered, intended))"
| "covered_by order approved (raw # rest) covered intended =
    (case raw of
       PDict change \<Rightarrow>
         rbind (approved_change_matches_diff order change approved) (\<lambda>matched.
           case matched of
             None \<Rightarrow> Inr None
           | Some paths \<Rightarrow>
               covered_by order approved rest (covered @ paths)
                 (if paths \<noteq> [] \<and> stripped (pget change ''classification'') = INTENDED_CHANGE
                  then intended + 1 else intended))
     | _ \<Rightarrow> Inr None)"

definition holds_desired :: "py \<Rightarrow> approved_changes \<Rightarrow> bool res" where
  "holds_desired desired approved =
    (case rany (\<lambda>(field_path, current, desired_value).
             rmap (\<lambda>v. \<not> same_scalar v desired_value)
               (object_value_at desired (field_path_segments field_path))) approved of
       Inr mismatch \<Rightarrow> Inr (\<not> mismatch)
     | Inl (ManifestSourcePatchError _) \<Rightarrow> Inr False
     | Inl e \<Rightarrow> Inl e)"

definition recovery_diff_matches_approved_scope ::
  "(string list \<Rightarrow> string list) \<Rightarrow> pdict \<Rightarrow> Diff \<Rightarrow> bool res" where
  "recovery_diff_matches_approved_scope order payload diff =
    (let authorization = mapping (pget (plan_lifecycle payload) ''authorization'');
         target = mapping (pget authorization ''target'');
         namespace = stripped (pget target ''namespace'');
         resource_kind = stripped (pget target ''resource_kind'');
         resource_name = stripped (pget target ''resource_name'');
         (diff_kind, separator, diff_name) = py_partition (CHR ''/'') (py_strip (df_resource diff));
         desired = mapping (df_desired_manifest diff);
         metadata = mapping (pget desired ''metadata'')
     in case approved_change_contract payload of
          None \<Rightarrow> Inr False
        | Some approved \<Rightarrow>
            if namespace = [] \<or> resource_kind = [] \<or> resource_name = []
               \<or> df_namespace diff \<noteq> namespace \<or> \<not> separator
               \<or> py_casefold diff_kind \<noteq> py_casefold resource_kind \<or> diff_name \<noteq> resource_name
            then Inr False
            else if py_casefold (stripped (pget desired ''kind'')) \<noteq> py_casefold resource_kind
               \<or> stripped (pget metadata ''name'') \<noteq> resource_name
               \<or> stripped (pget metadata ''namespace'') \<notin> {[], namespace}
            then Inr False
            else rbind (holds_desired (PDict desired) approved) (\<lambda>held.
              if \<not> held then Inr False
              else if \<not> df_has_changes diff
              then Inr (df_status diff \<in> {''already_converged'', ''no_change''}
                \<and> list_all (\<lambda>raw. is_mapping raw
                     \<and> stripped (pget (mapping raw) ''classification'') = ALREADY_CONVERGED)
                   (df_changes diff))
              else rmap (\<lambda>result.
                     case result of
                       None \<Rightarrow> False
                     | Some (covered, intended) \<Rightarrow>
                         0 < intended \<and> set covered = set (map fst approved))
                   (covered_by order approved (df_changes diff) [] 0)))"

subsection \<open>The merge\<close>

definition workflow_statuses :: "string list" where
  "workflow_statuses =
    [''started'', ''rendering'', ''diffing'', ''policy_checking'', ''waiting_for_approval'']"

definition expected_pairs ::
  "pdict \<Rightarrow> pdict \<Rightarrow> pdict \<Rightarrow> pdict \<Rightarrow> GitWebhookReceivedBody \<Rightarrow> Diff \<Rightarrow> (string \<times> string) list" where
  "expected_pairs record pr merge workflow request diff =
    (let tx = (\<lambda>d key. stripped (pget d key))
     in [(tx record ''workspace_id'', df_workspace_id diff),
         (tx record ''correlation_id'', gw_correlation_id request),
         (tx merge ''pr_url'', tx pr ''url''),
         (tx merge ''head_sha'', tx pr ''head_sha''),
         (tx merge ''merge_commit_sha'', gw_commit_sha request),
         (tx merge ''workflow_run_id'', gw_workflow_run_id request),
         (tx merge ''repository_id'', gw_repository_id request),
         (tx merge ''binding_id'', gw_binding_id request),
         (tx merge ''application_id'', gw_application_id request),
         (tx merge ''cluster_id'', gw_cluster_id request),
         (tx pr ''repository_id'', gw_repository_id request),
         (py_casefold (tx pr ''repo_ref''), py_casefold (gw_repo_ref request)),
         (tx pr ''base_branch'', gw_branch request),
         (tx pr ''binding_id'', gw_binding_id request),
         (tx pr ''application_id'', gw_application_id request),
         (tx pr ''environment'', gw_environment request),
         (tx pr ''cluster_id'', gw_cluster_id request),
         (tx pr ''manifest_path'', gw_manifest_path request),
         (gw_workspace_id request, df_workspace_id diff),
         (gw_repository_id request, df_repository_id diff),
         (gw_binding_id request, df_binding_id diff),
         (gw_application_id request, df_application_id diff),
         (gw_workflow_run_id request, df_workflow_run_id diff),
         (gw_environment request, df_environment diff),
         (gw_cluster_id request, df_cluster_id diff),
         (gw_manifest_path request, df_manifest_path diff),
         (tx workflow ''workflow_run_id'', gw_workflow_run_id request),
         (tx workflow ''workspace_id'', gw_workspace_id request),
         (tx workflow ''binding_id'', gw_binding_id request),
         (tx workflow ''application_id'', gw_application_id request),
         (tx workflow ''environment'', gw_environment request),
         (tx workflow ''cluster_id'', gw_cluster_id request),
         (tx workflow ''commit_sha'', gw_commit_sha request)])"

text \<open>
  A database handle: the two readers it may have, the plan by workspace, workflow run, binding and
  application, the workflow run by its id.
\<close>

record recovery_db =
  get_recovery_plan_for_workflow :: "(string \<Rightarrow> string \<Rightarrow> string \<Rightarrow> string \<Rightarrow> py) option"
  get_workflow_run :: "(string \<Rightarrow> py) option"

definition request_admitted ::
  "pdict \<Rightarrow> pdict \<Rightarrow> pdict \<Rightarrow> pdict \<Rightarrow> GitWebhookReceivedBody \<Rightarrow> Diff \<Rightarrow> bool" where
  "request_admitted record payload pr workflow request diff =
    (let merge = mapping (pget (plan_lifecycle payload) ''merge'');
         approved_replicas = approved_replica_count payload
     in gw_force request \<and> py_strip (gw_image request) \<noteq> [] \<and> 0 < gw_replicas request
        \<and> (case approved_replicas of None \<Rightarrow> True | Some n \<Rightarrow> gw_replicas request = n)
        \<and> stripped (pget pr ''url'') \<noteq> [] \<and> stripped (pget pr ''head_sha'') \<noteq> []
        \<and> stripped (pget merge ''merge_commit_sha'') \<noteq> []
        \<and> stripped (pget workflow ''status'') \<in> set workflow_statuses
        \<and> list_all (\<lambda>(actual, wanted). actual \<noteq> [] \<and> actual = wanted)
            (expected_pairs record pr merge workflow request diff))"

definition exact_merged_recovery_request ::
  "(string list \<Rightarrow> string list) \<Rightarrow> recovery_db \<Rightarrow> Diff \<Rightarrow> GitWebhookReceivedBody option res" where
  "exact_merged_recovery_request order db diff =
    (case (get_recovery_plan_for_workflow db, get_workflow_run db) of
       (Some plan_reader, Some workflow_reader) \<Rightarrow>
         (case plan_reader (df_workspace_id diff) (df_workflow_run_id diff) (df_binding_id diff)
                 (df_application_id diff) of
            PDict record \<Rightarrow>
              (let payload = mapping (pget record ''payload'');
                   lifecycle = plan_lifecycle payload;
                   pr = mapping (pget lifecycle ''pr'');
                   merge = mapping (pget lifecycle ''merge'');
                   raw_request = mapping (pget merge ''deployment_request'')
               in if stripped (pget record ''status'') \<noteq> RECOVERY_DEPLOY_PENDING
                     \<or> stripped (pget record ''selected_action_id'') = []
                     \<or> stripped (pget payload ''execution_route'') \<noteq> RECOVERY_SAFE_PR_ROUTE
                     \<or> stripped (pget lifecycle ''phase'') \<noteq> RECOVERY_DEPLOY_PENDING
                  then Inr None
                  else rbind (recovery_diff_matches_approved_scope order payload diff) (\<lambda>in_scope.
                    if \<not> in_scope then Inr None
                    else
                      (case webhook_from_body raw_request of
                         Inl TypeError \<Rightarrow> Inr None
                       | Inl (ValueError _) \<Rightarrow> Inr None
                       | Inl (EventBodyDecodeError _) \<Rightarrow> Inr None
                       | Inl e \<Rightarrow> Inl e
                       | Inr request \<Rightarrow>
                           (case workflow_reader (df_workflow_run_id diff) of
                              PDict workflow \<Rightarrow>
                                Inr (if request_admitted record payload pr workflow request diff
                                     then Some request else None)
                            | _ \<Rightarrow> Inr None))))
          | _ \<Rightarrow> Inr None)
     | _ \<Rightarrow> Inr None)"

record RecoveryMergeAuthorization =
  ra_tracked :: bool
  ra_request :: "GitWebhookReceivedBody option"

definition recovery_merge_authorization ::
  "(string list \<Rightarrow> string list) \<Rightarrow> recovery_db \<Rightarrow> Diff \<Rightarrow> RecoveryMergeAuthorization res" where
  "recovery_merge_authorization order db diff =
    (case get_recovery_plan_for_workflow db of
       None \<Rightarrow> Inr \<lparr>ra_tracked = False, ra_request = None\<rparr>
     | Some plan_reader \<Rightarrow>
         (case plan_reader (df_workspace_id diff) (df_workflow_run_id diff) (df_binding_id diff)
                 (df_application_id diff) of
            PDict record \<Rightarrow>
              rmap (\<lambda>request. \<lparr>ra_tracked = True, ra_request = request\<rparr>)
                (exact_merged_recovery_request order db diff)
          | _ \<Rightarrow> Inr \<lparr>ra_tracked = False, ra_request = None\<rparr>))"

subsection \<open>The contract of the approval\<close>

definition contract_ok :: "approved_changes \<Rightarrow> bool" where
  "contract_ok approved \<longleftrightarrow> dict_ok approved
    \<and> (\<forall>(path, current, desired) \<in> set approved. field_path_segments path \<noteq> []
        \<and> scalar_value current \<and> scalar_value desired \<and> \<not> same_scalar current desired)"

lemma collect_approved_ok:
  "collect_approved raws acc = Some approved \<Longrightarrow> contract_ok acc \<Longrightarrow>
    contract_ok approved \<and> length approved = length acc + length raws"
proof (induction raws arbitrary: acc)
  case (Cons raw raws)
  then obtain item where raw: "raw = PDict item" by (cases raw) auto
  let ?path = "stripped (pget item ''field_path'')"
  let ?c = "pget item ''current_value''" and ?d = "pget item ''desired_value''"
  have g: "\<not> dict_has acc ?path" "field_path_segments ?path \<noteq> []" "scalar_value ?c" "scalar_value ?d"
      "\<not> same_scalar ?c ?d" "collect_approved raws (dict_set acc ?path (?c, ?d)) = Some approved"
    using Cons.prems(1) by (auto simp: raw Let_def split: if_splits)
  have "dict_set acc ?path (?c, ?d) = acc @ [(?path, ?c, ?d)]"
    using g(1) by (intro dict_set_new) (simp add: dict_has_def)
  moreover have "contract_ok (acc @ [(?path, ?c, ?d)])"
    using Cons.prems(2) g(1-5) by (auto simp: contract_ok_def dict_has_def)
  ultimately show ?case using Cons.IH g(6) by fastforce
qed simp

lemma approved_contract_ok:
  assumes "approved_change_contract payload = Some approved"
  shows "contract_ok approved \<and> 1 \<le> length approved \<and> length approved \<le> 4"
proof -
  obtain raws where "1 \<le> length raws" "length raws \<le> 4" "collect_approved raws [] = Some approved"
    using assms by (auto simp: approved_change_contract_def split: py.splits if_splits)
  then show ?thesis using collect_approved_ok [of raws "[]" approved] by (simp add: contract_ok_def)
qed

subsection \<open>The projection of approved changes\<close>

definition rel_segments :: "string \<Rightarrow> string \<Rightarrow> FieldPathSegment list" where
  "rel_segments parent_path path = field_path_segments (drop (length parent_path + 1) path)"

lemma same_scalar_scalar: "same_scalar v c \<Longrightarrow> scalar_value c \<Longrightarrow> scalar_value v"
  by (cases v; cases c) (auto simp: same_scalar_def)

lemma projection_step_Inr:
  assumes "projection_step parent obj (path, current, desired) = Inr obj'"
    and "prefix (parent @ ''.'') path"
  obtains v where "rel_segments parent path \<noteq> []"
    "object_value_at obj (rel_segments parent path) = Inr v" "same_scalar v current"
    "set_object_value obj (rel_segments parent path) desired = Inr obj'"
  using assms
  by (auto simp: projection_step_def rel_segments_def Let_def rbind_Inr_iff split: if_splits)

lemma rel_segments_inj:
  assumes "prefix (parent @ ''.'') p" "prefix (parent @ ''.'') q"
    and "rel_segments parent p = rel_segments parent q" "rel_segments parent p \<noteq> []"
  shows "p = q"
proof -
  obtain x y where "p = (parent @ ''.'') @ x" "q = (parent @ ''.'') @ y"
    using assms(1,2) by (auto simp: prefix_def)
  with assms(3,4) show ?thesis
    using field_path_segments_inj [of x y] by (simp add: rel_segments_def)
qed

definition scoped_ok :: "string \<Rightarrow> approved_changes \<Rightarrow> bool" where
  "scoped_ok parent scoped \<longleftrightarrow> distinct (map fst scoped)
    \<and> (\<forall>(path, current, desired) \<in> set scoped. prefix (parent @ ''.'') path
        \<and> scalar_value current \<and> scalar_value desired \<and> \<not> same_scalar current desired
        \<and> (\<exists>obj v. object_value_at obj (rel_segments parent path) = Inr v \<and> same_scalar v desired))"

lemma same_scalar_PStr: "same_scalar (PStr s) v \<longleftrightarrow> v = PStr s"
  by (auto simp: same_scalar_def)

text \<open>
  An approved change below the parent never replaces the name by which its item is selected: both
  its current and its desired value would have to be that name.
\<close>

lemma scoped_keeps_selection:
  assumes "scoped_ok parent scoped" and "(path, current, desired) \<in> set scoped"
    and "object_value_at obj (rel_segments parent path) = Inr v" and "same_scalar v current"
  shows "keeps_selection (rel_segments parent path)"
proof (rule ccontr)
  assume "\<not> keeps_selection (rel_segments parent path)"
  then obtain name where n: "\<forall>obj v. object_value_at obj (rel_segments parent path) = Inr v \<longrightarrow> v = PStr name"
    using selecting_name_reads_itself by blast
  obtain obj' v' where "object_value_at obj' (rel_segments parent path) = Inr v'" "same_scalar v' desired"
      "\<not> same_scalar current desired"
    using assms(1,2) by (fastforce simp: scoped_ok_def)
  moreover from this(1) assms(3) n have "v' = PStr name" "v = PStr name" by blast+
  ultimately show False using assms(4) by (simp add: same_scalar_PStr)
qed

text \<open>The changes a projection has made so far, and nothing else.\<close>

definition made :: "string \<Rightarrow> approved_changes \<Rightarrow> py \<Rightarrow> py \<Rightarrow> bool" where
  "made parent scoped source obj \<longleftrightarrow>
    (\<forall>(path, current, desired) \<in> set scoped. rel_segments parent path \<noteq> []
        \<and> object_value_at obj (rel_segments parent path) = Inr desired
        \<and> (\<exists>v. object_value_at source (rel_segments parent path) = Inr v \<and> same_scalar v current))
    \<and> (\<forall>q. (\<forall>(path, _) \<in> set scoped. diverge (rel_segments parent path) q) \<longrightarrow>
        object_value_at obj q = object_value_at source q)"

lemma made_step:
  assumes "made parent scoped source obj" and "scoped_ok parent (scoped @ [(path, current, desired)])"
    and "projection_step parent obj (path, current, desired) = Inr obj'"
  shows "made parent (scoped @ [(path, current, desired)]) source obj'"
proof -
  let ?rel = "rel_segments parent"
  have p: "prefix (parent @ ''.'') path" "scalar_value current"
    using assms(2) by (auto simp: scoped_ok_def)
  obtain v where v: "?rel path \<noteq> []" "object_value_at obj (?rel path) = Inr v" "same_scalar v current"
      "set_object_value obj (?rel path) desired = Inr obj'"
    using assms(3) p(1) by (rule projection_step_Inr)
  have sv: "scalar_value v" using v(3) p(2) by (rule same_scalar_scalar)
  have keeps: "keeps_selection (?rel path)"
    by (rule scoped_keeps_selection [OF assms(2) _ v(2,3), of desired]) simp
  have d: "diverge (?rel path) (?rel path')" if "(path', c', d') \<in> set scoped" for path' c' d'
  proof (rule scalar_paths_diverge [OF v(2) sv])
    show "object_value_at obj (?rel path') = Inr d'" using that assms(1) by (auto simp: made_def)
    show "scalar_value d'" using that assms(2) by (auto simp: scoped_ok_def)
    have "path' \<noteq> path" "prefix (parent @ ''.'') path'"
      using that assms(2) by (auto simp: scoped_ok_def rev_image_eqI)
    then show "?rel path \<noteq> ?rel path'" using rel_segments_inj [OF p(1)] v(1) by metis
  qed
  have other: "object_value_at obj' q = object_value_at obj q" if "diverge (?rel path) q" for q
    using v(4) keeps that by (rule get_set_other)
  have src: "object_value_at source (?rel path) = Inr v"
  proof -
    have "\<forall>(path', _) \<in> set scoped. diverge (?rel path') (?rel path)"
      using d diverge_sym by fast
    then show ?thesis using assms(1) v(2) by (simp add: made_def)
  qed
  show ?thesis
    unfolding made_def
  proof (intro conjI ballI allI impI)
    fix e assume "e \<in> set (scoped @ [(path, current, desired)])"
    then consider "e = (path, current, desired)" | "e \<in> set scoped" by auto
    then show "case e of (path, current, desired) \<Rightarrow> ?rel path \<noteq> []
        \<and> object_value_at obj' (?rel path) = Inr desired
        \<and> (\<exists>v. object_value_at source (?rel path) = Inr v \<and> same_scalar v current)"
    proof cases
      case 1
      then show ?thesis using get_set [OF v(4) keeps] v(1,3) src by auto
    next
      case 2
      then show ?thesis using assms(1) d other unfolding made_def by fastforce
    qed
  next
    fix q assume "\<forall>(path, _) \<in> set (scoped @ [(path, current, desired)]). diverge (?rel path) q"
    then show "object_value_at obj' q = object_value_at source q"
      using other assms(1) unfolding made_def by simp
  qed
qed

lemma made_all:
  "rfold (projection_step parent) source scoped = Inr obj \<Longrightarrow> scoped_ok parent scoped \<Longrightarrow>
    made parent scoped source obj"
proof (induction scoped arbitrary: obj rule: rev_induct)
  case Nil
  then show ?case by (simp add: made_def)
next
  case (snoc e scoped)
  obtain path c d where e: "e = (path, c, d)" by (cases e) auto
  obtain mid where "rfold (projection_step parent) source scoped = Inr mid"
      "projection_step parent mid e = Inr obj"
    using snoc.prems(1) by (auto simp: rfold_append rbind_Inr_iff)
  moreover have "scoped_ok parent scoped" using snoc.prems(2) by (auto simp: scoped_ok_def)
  ultimately show ?case using snoc.IH made_step snoc.prems(2) e by blast
qed

subsection \<open>The scope of a diff\<close>

definition change_path :: "pdict \<Rightarrow> string" where
  "change_path change = stripped (pget change ''field_path'')"

definition change_class :: "pdict \<Rightarrow> string" where
  "change_class change = stripped (pget change ''classification'')"

definition at_or_below :: "string \<Rightarrow> string \<Rightarrow> bool" where
  "at_or_below parent path \<longleftrightarrow> path = parent \<or> prefix (parent @ ''.'') path"

text \<open>
  A change that an approval covers: nothing is left to do, or an approved field goes from its
  approved current value to its desired value, or the value of a parent becomes its projection by
  the approved changes below it.
\<close>

definition within_approval :: "approved_changes \<Rightarrow> pdict \<Rightarrow> bool" where
  "within_approval approved change \<longleftrightarrow>
    change_class change = ALREADY_CONVERGED
    \<or> change_class change = INTENDED_CHANGE
      \<and> ((\<exists>current desired. (change_path change, current, desired) \<in> set approved
            \<and> same_scalar (pget change ''before'') current
            \<and> same_scalar (pget change ''after'') desired)
         \<or> (\<exists>scoped projected.
              mset scoped = mset (filter (\<lambda>e. at_or_below (change_path change) (fst e)) approved)
            \<and> projected_parent_value (pget change ''before'') (change_path change) scoped = Inr projected
            \<and> py_eq projected (pget change ''after'')))"

abbreviation arranges :: "(string list \<Rightarrow> string list) \<Rightarrow> bool" where
  "arranges order \<equiv> (\<forall>xs. mset (order xs) = mset xs)"

lemma except_patch_error_True: "except_patch_error m = Inr True \<longleftrightarrow> m = Inr True"
  by (auto simp: except_patch_error_def split: sum.splits exn.splits)

lemma scoped_is_filter:
  assumes "dict_ok approved" and "mset ps = mset (filter P (map fst approved))"
  shows "mset (map (\<lambda>path. (path, the (dict_get approved path))) ps)
    = mset (filter (\<lambda>e. P (fst e)) approved)"
proof -
  let ?f = "\<lambda>path. (path, the (dict_get approved path))"
  have "mset (map ?f ps) = mset (map ?f (filter P (map fst approved)))"
    by (metis assms(2) mset_map)
  also have "map ?f (filter P (map fst approved)) = filter (\<lambda>e. P (fst e)) approved"
    using assms(1) by (simp add: filter_map comp_def) (force intro!: map_idI)
  finally show ?thesis .
qed

lemma matched_within:
  assumes "approved_change_matches_diff order change approved = Inr (Some paths)"
    and "contract_ok approved" and "arranges order"
  shows "within_approval approved change
    \<and> paths = filter (\<lambda>path. at_or_below (change_path change) path) (map fst approved)"
proof -
  let ?path = "change_path change" and ?cl = "change_class change"
  let ?matched = "filter (\<lambda>path. at_or_below ?path path) (map fst approved)"
  have m: "approved_change_matches_diff order change approved =
      (if ?matched = [] then Inr (if ?cl = ALREADY_CONVERGED then Some [] else None)
       else if ?cl \<notin> {INTENDED_CHANGE, ALREADY_CONVERGED} then Inr None
       else if set ?matched = {?path}
       then (case dict_get approved ?path of
             None \<Rightarrow> Inl KeyError
           | Some (current, desired) \<Rightarrow>
               Inr (if same_scalar (pget change ''old_desired'') current
                  \<and> same_scalar (pget change ''before'')
                      (if ?cl = INTENDED_CHANGE then current else desired)
                  \<and> same_scalar (pget change ''after'') desired then Some ?matched else None))
       else
          (let scoped = map (\<lambda>path. (path, the (dict_get approved path))) (order ?matched)
           in rmap (\<lambda>valid. if valid then Some ?matched else None) (except_patch_error
                (if ?cl = INTENDED_CHANGE
                 then if py_eq (pget change ''old_desired'') (pget change ''before'')
                      then rmap (\<lambda>projected. py_eq projected (pget change ''after''))
                             (projected_parent_value (pget change ''before'') ?path scoped)
                      else Inr False
                 else rmap (\<lambda>projected. py_eq projected (pget change ''before'')
                          \<and> py_eq (pget change ''before'') (pget change ''after''))
                        (projected_parent_value (pget change ''old_desired'') ?path scoped)))))"
    by (simp only: approved_change_matches_diff_def Let_def change_path_def change_class_def at_or_below_def)
  have "?cl = ALREADY_CONVERGED \<or> ?cl = INTENDED_CHANGE" and p: "paths = ?matched"
    using assms(1) unfolding m
    by (auto simp: Let_def rmap_Inr_iff split: if_split_asm option.splits)
  moreover have "within_approval approved change" if c: "?cl = INTENDED_CHANGE"
  proof (cases "set ?matched = {?path}")
    case True
    then obtain current desired where "dict_get approved ?path = Some (current, desired)"
        "same_scalar (pget change ''before'') current" "same_scalar (pget change ''after'') desired"
      using assms(1) c unfolding m by (auto split: if_split_asm option.splits simp: ALREADY_CONVERGED_def INTENDED_CHANGE_def)
    then show ?thesis unfolding within_approval_def using c by (meson map_of_SomeD)
  next
    case False
    let ?scoped = "map (\<lambda>path. (path, the (dict_get approved path))) (order ?matched)"
    have "?cl \<noteq> ALREADY_CONVERGED" using c by (simp add: ALREADY_CONVERGED_def INTENDED_CHANGE_def)
    then have "except_patch_error
          (if py_eq (pget change ''old_desired'') (pget change ''before'')
           then rmap (\<lambda>projected. py_eq projected (pget change ''after''))
             (projected_parent_value (pget change ''before'') ?path ?scoped)
           else Inr False) = Inr True"
      using assms(1) c False unfolding m by (simp add: Let_def rmap_Inr_iff split: if_split_asm)
    then obtain projected where
        "projected_parent_value (pget change ''before'') ?path ?scoped = Inr projected"
        "py_eq projected (pget change ''after'')"
      by (auto simp: except_patch_error_True rmap_Inr_iff split: if_split_asm)
    moreover have "mset ?scoped = mset (filter (\<lambda>e. at_or_below ?path (fst e)) approved)"
      using assms(2,3) by (intro scoped_is_filter) (simp_all add: contract_ok_def)
    ultimately show ?thesis unfolding within_approval_def using c by blast
  qed
  ultimately show ?thesis by (auto simp: within_approval_def)
qed

lemma covered_by_Some:
  assumes "covered_by order approved changes covered intended = Inr (Some (covered', intended'))"
    and "contract_ok approved" and "arranges order"
  shows "(\<forall>raw \<in> set changes. \<exists>change. raw = PDict change \<and> within_approval approved change)
    \<and> set covered' = set covered \<union> {path \<in> set (map fst approved).
        \<exists>change. PDict change \<in> set changes \<and> at_or_below (change_path change) path}
    \<and> (intended < intended' \<longrightarrow> (\<exists>change. PDict change \<in> set changes
        \<and> change_class change = INTENDED_CHANGE))"
  using assms(1)
proof (induction changes arbitrary: covered intended)
  case (Cons raw changes)
  then obtain change where raw: "raw = PDict change" by (cases raw) auto
  obtain paths where p: "approved_change_matches_diff order change approved = Inr (Some paths)"
      "covered_by order approved changes (covered @ paths)
         (if paths \<noteq> [] \<and> change_class change = INTENDED_CHANGE then intended + 1 else intended)
       = Inr (Some (covered', intended'))"
    using Cons.prems by (auto simp: raw rbind_Inr_iff change_class_def split: option.splits)
  note w = matched_within [OF p(1) assms(2,3)] and ih = Cons.IH [OF p(2)]
  show ?case
  proof (intro conjI)
    show "\<forall>r \<in> set (raw # changes). \<exists>change. r = PDict change \<and> within_approval approved change"
      using ih w raw by auto
    show "set covered' = set covered \<union> {path \<in> set (map fst approved).
        \<exists>change. PDict change \<in> set (raw # changes) \<and> at_or_below (change_path change) path}"
      using ih w raw by auto
    show "intended < intended' \<longrightarrow> (\<exists>change. PDict change \<in> set (raw # changes)
        \<and> change_class change = INTENDED_CHANGE)"
      using ih raw by (auto split: if_split_asm)
  qed
qed simp

lemma holds_desired_True:
  assumes "holds_desired obj approved = Inr True" and "(path, current, desired) \<in> set approved"
  shows "\<exists>v. object_value_at obj (field_path_segments path) = Inr v \<and> same_scalar v desired"
proof -
  have "rany (\<lambda>(field_path, current, desired_value).
      rmap (\<lambda>v. \<not> same_scalar v desired_value) (object_value_at obj (field_path_segments field_path)))
      approved = Inr False"
    using assms(1) by (auto simp: holds_desired_def split: sum.splits exn.splits)
  then have "rmap (\<lambda>v. \<not> same_scalar v desired) (object_value_at obj (field_path_segments path)) = Inr False"
    using assms(2) unfolding rany_Inr_False by fastforce
  then show ?thesis by (auto simp: rmap_Inr_iff)
qed

lemma scope_cases:
  assumes "recovery_diff_matches_approved_scope order payload diff = Inr True"
  obtains approved where "approved_change_contract payload = Some approved"
    "holds_desired (PDict (mapping (df_desired_manifest diff))) approved = Inr True"
    "if df_has_changes diff
     then \<exists>covered intended. covered_by order approved (df_changes diff) [] 0
            = Inr (Some (covered, intended)) \<and> 0 < intended \<and> set covered = set (map fst approved)
     else list_all (\<lambda>raw. is_mapping raw \<and> change_class (mapping raw) = ALREADY_CONVERGED)
            (df_changes diff)"
proof -
  obtain approved where a: "approved_change_contract payload = Some approved"
      "rbind (holds_desired (PDict (mapping (df_desired_manifest diff))) approved) (\<lambda>held.
              if \<not> held then Inr False
              else if \<not> df_has_changes diff
              then Inr (df_status diff \<in> {''already_converged'', ''no_change''}
                \<and> list_all (\<lambda>raw. is_mapping raw
                     \<and> stripped (pget (mapping raw) ''classification'') = ALREADY_CONVERGED)
                   (df_changes diff))
              else rmap (\<lambda>result.
                     case result of
                       None \<Rightarrow> False
                     | Some (covered, intended) \<Rightarrow>
                         0 < intended \<and> set covered = set (map fst approved))
                   (covered_by order approved (df_changes diff) [] 0)) = Inr True"
    using assms unfolding recovery_diff_matches_approved_scope_def Let_def
    by (auto split: option.splits if_split_asm prod.splits)
  then obtain held where h: "holds_desired (PDict (mapping (df_desired_manifest diff))) approved = Inr held"
    by (auto simp: rbind_Inr_iff)
  with a(2) have "held" by (cases held) auto
  with a h show thesis
    by (intro that [of approved])
      (auto simp: rmap_Inr_iff change_class_def split: if_split_asm option.splits)
qed

text \<open>
  C6. A diff with changes that is let through without a second approval is the approved change: the
  approval names one to four distinct scalar fields; the desired manifest holds the desired value
  of each; every change of the diff is covered by the approval, every approved field lies at or
  below some change of the diff, and at least one change is intended.
\<close>

theorem authorized_diff_is_the_approved_change:
  assumes "recovery_diff_matches_approved_scope order payload diff = Inr True"
    and "df_has_changes diff" and "arranges order"
  shows "\<exists>approved. approved_change_contract payload = Some approved
    \<and> 1 \<le> length approved \<and> length approved \<le> 4 \<and> contract_ok approved
    \<and> (\<forall>(path, current, desired) \<in> set approved. \<exists>v. same_scalar v desired \<and>
        object_value_at (PDict (mapping (df_desired_manifest diff))) (field_path_segments path) = Inr v)
    \<and> (\<forall>raw \<in> set (df_changes diff). \<exists>change. raw = PDict change \<and> within_approval approved change)
    \<and> (\<forall>path \<in> set (map fst approved). \<exists>change. PDict change \<in> set (df_changes diff)
        \<and> at_or_below (change_path change) path)
    \<and> (\<exists>change. PDict change \<in> set (df_changes diff) \<and> change_class change = INTENDED_CHANGE)"
proof -
  obtain approved where a: "approved_change_contract payload = Some approved"
      "holds_desired (PDict (mapping (df_desired_manifest diff))) approved = Inr True"
      "if df_has_changes diff
       then \<exists>covered intended. covered_by order approved (df_changes diff) [] 0
            = Inr (Some (covered, intended)) \<and> 0 < intended \<and> set covered = set (map fst approved)
       else list_all (\<lambda>raw. is_mapping raw \<and> change_class (mapping raw) = ALREADY_CONVERGED)
            (df_changes diff)"
    by (rule scope_cases [OF assms(1)])
  from a(3) [unfolded if_P [OF assms(2)]] obtain covered intended where
      c: "covered_by order approved (df_changes diff) [] 0 = Inr (Some (covered, intended))"
        "0 < intended" "set covered = set (map fst approved)"
    by (elim exE conjE)
  note ok = approved_contract_ok [OF a(1)]
  note b = covered_by_Some [OF c(1) conjunct1 [OF ok] assms(3)]
  obtain change where i: "PDict change \<in> set (df_changes diff)" "change_class change = INTENDED_CHANGE"
    using b c(2) by blast
  show ?thesis
  proof (rule exI [of _ approved], intro conjI)
    show "approved_change_contract payload = Some approved" by (rule a(1))
    show "1 \<le> length approved" "length approved \<le> 4" "contract_ok approved" using ok by blast+
    show "\<forall>(path, current, desired) \<in> set approved. \<exists>v. same_scalar v desired \<and>
        object_value_at (PDict (mapping (df_desired_manifest diff))) (field_path_segments path) = Inr v"
    proof clarify
      fix path current desired assume "(path, current, desired) \<in> set approved"
      from holds_desired_True [OF a(2) this] show "\<exists>v. same_scalar v desired \<and>
        object_value_at (PDict (mapping (df_desired_manifest diff))) (field_path_segments path) = Inr v"
        by blast
    qed
    show "\<forall>raw \<in> set (df_changes diff). \<exists>change. raw = PDict change \<and> within_approval approved change"
      using b by blast
    have "path \<in> {path \<in> set (map fst approved).
        \<exists>change. PDict change \<in> set (df_changes diff) \<and> at_or_below (change_path change) path}"
      if "path \<in> set (map fst approved)" for path
      using that b unfolding c(3) by (simp only: list.set(1) Un_empty_left)
    then show "\<forall>path \<in> set (map fst approved). \<exists>change. PDict change \<in> set (df_changes diff)
        \<and> at_or_below (change_path change) path"
      by blast
    show "\<exists>change. PDict change \<in> set (df_changes diff) \<and> change_class change = INTENDED_CHANGE"
      using i by blast
  qed
qed

subsection \<open>What an intended change of a parent changes\<close>

lemma below_segments:
  assumes "contract_ok approved" and "(path, current, desired) \<in> set approved"
    and "prefix (parent @ ''.'') path"
    and "rel_segments parent path \<noteq> [] \<or> field_path_segments parent \<noteq> []"
  shows "field_path_segments path = field_path_segments parent @ rel_segments parent path"
    and "rel_segments parent path \<noteq> []"
proof -
  obtain r where r: "path = parent @ ''.'' @ r" using assms(3) by (auto simp: prefix_def)
  moreover have "field_path_segments path \<noteq> []" using assms(1,2) by (auto simp: contract_ok_def)
  moreover have "rel_segments parent path = field_path_segments r" by (simp add: r rel_segments_def)
  ultimately show "field_path_segments path = field_path_segments parent @ rel_segments parent path"
      "rel_segments parent path \<noteq> []"
    using field_path_below [of parent r] assms(4) by auto
qed

text \<open>
  When the desired manifest holds all desired values, no approved path is the parent of another.
\<close>

lemma parent_not_approved:
  assumes "contract_ok approved" and "holds_desired obj approved = Inr True"
    and "(path, current, desired) \<in> set approved" and "prefix (parent @ ''.'') path"
  shows "(parent, c, d) \<notin> set approved"
proof
  assume parent: "(parent, c, d) \<in> set approved"
  have "scalar_value d" "field_path_segments parent \<noteq> []" using assms(1) parent by (auto simp: contract_ok_def)
  note rel = below_segments [OF assms(1,3,4) disjI2 [OF this(2)]]
  obtain v where v: "object_value_at obj (field_path_segments path) = Inr v"
    using holds_desired_True [OF assms(2,3)] by blast
  obtain w where w: "object_value_at obj (field_path_segments parent) = Inr w" "same_scalar w d"
    using holds_desired_True [OF assms(2) parent] by blast
  have "scalar_value w" using w(2) \<open>scalar_value d\<close> by (rule same_scalar_scalar)
  moreover have "object_value_at w (rel_segments parent path) = Inr v"
    using v w(1) rel(1) by (simp add: object_value_at_append)
  ultimately show False using rel(2) scalar_at_Cons by blast
qed

lemma projection_rel_nonempty:
  assumes "rfold (projection_step parent) source scoped = Inr projected"
    and "(path, current, desired) \<in> set scoped" and "prefix (parent @ ''.'') path"
  shows "rel_segments parent path \<noteq> []"
  using assms(1,2)
proof (induction scoped arbitrary: source)
  case (Cons e scoped)
  then obtain mid where m: "projection_step parent source e = Inr mid"
      "rfold (projection_step parent) mid scoped = Inr projected"
    by (auto simp: rbind_Inr_iff)
  show ?case
  proof (cases "e = (path, current, desired)")
    case True
    with m(1) show ?thesis by (metis assms(3) projection_step_Inr)
  next
    case False
    with Cons m(2) show ?thesis by auto
  qed
qed simp

lemma scoped_ok_below:
  assumes "contract_ok approved" and "holds_desired obj approved = Inr True"
    and "mset scoped = mset (filter (\<lambda>e. at_or_below parent (fst e)) approved)"
    and "rfold (projection_step parent) source scoped = Inr projected"
    and "(below, c0, d0) \<in> set approved" and "prefix (parent @ ''.'') below"
  shows "scoped_ok parent scoped"
proof -
  have mem: "e \<in> set scoped \<longleftrightarrow> e \<in> set approved \<and> at_or_below parent (fst e)" for e
    using mset_eq_setD [OF assms(3)] by auto
  have "distinct (map fst scoped)"
  proof -
    have "mset (map fst scoped) = mset (map fst (filter (\<lambda>e. at_or_below parent (fst e)) approved))"
      by (metis assms(3) mset_map)
    moreover have "distinct (map fst (filter (\<lambda>e. at_or_below parent (fst e)) approved))"
      using assms(1) by (auto simp: contract_ok_def distinct_map inj_on_def)
    ultimately show ?thesis by (metis mset_eq_imp_distinct_iff)
  qed
  moreover have "prefix (parent @ ''.'') path \<and> scalar_value current \<and> scalar_value desired
      \<and> \<not> same_scalar current desired
      \<and> (\<exists>obj v. object_value_at obj (rel_segments parent path) = Inr v \<and> same_scalar v desired)"
    if e: "(path, current, desired) \<in> set scoped" for path current desired
  proof -
    have a: "(path, current, desired) \<in> set approved" "at_or_below parent path" using mem e by auto
    have "path \<noteq> parent" using parent_not_approved [OF assms(1,2,5,6)] a(1) by blast
    then have p: "prefix (parent @ ''.'') path" using a(2) by (simp add: at_or_below_def)
    have rel: "rel_segments parent path \<noteq> []" by (rule projection_rel_nonempty [OF assms(4) e p])
    obtain v where v: "object_value_at obj (field_path_segments path) = Inr v" "same_scalar v desired"
      using holds_desired_True [OF assms(2) a(1)] by blast
    then have "\<exists>x. object_value_at x (rel_segments parent path) = Inr v"
      using below_segments(1) [OF assms(1) a(1) p disjI1 [OF rel]] by (auto simp: object_value_at_append rbind_Inr_iff)
    with v(2) p a(1) assms(1) show ?thesis by (auto simp: contract_ok_def)
  qed
  ultimately show ?thesis unfolding scoped_ok_def by fast
qed

text \<open>
  C8. An intended change of a parent object that is let through makes the approved changes below it
  and no other. Take a diff with changes that is in the approved scope, one of its intended changes
  and an approved field strictly below that change. Then the value after the change equals a
  value with these properties: each approved field below the change held its approved current
  value before and holds its desired value in it, and every field whose path parts from all of them
  reads as it did before.
\<close>

theorem projection_changes_only_approved:
  assumes "recovery_diff_matches_approved_scope order payload diff = Inr True"
    and "df_has_changes diff" and "arranges order"
    and "approved_change_contract payload = Some approved"
    and "PDict change \<in> set (df_changes diff)" and "change_class change = INTENDED_CHANGE"
    and "(below, c0, d0) \<in> set approved" and "prefix (change_path change @ ''.'') below"
  shows "\<exists>projected. py_eq projected (pget change ''after'')
    \<and> (\<forall>(path, current, desired) \<in> set approved. prefix (change_path change @ ''.'') path \<longrightarrow>
        (\<exists>v. object_value_at (pget change ''before'') (rel_segments (change_path change) path) = Inr v
          \<and> same_scalar v current)
        \<and> object_value_at projected (rel_segments (change_path change) path) = Inr desired)
    \<and> (\<forall>q. (\<forall>(path, _) \<in> set approved. prefix (change_path change @ ''.'') path \<longrightarrow>
            diverge (rel_segments (change_path change) path) q) \<longrightarrow>
        object_value_at projected q = object_value_at (pget change ''before'') q)"
proof -
  let ?parent = "change_path change"
  obtain covered intended where held: "holds_desired (PDict (mapping (df_desired_manifest diff))) approved = Inr True"
    and c: "covered_by order approved (df_changes diff) [] 0 = Inr (Some (covered, intended))"
  proof (rule scope_cases [OF assms(1)])
    fix approved'
    assume "approved_change_contract payload = Some approved'"
    then have "approved' = approved" using assms(4) by simp
    moreover assume "holds_desired (PDict (mapping (df_desired_manifest diff))) approved' = Inr True"
      and "if df_has_changes diff
       then \<exists>covered intended. covered_by order approved' (df_changes diff) [] 0
              = Inr (Some (covered, intended)) \<and> 0 < intended \<and> set covered = set (map fst approved')
       else list_all (\<lambda>raw. is_mapping raw \<and> change_class (mapping raw) = ALREADY_CONVERGED)
              (df_changes diff)"
    ultimately show thesis using that unfolding if_P [OF assms(2)] by blast
  qed
  note ok = conjunct1 [OF approved_contract_ok [OF assms(4)]]
  have "within_approval approved change"
    using covered_by_Some [OF c ok assms(3)] assms(5) by blast
  moreover have "change_class change \<noteq> ALREADY_CONVERGED"
    using assms(6) by (simp add: ALREADY_CONVERGED_def INTENDED_CHANGE_def)
  ultimately consider (itself) current desired where "(?parent, current, desired) \<in> set approved"
      "same_scalar (pget change ''before'') current"
    | (parent) scoped projected where
        "mset scoped = mset (filter (\<lambda>e. at_or_below ?parent (fst e)) approved)"
        "projected_parent_value (pget change ''before'') ?parent scoped = Inr projected"
        "py_eq projected (pget change ''after'')"
    unfolding within_approval_def by blast
  then show ?thesis
  proof cases
    case parent
    have f: "rfold (projection_step ?parent) (pget change ''before'') scoped = Inr projected"
      using parent(2) by (simp add: projected_parent_value_def split: if_splits)
    have sc: "scoped_ok ?parent scoped"
      by (rule scoped_ok_below [OF ok held parent(1) f assms(7,8)])
    have mem: "(path, cd) \<in> set scoped \<longleftrightarrow> (path, cd) \<in> set approved \<and> prefix (?parent @ ''.'') path"
      for path cd
      using mset_eq_setD [OF parent(1)] sc by (cases cd) (auto simp: scoped_ok_def at_or_below_def)
    note m = made_all [OF f sc, unfolded made_def]
    show ?thesis
    proof (intro exI [of _ projected] conjI ballI allI impI parent(3))
      fix e assume "e \<in> set approved"
      then show "case e of (path, current, desired) \<Rightarrow> prefix (?parent @ ''.'') path \<longrightarrow>
        (\<exists>v. object_value_at (pget change ''before'') (rel_segments ?parent path) = Inr v
          \<and> same_scalar v current)
        \<and> object_value_at projected (rel_segments ?parent path) = Inr desired"
        using bspec [OF conjunct1 [OF m], of e] mem [of "fst e" "snd e"] by (cases e) auto
    next
      fix q
      assume q: "\<forall>(path, _) \<in> set approved. prefix (?parent @ ''.'') path \<longrightarrow>
        diverge (rel_segments ?parent path) q"
      have "\<forall>(path, _) \<in> set scoped. diverge (rel_segments ?parent path) q"
        using q mem by blast
      then show "object_value_at projected q = object_value_at (pget change ''before'') q"
        using conjunct2 [OF m] by blast
    qed
  next
    case itself
    then show ?thesis using parent_not_approved [OF ok held assms(7,8)] by blast
  qed
qed

subsection \<open>Errors\<close>

fun patch_error :: "exn \<Rightarrow> bool" where
  "patch_error KeyError = True"
| "patch_error TypeError = True"
| "patch_error (ManifestSourcePatchError _) = True"
| "patch_error _ = False"

lemma select_named_error: "select_named name items = Inl e \<Longrightarrow> e = target_not_unique"
  by (auto simp: select_named_def split: list.splits)

lemma object_value_at_error:
  "object_value_at obj segs = Inl e \<Longrightarrow> \<exists>m. e = ManifestSourcePatchError m"
  by (induction obj segs rule: object_value_at.induct)
    (auto simp: rbind_Inl_iff split: py.splits option.splits dest: select_named_error)

lemma iterated_error: "iterated v = Inl e \<Longrightarrow> e = TypeError"
  by (cases v) auto

lemma set_object_value_error: "set_object_value obj segs v = Inl e \<Longrightarrow> segs \<noteq> [] \<Longrightarrow> patch_error e"
proof (induction obj segs v rule: set_object_value.induct)
  case (2 current final x)
  then show ?case by (auto split: option.splits py.splits)
next
  case (3 current segment seg segments x)
  then show ?case
    by (fastforce simp: rbind_Inl_iff rmap_Inl_iff split: py.splits option.splits
        dest: iterated_error select_named_error)
qed simp

lemma projection_error:
  "projected_parent_value source parent scoped = Inl e \<Longrightarrow> patch_error e"
proof -
  have step: "patch_error e" if "projection_step parent obj c = Inl e" for obj c e
    using that
    by (cases c) (auto simp: projection_step_def Let_def rbind_Inl_iff split: if_split_asm
        dest: object_value_at_error set_object_value_error)
  have "patch_error e" if "rfold (projection_step parent) obj scoped = Inl e" for obj
    using that by (induction scoped arbitrary: obj) (auto simp: rbind_Inl_iff dest: step)
  then show "projected_parent_value source parent scoped = Inl e \<Longrightarrow> patch_error e"
    by (auto simp: projected_parent_value_def split: if_split_asm)
qed

lemma except_patch_error_total: "(\<And>e. m = Inl e \<Longrightarrow> patch_error e) \<Longrightarrow> \<exists>b. except_patch_error m = Inr b"
  by (cases m; cases "projl m") (auto simp: except_patch_error_def)

lemma matches_diff_total: "\<exists>r. approved_change_matches_diff order change approved = Inr r"
proof -
  have k: "dict_get approved path \<noteq> None"
    if "set (filter (\<lambda>p. p = path \<or> prefix (path @ ''.'') p) (map fst approved)) = {path}" for path
  proof -
    have "path \<in> set (filter (\<lambda>p. p = path \<or> prefix (path @ ''.'') p) (map fst approved))"
      unfolding that by simp
    then show ?thesis by (auto simp: map_of_eq_None_iff)
  qed
  have e: "\<exists>b. except_patch_error (if c then if q then rmap f (projected_parent_value s p l) else Inr False
      else rmap g (projected_parent_value s' p l')) = Inr b" for c q f s p l g s' l'
    by (rule except_patch_error_total)
      (auto simp: rmap_Inl_iff dest: projection_error split: if_split_asm)
  have branches: "\<exists>r. (if c\<^sub>1 then Inr x else if c\<^sub>2 then Inr y
      else if c\<^sub>3 then (case found of None \<Rightarrow> Inl KeyError | Some (a, b) \<Rightarrow> Inr (h a b)) else rmap v z) = Inr r"
    if "c\<^sub>3 \<Longrightarrow> found \<noteq> None" and "\<exists>t. z = Inr t"
    for c\<^sub>1 c\<^sub>2 c\<^sub>3 x y h z and v :: "bool \<Rightarrow> string list option" and found :: "(py \<times> py) option"
    using that by (cases found) auto
  show ?thesis
    unfolding approved_change_matches_diff_def Let_def
    by (rule branches) (use k in blast, rule e)
qed

lemma covered_by_total: "\<exists>r. covered_by order approved changes covered intended = Inr r"
proof (induction changes arbitrary: covered intended)
  case (Cons raw changes)
  show ?case
  proof (cases raw)
    case (PDict change)
    obtain r where "approved_change_matches_diff order change approved = Inr r"
      using matches_diff_total by blast
    with PDict Cons.IH show ?thesis by (cases r) simp_all
  qed simp_all
qed simp

lemma holds_desired_total: "\<exists>b. holds_desired obj approved = Inr b"
proof -
  let ?f = "\<lambda>(path, current, desired).
      rmap (\<lambda>v. \<not> same_scalar v desired) (object_value_at obj (field_path_segments path))"
  have "\<exists>m. e = ManifestSourcePatchError m" if "rany ?f approved = Inl e" for e
    using that
    by (induction approved) (auto simp: rbind_Inl_iff rmap_Inl_iff split: if_split_asm dest: object_value_at_error)
  then show ?thesis
    by (cases "rany ?f approved") (auto simp: holds_desired_def)
qed

lemma scope_total: "\<exists>b. recovery_diff_matches_approved_scope order payload diff = Inr b"
proof -
  have "\<exists>b. rbind (holds_desired obj approved) (\<lambda>held. if \<not> held then Inr False
      else if \<not> c then Inr v else rmap f (covered_by order approved changes [] 0)) = Inr b"
    for obj approved c v changes and f :: "(string list \<times> nat) option \<Rightarrow> bool"
  proof -
    obtain held r where "holds_desired obj approved = Inr held" "covered_by order approved changes [] 0 = Inr r"
      using holds_desired_total covered_by_total by meson
    then show ?thesis by (cases held; cases c) auto
  qed
  then show ?thesis
    unfolding recovery_diff_matches_approved_scope_def Let_def
    by (auto split: option.split prod.split)
qed

lemma decoded_Some:
  "(case m of
      Inl TypeError \<Rightarrow> Inr None
    | Inl (ValueError _) \<Rightarrow> Inr None
    | Inl (EventBodyDecodeError _) \<Rightarrow> Inr None
    | Inl e \<Rightarrow> Inl e
    | Inr x \<Rightarrow> f x) = Inr (Some y) \<longleftrightarrow> (\<exists>x. m = Inr x \<and> f x = Inr (Some y))"
  by (auto split: sum.splits exn.splits)

lemma dict_only_Some:
  "(case v of PDict d \<Rightarrow> g d | _ \<Rightarrow> Inr None) = Inr (Some y) \<longleftrightarrow> (\<exists>d. v = PDict d \<and> g d = Inr (Some y))"
  by (cases v) auto

text \<open>
  C18. Authorization never raises, whatever the rows and the diff hold: a malformed payload, a missing
  field or a stored request that does not decode is an answer, not an exception.
\<close>

theorem authorization_never_raises:
  "\<exists>a. recovery_merge_authorization order db diff = Inr a"
proof -
  have w: "\<exists>m. e = EventBodyDecodeError m" if "webhook_from_body raw = Inl e" for raw e
    using that
    by (auto simp: webhook_from_body_def rmap_Inl_iff from_body_def simp del: decode_value.simps
        dest: decode_errors(1))
  have "\<exists>r. exact_merged_recovery_request order db diff = Inr r"
  proof -
    have "\<exists>r. rbind (recovery_diff_matches_approved_scope order payload diff) (\<lambda>in_scope.
          if \<not> in_scope then Inr None
          else (case webhook_from_body raw of
                 Inl TypeError \<Rightarrow> Inr None
               | Inl (ValueError _) \<Rightarrow> Inr None
               | Inl (EventBodyDecodeError _) \<Rightarrow> Inr None
               | Inl e \<Rightarrow> Inl e
               | Inr request \<Rightarrow> f request)) = Inr r"
      if "\<And>request. \<exists>r. f request = Inr r"
      for payload raw and f :: "GitWebhookReceivedBody \<Rightarrow> GitWebhookReceivedBody option res"
    proof -
      obtain b where "recovery_diff_matches_approved_scope order payload diff = Inr b"
        using scope_total by blast
      then show ?thesis using w [of raw] that by (cases "webhook_from_body raw") auto
    qed
    then show ?thesis
      unfolding exact_merged_recovery_request_def Let_def by (auto split: option.split py.split)
  qed
  then show ?thesis
    by (auto simp: recovery_merge_authorization_def split: option.split py.split)
qed

definition identities_agree ::
  "pdict \<Rightarrow> pdict \<Rightarrow> pdict \<Rightarrow> pdict \<Rightarrow> GitWebhookReceivedBody \<Rightarrow> Diff \<Rightarrow> bool" where
  "identities_agree row pr merge workflow request diff \<longleftrightarrow>
    (let tx = (\<lambda>d key. stripped (pget d key))
     in [tx row ''workspace_id'', tx row ''correlation_id'']
          = [df_workspace_id diff, gw_correlation_id request]
      \<and> map (tx merge) [''pr_url'', ''head_sha''] = map (tx pr) [''url'', ''head_sha'']
      \<and> map (tx merge) [''merge_commit_sha'', ''workflow_run_id'', ''repository_id'', ''binding_id'',
            ''application_id'', ''cluster_id'']
          = [gw_commit_sha request, gw_workflow_run_id request, gw_repository_id request,
             gw_binding_id request, gw_application_id request, gw_cluster_id request]
      \<and> map (tx pr) [''repository_id'', ''base_branch'', ''binding_id'', ''application_id'', ''environment'',
            ''cluster_id'', ''manifest_path'']
          = [gw_repository_id request, gw_branch request, gw_binding_id request,
             gw_application_id request, gw_environment request, gw_cluster_id request,
             gw_manifest_path request]
      \<and> py_casefold (tx pr ''repo_ref'') = py_casefold (gw_repo_ref request)
      \<and> map (tx workflow) [''workflow_run_id'', ''workspace_id'', ''binding_id'', ''application_id'',
            ''environment'', ''cluster_id'', ''commit_sha'']
          = [gw_workflow_run_id request, gw_workspace_id request, gw_binding_id request,
             gw_application_id request, gw_environment request, gw_cluster_id request,
             gw_commit_sha request]
      \<and> [gw_workspace_id request, gw_repository_id request, gw_binding_id request,
           gw_application_id request, gw_workflow_run_id request, gw_environment request,
           gw_cluster_id request, gw_manifest_path request]
          = [df_workspace_id diff, df_repository_id diff, df_binding_id diff, df_application_id diff,
             df_workflow_run_id diff, df_environment diff, df_cluster_id diff, df_manifest_path diff]
      \<and> [] \<notin> set [tx pr ''url'', tx pr ''head_sha'', gw_commit_sha request, gw_correlation_id request,
           gw_branch request, py_casefold (gw_repo_ref request), gw_workspace_id request,
           gw_repository_id request, gw_binding_id request, gw_application_id request,
           gw_workflow_run_id request, gw_environment request, gw_cluster_id request,
           gw_manifest_path request])"

lemma admitted_identities:
  assumes "request_admitted row payload pr workflow request diff"
  shows "identities_agree row pr (mapping (pget (plan_lifecycle payload) ''merge'')) workflow request diff"
proof -
  let ?pairs = "expected_pairs row pr (mapping (pget (plan_lifecycle payload) ''merge'')) workflow request diff"
  have "list_all (\<lambda>(actual, wanted). actual \<noteq> [] \<and> actual = wanted) ?pairs"
    using assms by (simp add: request_admitted_def Let_def)
  then show ?thesis
    unfolding expected_pairs_def identities_agree_def Let_def list.pred_inject prod.case
    by (elim conjE) (simp only: list.map list.inject list.set insert_iff empty_iff simp_thms, metis)
qed

lemma admitted_values:
  assumes "request_admitted row payload pr workflow request diff"
  shows "gw_force request" "0 < gw_replicas request" "py_strip (gw_image request) \<noteq> []"
    "approved_replica_count payload = Some n \<Longrightarrow> gw_replicas request = n"
    "stripped (pget workflow ''status'') \<in> set workflow_statuses"
  using assms by (simp_all add: request_admitted_def Let_def)

lemma merged_request_cases:
  assumes "exact_merged_recovery_request order db diff = Inr (Some request)"
  obtains plan_reader workflow_reader row workflow payload lifecycle where
    "get_recovery_plan_for_workflow db = Some plan_reader" "get_workflow_run db = Some workflow_reader"
    "plan_reader (df_workspace_id diff) (df_workflow_run_id diff) (df_binding_id diff)
      (df_application_id diff) = PDict row"
    "workflow_reader (df_workflow_run_id diff) = PDict workflow"
    "payload = mapping (pget row ''payload'')" "lifecycle = plan_lifecycle payload"
    "stripped (pget row ''status'') = RECOVERY_DEPLOY_PENDING"
    "stripped (pget row ''selected_action_id'') \<noteq> []"
    "stripped (pget payload ''execution_route'') = RECOVERY_SAFE_PR_ROUTE"
    "stripped (pget lifecycle ''phase'') = RECOVERY_DEPLOY_PENDING"
    "recovery_diff_matches_approved_scope order payload diff = Inr True"
    "webhook_from_body (mapping (pget (mapping (pget lifecycle ''merge'')) ''deployment_request''))
      = Inr request"
    "request_admitted row payload (mapping (pget lifecycle ''pr'')) workflow request diff"
proof -
  obtain plan_reader workflow_reader where
      d: "get_recovery_plan_for_workflow db = Some plan_reader" "get_workflow_run db = Some workflow_reader"
    using assms by (auto simp: exact_merged_recovery_request_def split: option.splits)
  obtain row where row: "plan_reader (df_workspace_id diff) (df_workflow_run_id diff)
      (df_binding_id diff) (df_application_id diff) = PDict row"
    using assms d by (auto simp: exact_merged_recovery_request_def split: py.splits)
  let ?payload = "mapping (pget row ''payload'')"
  let ?lifecycle = "plan_lifecycle ?payload"
  have h: "stripped (pget row ''status'') = RECOVERY_DEPLOY_PENDING"
      "stripped (pget row ''selected_action_id'') \<noteq> []"
      "stripped (pget ?payload ''execution_route'') = RECOVERY_SAFE_PR_ROUTE"
      "stripped (pget ?lifecycle ''phase'') = RECOVERY_DEPLOY_PENDING"
      "recovery_diff_matches_approved_scope order ?payload diff = Inr True"
    and w: "webhook_from_body (mapping (pget (mapping (pget ?lifecycle ''merge'')) ''deployment_request''))
          = Inr request
        \<and> (\<exists>workflow. workflow_reader (df_workflow_run_id diff) = PDict workflow
           \<and> request_admitted row ?payload (mapping (pget ?lifecycle ''pr'')) workflow request diff)"
    using assms
    by (auto simp: exact_merged_recovery_request_def d row Let_def rbind_Inr_iff decoded_Some
        dict_only_Some split: if_split_asm)
  from w obtain workflow where x: "workflow_reader (df_workflow_run_id diff) = PDict workflow"
      "request_admitted row ?payload (mapping (pget ?lifecycle ''pr'')) workflow request diff"
    by blast
  show thesis by (rule that [OF d row x(1) refl refl h conjunct1 [OF w] x(2)])
qed

text \<open>
  C7. A deployment request is handed out only if everything agrees. The plan found for the diff waits
  for the deployment of its Safe PR, has a selected action, and the diff is in its approved scope.
  The request is the one stored at the merge, forced, with an image and a positive number of
  replicas, the approved one where one is approved, and the workflow is not past its approval. The
  identities agree, none of them empty: the recorded workspace and correlation; the URL and head
  of the pull request and of the merge; the merged commit, workflow run, repository, binding,
  application and cluster of merge and request; the repository, repository reference (up to letter
  case), base branch, binding, application, environment, cluster and manifest of pull request and
  request; the run, workspace, binding, application, environment, cluster and commit of workflow
  and request; and the workspace, repository, binding, application, run, environment, cluster and
  manifest of request and diff.
\<close>

theorem merged_request_is_exact:
  assumes "exact_merged_recovery_request order db diff = Inr (Some request)"
  shows "\<exists>plan_reader workflow_reader row workflow.
      get_recovery_plan_for_workflow db = Some plan_reader \<and> get_workflow_run db = Some workflow_reader
    \<and> plan_reader (df_workspace_id diff) (df_workflow_run_id diff) (df_binding_id diff)
        (df_application_id diff) = PDict row
    \<and> workflow_reader (df_workflow_run_id diff) = PDict workflow
    \<and> (let payload = mapping (pget row ''payload'');
           lifecycle = plan_lifecycle payload;
           pr = mapping (pget lifecycle ''pr'');
           merge = mapping (pget lifecycle ''merge'');
           tx = (\<lambda>d key. stripped (pget d key))
       in tx row ''status'' = RECOVERY_DEPLOY_PENDING \<and> tx row ''selected_action_id'' \<noteq> []
        \<and> tx payload ''execution_route'' = RECOVERY_SAFE_PR_ROUTE
        \<and> tx lifecycle ''phase'' = RECOVERY_DEPLOY_PENDING
        \<and> recovery_diff_matches_approved_scope order payload diff = Inr True
        \<and> webhook_from_body (mapping (pget merge ''deployment_request'')) = Inr request
        \<and> gw_force request \<and> 0 < gw_replicas request \<and> py_strip (gw_image request) \<noteq> []
        \<and> (\<forall>n. approved_replica_count payload = Some n \<longrightarrow> gw_replicas request = n)
        \<and> tx workflow ''status'' \<in> set workflow_statuses
        \<and> [tx row ''workspace_id'', tx row ''correlation_id'']
            = [df_workspace_id diff, gw_correlation_id request]
        \<and> map (tx merge) [''pr_url'', ''head_sha''] = map (tx pr) [''url'', ''head_sha'']
        \<and> map (tx merge) [''merge_commit_sha'', ''workflow_run_id'', ''repository_id'', ''binding_id'',
              ''application_id'', ''cluster_id'']
            = [gw_commit_sha request, gw_workflow_run_id request, gw_repository_id request,
               gw_binding_id request, gw_application_id request, gw_cluster_id request]
        \<and> map (tx pr) [''repository_id'', ''base_branch'', ''binding_id'', ''application_id'',
              ''environment'', ''cluster_id'', ''manifest_path'']
            = [gw_repository_id request, gw_branch request, gw_binding_id request,
               gw_application_id request, gw_environment request, gw_cluster_id request,
               gw_manifest_path request]
        \<and> py_casefold (tx pr ''repo_ref'') = py_casefold (gw_repo_ref request)
        \<and> map (tx workflow) [''workflow_run_id'', ''workspace_id'', ''binding_id'', ''application_id'',
              ''environment'', ''cluster_id'', ''commit_sha'']
            = [gw_workflow_run_id request, gw_workspace_id request, gw_binding_id request,
               gw_application_id request, gw_environment request, gw_cluster_id request,
               gw_commit_sha request]
        \<and> [gw_workspace_id request, gw_repository_id request, gw_binding_id request,
             gw_application_id request, gw_workflow_run_id request, gw_environment request,
             gw_cluster_id request, gw_manifest_path request]
            = [df_workspace_id diff, df_repository_id diff, df_binding_id diff, df_application_id diff,
               df_workflow_run_id diff, df_environment diff, df_cluster_id diff, df_manifest_path diff]
        \<and> [] \<notin> set [tx pr ''url'', tx pr ''head_sha'', gw_commit_sha request, gw_correlation_id request,
             gw_branch request, py_casefold (gw_repo_ref request), gw_workspace_id request,
             gw_repository_id request, gw_binding_id request, gw_application_id request,
             gw_workflow_run_id request, gw_environment request, gw_cluster_id request,
             gw_manifest_path request])"
  using assms
proof (cases rule: merged_request_cases)
  case (1 plan_reader workflow_reader row workflow payload lifecycle)
  note v = admitted_values [OF 1(13)]
  have i: "identities_agree row (mapping (pget lifecycle ''pr'')) (mapping (pget lifecycle ''merge''))
      workflow request diff"
    using admitted_identities [OF 1(13)] by (simp only: 1(6))
  have "\<forall>n. approved_replica_count payload = Some n \<longrightarrow> gw_replicas request = n" using v(4) by blast
  with 1(7-12) v(1,2,3,5) i [unfolded identities_agree_def Let_def] show ?thesis
    unfolding Let_def 1(5,6)
    by (intro exI [of _ plan_reader] exI [of _ workflow_reader] exI [of _ row] exI [of _ workflow]
        conjI 1(1-4)) (elim conjE, assumption)+
qed

end
