(* ===== verification/Merge_Example.thy ===== *)
theory Merge_Example
  imports Recovery_Merge
begin

text \<open>
  A recovery plan that scales a deployment, merged and waiting for its deployment: the theorems on
  field paths, event bodies and the authorization of a merge at concrete inputs.
\<close>

definition merge_request :: pdict where
  "merge_request =
    [(''commit_sha'', PStr ''abc''), (''image'', PStr ''api:1''), (''replicas'', PInt 3),
     (''correlation_id'', PStr ''c1''), (''workspace_id'', PStr ''ws''),
     (''repository_id'', PStr ''repo''), (''repo_ref'', PStr ''org/api''), (''branch'', PStr ''main''),
     (''binding_id'', PStr ''b''), (''application_id'', PStr ''app''),
     (''workflow_run_id'', PStr ''w1''), (''environment'', PStr ''prod''),
     (''cluster_id'', PStr ''k1''), (''manifest_path'', PStr ''deploy.yaml''), (''force'', PBool True)]"

definition merge_payload :: pdict where
  "merge_payload =
    [(''execution_route'', PStr ''safe_pr''),
     (''lifecycle'', PDict
       [(''phase'', PStr ''deploy_pending''),
        (''authorization'', PDict
          [(''target'', PDict [(''namespace'', PStr ''prod''), (''resource_kind'', PStr ''Deployment''),
              (''resource_name'', PStr ''api'')]),
           (''changes'', PList [PDict [(''field_path'', PStr ''spec.replicas''),
              (''current_value'', PInt 1), (''desired_value'', PInt 3)]])]),
        (''pr'', PDict
          [(''url'', PStr ''u''), (''head_sha'', PStr ''h''), (''repository_id'', PStr ''repo''),
           (''repo_ref'', PStr ''Org/API''), (''base_branch'', PStr ''main''), (''binding_id'', PStr ''b''),
           (''application_id'', PStr ''app''), (''environment'', PStr ''prod''),
           (''cluster_id'', PStr ''k1''), (''manifest_path'', PStr ''deploy.yaml'')]),
        (''merge'', PDict
          [(''pr_url'', PStr ''u''), (''head_sha'', PStr ''h''), (''merge_commit_sha'', PStr ''abc''),
           (''workflow_run_id'', PStr ''w1''), (''repository_id'', PStr ''repo''),
           (''binding_id'', PStr ''b''), (''application_id'', PStr ''app''),
           (''cluster_id'', PStr ''k1''), (''deployment_request'', PDict merge_request)])])]"

definition merge_plan :: pdict where
  "merge_plan =
    [(''status'', PStr ''deploy_pending''), (''selected_action_id'', PStr ''a1''),
     (''workspace_id'', PStr ''ws''), (''correlation_id'', PStr ''c1''), (''payload'', PDict merge_payload)]"

definition merge_workflow :: pdict where
  "merge_workflow =
    [(''status'', PStr ''waiting_for_approval''), (''workflow_run_id'', PStr ''w1''),
     (''workspace_id'', PStr ''ws''), (''binding_id'', PStr ''b''), (''application_id'', PStr ''app''),
     (''environment'', PStr ''prod''), (''cluster_id'', PStr ''k1''), (''commit_sha'', PStr ''abc'')]"

definition merge_db :: recovery_db where
  "merge_db = \<lparr>get_recovery_plan_for_workflow = Some (\<lambda>workspace run binding application. PDict merge_plan),
    get_workflow_run = Some (\<lambda>run. PDict merge_workflow)\<rparr>"

definition old_spec :: pdict where
  "old_spec = [(''replicas'', PInt 1), (''paused'', PBool False)]"

definition new_spec :: pdict where
  "new_spec = [(''replicas'', PInt 3), (''paused'', PBool False)]"

definition merge_change :: pdict where
  "merge_change = [(''field_path'', PStr ''spec''), (''classification'', PStr ''intended_change''),
    (''old_desired'', PDict old_spec), (''before'', PDict old_spec), (''after'', PDict new_spec)]"

definition merge_diff :: Diff where
  "merge_diff =
    \<lparr>df_resource = ''Deployment/api'', df_namespace = ''prod'', df_desired_image = ''api:2'',
     df_actual_image = ''api:1'', df_risk = ''low'', df_workspace_id = ''ws'',
     df_repository_id = ''repo'', df_watch_target_id = ''watch'', df_binding_id = ''b'', df_application_id = ''app'',
     df_workflow_run_id = ''w1'', df_environment = ''prod'', df_cluster_id = ''k1'',
     df_manifest_path = ''deploy.yaml'', df_resource_class = ''application'',
     df_desired_manifest = PDict [(''kind'', PStr ''Deployment''),
       (''metadata'', PDict [(''name'', PStr ''api'')]), (''spec'', PDict new_spec)],
     df_status = ''changed'', df_has_changes = True,
     df_changes = [PDict merge_change], df_basis = PDict []\<rparr>"

definition as_given :: "string list \<Rightarrow> string list" where
  "as_given xs = xs"

lemma merge_in_scope: "recovery_diff_matches_approved_scope as_given merge_payload merge_diff = Inr True"
  by code_simp

theorem authorized_diff_is_the_approved_change_witness:
  "\<exists>approved. approved_change_contract merge_payload = Some approved \<and> contract_ok approved
    \<and> (\<exists>change. PDict change \<in> set (df_changes merge_diff) \<and> change_class change = INTENDED_CHANGE)"
  using authorized_diff_is_the_approved_change [OF merge_in_scope]
  by (auto simp: merge_diff_def as_given_def)

definition scale_up :: approved_changes where
  "scale_up = [(''spec.replicas'', PInt 1, PInt 3)]"

theorem projection_changes_only_approved_witness:
  "\<exists>projected. py_eq projected (PDict new_spec)
    \<and> object_value_at projected [\<lparr>sg_key = ''replicas'', sg_selected_name = None\<rparr>] = Inr (PInt 3)
    \<and> object_value_at projected [\<lparr>sg_key = ''paused'', sg_selected_name = None\<rparr>]
      = object_value_at (PDict old_spec) [\<lparr>sg_key = ''paused'', sg_selected_name = None\<rparr>]"
proof -
  have h: "df_has_changes merge_diff" "\<forall>xs. mset (as_given xs) = mset xs"
      "approved_change_contract merge_payload = Some scale_up" "PDict merge_change \<in> set (df_changes merge_diff)"
      "change_class merge_change = INTENDED_CHANGE" "(''spec.replicas'', PInt 1, PInt 3) \<in> set scale_up"
    by (simp add: merge_diff_def, simp add: as_given_def, code_simp, simp add: merge_diff_def, code_simp,
        simp add: scale_up_def)
  have c: "change_path merge_change = ''spec''" "pget merge_change ''before'' = PDict old_spec"
      "pget merge_change ''after'' = PDict new_spec"
      "rel_segments ''spec'' ''spec.replicas'' = [\<lparr>sg_key = ''replicas'', sg_selected_name = None\<rparr>]"
    by code_simp+
  have p: "prefix (change_path merge_change @ ''.'') ''spec.replicas''" by (simp add: c)
  note r = projection_changes_only_approved [OF merge_in_scope h p]
  have "prefix (''spec.'') ''spec.replicas''" by simp
  with r have "\<exists>projected. py_eq projected (PDict new_spec)
      \<and> object_value_at projected [\<lparr>sg_key = ''replicas'', sg_selected_name = None\<rparr>] = Inr (PInt 3)
      \<and> (\<forall>q. diverge [\<lparr>sg_key = ''replicas'', sg_selected_name = None\<rparr>] q \<longrightarrow>
          object_value_at projected q = object_value_at (PDict old_spec) q)"
    unfolding c by (auto simp: scale_up_def c(4) simp del: object_value_at.simps diverge.simps)
  moreover have "diverge [\<lparr>sg_key = ''replicas'', sg_selected_name = None\<rparr>]
      [\<lparr>sg_key = ''paused'', sg_selected_name = None\<rparr>]" by code_simp
  ultimately show ?thesis by blast
qed

lemma merge_request_found:
  "\<exists>request. exact_merged_recovery_request as_given merge_db merge_diff = Inr (Some request)"
proof -
  have "case exact_merged_recovery_request as_given merge_db merge_diff of
      Inr (Some request) \<Rightarrow> True | _ \<Rightarrow> False"
    by code_simp
  then show ?thesis by (auto split: sum.splits option.splits)
qed

theorem merged_request_is_exact_witness:
  "\<exists>request. exact_merged_recovery_request as_given merge_db merge_diff = Inr (Some request)
    \<and> gw_force request \<and> gw_environment request = ''prod'' \<and> gw_repository_id request = ''repo''"
proof -
  obtain request where "exact_merged_recovery_request as_given merge_db merge_diff = Inr (Some request)"
    using merge_request_found by blast
  with merged_request_is_exact [OF this] show ?thesis by (auto simp: merge_diff_def Let_def)
qed

subsection \<open>Event bodies\<close>

definition pinned_fields :: "field_spec list" where
  "pinned_fields =
    [(''name'', ''name'', T_Str, None),
     (''ref'', ''sourceRef'', T_Union [T_Body ''Ref'' [(''sha'', ''sha'', T_Str, None)], T_None],
        Some (V_Json PNone)),
     (''tags'', ''tags'', T_List T_Str, Some (V_List []))]"

definition pinned :: "(string \<times> string \<times> body_value) list" where
  "pinned =
    [(''name'', ''name'', V_Json (PStr ''api'')),
     (''ref'', ''sourceRef'', V_Body ''Ref'' [(''sha'', ''sha'', V_Json (PStr ''abc''))]),
     (''tags'', ''tags'', V_List [V_Json (PStr ''x'')])]"

lemma pinned_typed: "type_ok (T_Body ''Pinned'' pinned_fields)"
    "value_ok (T_Body ''Pinned'' pinned_fields) (V_Body ''Pinned'' pinned)"
  by code_simp+

theorem body_wire_round_trip_witness:
  "from_body True ''Pinned'' pinned_fields (to_body_value (V_Body ''Pinned'' pinned))
    = Inr (V_Body ''Pinned'' pinned)"
  by (rule body_wire_round_trip [OF pinned_typed])

theorem body_is_typed_witness:
  "has_type (T_Body ''Pinned'' pinned_fields)
     (V_Body ''Pinned'' [(''name'', ''name'', V_Json (PStr ''api'')), (''ref'', ''sourceRef'', V_Json PNone),
        (''tags'', ''tags'', V_List [])])"
proof (rule body_is_typed [OF pinned_typed(1)])
  show "checked (T_Body ''Pinned'' pinned_fields)" by code_simp
  show "from_body True ''Pinned'' pinned_fields (PDict [(''name'', PStr ''api'')])
      = Inr (V_Body ''Pinned'' [(''name'', ''name'', V_Json (PStr ''api'')),
          (''ref'', ''sourceRef'', V_Json PNone), (''tags'', ''tags'', V_List [])])"
    by code_simp
qed

theorem additive_fields_witness:
  "from_body False ''Pinned'' pinned_fields (PDict ((''added'', PInt 1) # to_body pinned))
    = Inr (V_Body ''Pinned'' pinned)"
proof -
  have "dict_get ((''added'', PInt 1) # to_body pinned) key = dict_get (to_body pinned) key"
    if "key \<in> set (map spec_key pinned_fields)" for key
    using that by (auto simp: pinned_fields_def spec_key_def)
  moreover have "''added'' \<in> set (map fst ((''added'', PInt 1) # to_body pinned))" by simp
  moreover have "''added'' \<notin> set (map spec_key pinned_fields)" by code_simp
  ultimately show ?thesis using additive_fields [OF pinned_typed] by blast
qed

end
