(* ===== verification/Spec2Isabelle.thy ===== *)
theory Spec2Isabelle
  imports Recovery_Example Managed_Diff Event_Example Bus_Example Merge_Example
begin

text \<open>
  This development models the event runtime, the recovery workflow and the GitOps checks of the
  Kyro operations platform, a Python system of workers that talk over an event bus
  (\<open>src/src\<close>), and proves the properties that make these parts correct.

  \<^bold>\<open>The program.\<close> Workers receive events from a bus, run a handler inside one database transaction
  and stage the events the handler produces in an outbox table; a relay publishes the outbox. An
  incident leads to a recovery plan; the plan is applied by a pull request; after the merge the
  platform watches evidence windows until the recovery is verified. Desired and live manifests are
  compared field by field, and a merged recovery is deployed without a second approval only if the
  diff is the approved change.

  \<^bold>\<open>Conventions.\<close> \<open>Kyro_Prelude\<close> holds exceptions as values (\<open>exn\<close>, \<open>'a res\<close>, with \<open>rbind\<close>, \<open>rmap\<close>,
  \<open>rfold\<close>, \<open>rtraverse\<close>), Python strings as lists of bytes, dictionaries as association lists in
  insertion order. \<open>Py_Number\<close> has decimal numerals and binary64 arithmetic with its rounding,
  \<open>Py_Datetime\<close> the proleptic calendar and ISO 8601 texts, \<open>Py_Value\<close> the JSON values (\<open>py\<close>) with
  Python's equality, truth value and printing. Letter case and white space are those of ASCII.
  Values of the surrounding services (rows that a reader returns, the clock, the answer of the
  broker, identifiers that are drawn at random) are arguments of the definitions. Coroutines are
  functions on an explicit state; where the event loop or another process can run in between, the
  steps are separate operations and a step relation interleaves them.

  \<^bold>\<open>Recovery verification\<close>, \<open>domains/rca/recovery_verification.py\<close>. \<open>Recovery_Evidence\<close> reads one evidence
  window: metric samples, replica counts, protected workloads and sessions, alerts.
  \<open>Recovery_Verification\<close> computes the checks (\<open>verification_checks\<close>) and the decision
  (\<open>evaluate_recovery_evidence\<close>): a recovery is completed only if every check holds and the healthy
  period and the number of windows are reached, a failure only after the deadline, and a duplicate
  or unhealthy window does what it should to the counters. \<open>Recovery_Lifecycle\<close> models the handlers
  of \<open>services/ai/rca-feedback-worker/app.py\<close> around it, the compare-and-set of
  \<open>domains/rca/repository.py\<close>, and runs of many windows: a completed run ends in a chain of
  healthy windows without gaps. \<open>Recovery_Example\<close> evaluates a concrete run.

  \<^bold>\<open>Event runtime\<close>, \<open>packages/runtime\<close>, \<open>packages/events\<close>, \<open>packages/storage/repositories\<close>. \<open>Event_Store\<close> has the
  envelope, the processing ledger, the outbox and the dead letters, statement by statement.
  \<open>Event_Ledger\<close> states the contract of the ledger as the locale \<open>processing_store\<close>, interprets it
  on the statements and shows that claims exclude each other across any sequence of statements
  (\<open>ledger_run\<close>) that settles no failure of the event. \<open>Event_Worker\<close> models the worker's processing
  of a delivery and the relay: acknowledgement only after settlement, atomicity, redelivery, dead
  letters after the last attempt, and which outbox rows are marked as sent. A handler returns the
  tables as far as it wrote them also when it raises, and the database may refuse any of the
  writes that follow (\<open>write_fault\<close>); \<open>unit_of_work\<close> commits or rolls back. \<open>Event_Interleaving\<close> interleaves workers,
  crashes and redelivery and shows that a consumer commits the effect of an event at most once.
  \<open>Event_Bus\<close> models the in-process bus of \<open>packages/events/in_memory.py\<close>, with the locale
  \<open>accounted_buffer\<close> as the contract of a subscription: no event is lost. \<open>Event_Body\<close> models the wire
  form of event bodies, \<open>packages/contracts/event_bus/bodies/base.py\<close>: round trip, types (for the
  annotations that the reader checks), additive fields. \<open>Event_Example\<close> and \<open>Bus_Example\<close> evaluate concrete states.

  \<^bold>\<open>GitOps checks\<close>, \<open>domains/gitops\<close>. \<open>Managed_Diff\<close> models \<open>diffing.py\<close>: which differences a comparison
  reports, that drift is a difference at a declared place and nothing else, and how the class of a
  change and the summary announce what a deployment would overwrite. \<open>Field_Path\<close> has the field
  paths of \<open>source_patch.py\<close> and the laws of reading and writing along them. \<open>Recovery_Merge\<close> models
  \<open>recovery_merge.py\<close>: an authorized diff is the approved change, an intended change of a parent
  changes the approved fields below it and no other, the handed out request is the stored one and
  agrees with plan, pull request, merge, workflow and diff, and the check never raises.
  \<open>Merge_Example\<close> evaluates a merge.

  \<^bold>\<open>Bounds.\<close> All loops are structural recursions or folds and need no fuel, with two exceptions that are
  exact: the search for the shortest decimal of a float tries 17 digits, which always suffice, and
  \<open>int()\<close> refuses numerals of more than 4300 digits, as Python does. The claim of a recovery run
  assumes an evidence cadence of at most \<open>10^9\<close> seconds, below which the cadence is exact as a
  binary64.

  \<^bold>\<open>Not modelled.\<close> The HTTP gateway, SQL statements beyond those named, the NATS and Redis clients, the
  Kubernetes and Git providers, language model calls, process supervision and the frontend: they
  are calls into libraries and services with little logic of their own.
\<close>

end
